(* ===== verification/Huginn_Prelude.thy ===== *)
theory Huginn_Prelude
  imports Complex_Main "HOL-Library.Word" "HOL-Library.Sublist" "HOL-Library.List_Lexorder" "HOL-Library.Multiset"
begin

text \<open>
  Shared vocabulary of the development: the result type of fallible Rust code and its
  combinators, the early-return idiom \<open>if cond { return Err(e) }\<close> as a list of checks, the
  collections the component proofs draw on, and the few facts on lists, options and folds that
  several components need.
\<close>

named_theorems text_simps \<open>evaluation of text literals and of the text routines\<close>
named_theorems wf_intros \<open>preservation of the components' invariants\<close>
named_theorems control_simps \<open>facts about control characters in assembled texts\<close>
named_theorems result_simps \<open>unfolding of the result combinators\<close>

section \<open>Machine integers\<close>

type_synonym u8 = "8 word"
type_synonym u16 = "16 word"
type_synonym u32 = "32 word"
type_synonym u64 = "64 word"

lemma unat_u8_less [simp]: "unat (w :: u8) < 256"
  using unsigned_less [of w, where ?'a = nat] by simp

lemma unat_u16_le [simp]: "unat (w :: u16) \<le> 0xFFFF"
  using unsigned_less [of w, where ?'a = nat] by simp

lemma unat_u64_le [simp]: "unat (w :: u64) \<le> 0xFFFFFFFFFFFFFFFF"
  using unsigned_less [of w, where ?'a = nat] by simp

lemma unat_u8_of_nat: "k < 256 \<Longrightarrow> unat (of_nat k :: u8) = k"
  by (simp add: unat_of_nat)

lemma word_pos_iff: "0 < w \<longleftrightarrow> w \<noteq> 0" for w :: "'a :: len word"
  by (auto simp: word_gt_0)

section \<open>Results\<close>

text \<open>
  \<open>Result<T, E>\<close> is the sum \<open>'e + 'a\<close>: \<open>Inl\<close> is \<open>Err\<close>, \<open>Inr\<close> is \<open>Ok\<close>.
  \<open>and_then\<close> is the operator \<open>?\<close> followed by the rest of the function, \<open>map_err\<close> the method of
  that name, \<open>ok\<close> is \<open>Result::ok\<close> and \<open>unwrap_or\<close> the method of \<open>Option\<close>.
\<close>

definition and_then :: "'e + 'a \<Rightarrow> ('a \<Rightarrow> 'e + 'b) \<Rightarrow> 'e + 'b" where
  "and_then r k = (case r of Inl e \<Rightarrow> Inl e | Inr a \<Rightarrow> k a)"

definition map_err :: "('e \<Rightarrow> 'f) \<Rightarrow> 'e + 'a \<Rightarrow> 'f + 'a" where
  "map_err f r = (case r of Inl e \<Rightarrow> Inl (f e) | Inr a \<Rightarrow> Inr a)"

definition ok :: "'e + 'a \<Rightarrow> 'a option" where
  "ok r = (case r of Inl _ \<Rightarrow> None | Inr a \<Rightarrow> Some a)"

definition ok_or :: "'e \<Rightarrow> 'a option \<Rightarrow> 'e + 'a" where
  "ok_or e x = (case x of None \<Rightarrow> Inl e | Some a \<Rightarrow> Inr a)"

definition unwrap_or :: "'a option \<Rightarrow> 'a \<Rightarrow> 'a" where
  "unwrap_or x d = (case x of None \<Rightarrow> d | Some a \<Rightarrow> a)"

lemma and_then_simps [simp, result_simps]:
  "and_then (Inl e) k = Inl e"
  "and_then (Inr a) k = k a"
  by (simp_all add: and_then_def)

lemma map_err_simps [simp, result_simps]:
  "map_err f (Inl e) = Inl (f e)"
  "map_err f (Inr a) = Inr a"
  by (simp_all add: map_err_def)

lemma ok_simps [simp, result_simps]:
  "ok (Inl e) = None"
  "ok (Inr a) = Some a"
  by (simp_all add: ok_def)

lemma ok_or_simps [simp, result_simps]:
  "ok_or e None = Inl e"
  "ok_or e (Some a) = Inr a"
  by (simp_all add: ok_or_def)

lemma unwrap_or_simps [simp, result_simps]:
  "unwrap_or None d = d"
  "unwrap_or (Some a) d = a"
  by (simp_all add: unwrap_or_def)

lemma and_then_Inr_iff: "and_then r k = Inr b \<longleftrightarrow> (\<exists>a. r = Inr a \<and> k a = Inr b)"
  by (cases r) auto

lemma and_then_Inl_iff: "and_then r k = Inl e \<longleftrightarrow> r = Inl e \<or> (\<exists>a. r = Inr a \<and> k a = Inl e)"
  by (cases r) auto

lemma map_err_Inr_iff [simp]: "map_err f r = Inr a \<longleftrightarrow> r = Inr a"
  by (cases r) auto

lemma map_err_Inl_iff: "map_err f r = Inl e \<longleftrightarrow> (\<exists>d. r = Inl d \<and> e = f d)"
  by (cases r) auto

lemma ok_or_Inr_iff [simp]: "ok_or e x = Inr a \<longleftrightarrow> x = Some a"
  by (cases x) auto

section \<open>Sequences of checks\<close>

text \<open>
  A Rust validation function is a sequence of \<open>if cond { return Err(e) }\<close>. Each such statement
  is \<open>fail_if cond e\<close>; \<open>check_all\<close> runs them in order and returns the first error.
\<close>

definition fail_if :: "bool \<Rightarrow> 'e \<Rightarrow> 'e + unit" where
  "fail_if b e = (if b then Inl e else Inr ())"

fun check_all :: "('e + unit) list \<Rightarrow> 'e + unit" where
  "check_all [] = Inr ()"
| "check_all (c # cs) = and_then c (\<lambda>_. check_all cs)"

lemma fail_if_Inr_iff [simp]: "fail_if b e = Inr u \<longleftrightarrow> \<not> b"
  by (simp add: fail_if_def)

lemma fail_if_Inl_iff [simp]: "fail_if b e = Inl d \<longleftrightarrow> b \<and> d = e"
  by (auto simp: fail_if_def)

lemma fail_if_simps [result_simps]:
  "fail_if True e = Inl e"
  "fail_if False e = Inr ()"
  by (simp_all add: fail_if_def)

lemma check_all_Inr_iff: "check_all cs = Inr u \<longleftrightarrow> (\<forall>c \<in> set cs. c = Inr ())"
  by (induction cs) (auto simp: and_then_Inr_iff)

lemma check_all_Inr_simps:
  "check_all [] = Inr u \<longleftrightarrow> True"
  "check_all (c # cs) = Inr u \<longleftrightarrow> c = Inr () \<and> check_all cs = Inr ()"
  "check_all (cs @ ds) = Inr u \<longleftrightarrow> check_all cs = Inr () \<and> check_all ds = Inr ()"
  by (auto simp only: check_all_Inr_iff set_append list.set)

lemma check_all_append: "check_all (cs @ ds) = and_then (check_all cs) (\<lambda>_. check_all ds)"
proof (induction cs)
  case (Cons c cs)
  then show ?case by (cases c) simp_all
qed simp

text \<open>The error that is reported is the first one: everything before it passed.\<close>

lemma check_all_first_error:
  assumes "check_all cs = Inl e"
  shows "\<exists>i < length cs. cs ! i = Inl e \<and> (\<forall>j < i. cs ! j = Inr ())"
  using assms
proof (induction cs)
  case (Cons c cs)
  show ?case
  proof (cases c)
    case (Inl d)
    with Cons.prems show ?thesis by auto
  next
    case (Inr u)
    with Cons.prems have "check_all cs = Inl e" by simp
    then obtain i where i: "i < length cs" "cs ! i = Inl e" "\<forall>j < i. cs ! j = Inr ()"
      using Cons.IH by blast
    have "\<forall>j < Suc i. (c # cs) ! j = Inr ()"
      using i(3) Inr by (auto simp: less_Suc_eq_0_disj)
    with i(1,2) show ?thesis by (intro exI [of _ "Suc i"]) simp
  qed
qed simp

section \<open>Lists and folds\<close>

lemma list_all_concat: "list_all P (concat xss) \<longleftrightarrow> (\<forall>xs \<in> set xss. list_all P xs)"
  by (induction xss) auto

lemma foldl_invariant:
  assumes "I s" and "\<And>s x. I s \<Longrightarrow> x \<in> set xs \<Longrightarrow> I (f s x)"
  shows "I (foldl f s xs)"
  using assms by (induction xs arbitrary: s) auto

lemma takeWhile_eq_prefix:
  "list_all P xs \<Longrightarrow> \<not> P y \<Longrightarrow> takeWhile P (xs @ y # ys) = xs"
  by (induction xs) auto

lemma dropWhile_eq_suffix:
  "list_all P xs \<Longrightarrow> \<not> P y \<Longrightarrow> dropWhile P (xs @ y # ys) = y # ys"
  by (induction xs) auto

lemma filter_eq_single: "k \<in> set zs \<Longrightarrow> distinct zs \<Longrightarrow> filter ((=) k) zs = [k]"
  by (induction zs) (auto simp: filter_empty_conv)

lemma append_delimiter_unique:
  "c \<notin> set u \<Longrightarrow> c \<notin> set u' \<Longrightarrow> u @ c # v = u' @ c # v' \<longleftrightarrow> u = u' \<and> v = v'"
proof (induction u arbitrary: u')
  case Nil
  then show ?case by (cases u') auto
next
  case (Cons x u)
  then show ?case by (cases u') auto
qed

text \<open>Sorting by a key that is injective on the elements forgets the order it started from.\<close>

lemma sort_key_mset_cong:
  assumes "mset xs = mset ys" and "distinct (map f xs)"
  shows "sort_key f xs = sort_key f ys"
proof (rule properties_for_sort_key)
  show "mset (sort_key f ys) = mset xs"
    using assms(1) by simp
next
  have set_eq: "set (sort_key f ys) = set xs"
    using assms(1) by (metis mset_eq_setD set_sort)
  show "filter (\<lambda>x. f k = f x) (sort_key f ys) = filter (\<lambda>x. f k = f x) xs"
    if "k \<in> set (sort_key f ys)" for k
  proof -
    have inj: "inj_on f (set xs)" and dist: "distinct xs"
      using assms(2) by (simp_all add: distinct_map)
    have kx: "k \<in> set xs" using that set_eq by simp
    have single: "filter (\<lambda>x. f k = f x) zs = [k]" if "set zs = set xs" "distinct zs" for zs
    proof -
      have "filter (\<lambda>x. f k = f x) zs = filter (\<lambda>x. k = x) zs"
        using that(1) kx inj by (intro filter_cong) (auto simp: inj_on_def)
      also have "\<dots> = [k]"
        using that kx by (simp add: filter_eq_single)
      finally show ?thesis .
    qed
    have "distinct ys" using assms(1) dist by (metis mset_eq_imp_distinct_iff)
    then have "distinct (sort_key f ys)" by simp
    with single set_eq dist show ?thesis by simp
  qed
next
  show "sorted (map f (sort_key f ys))" by simp
qed

lemma map_eq_append3E:
  assumes "map f xs = as @ bs @ cs"
  obtains a b c where "xs = a @ b @ c" "as = map f a" "bs = map f b" "cs = map f c"
  using assms by (metis map_eq_append_conv)

end
