(* ===== verification/Rust_Text.thy ===== *)
theory Rust_Text
  imports Huginn_Prelude
begin

text \<open>
  The part of Rust's \<open>str\<close>, \<open>char\<close> and integer formatting that the program uses. A Rust \<open>char\<close> is
  a Unicode scalar value, a \<open>String\<close> a list of them; \<open>utf8\<close> gives its bytes and \<open>utf8_lossy\<close> is
  \<open>String::from_utf8_lossy\<close>. The lemmas are round trips (decimal printing and parsing, UTF-8) and
  the facts about trimming, splitting and replacing that the components rest on.
\<close>

section \<open>Characters and texts\<close>

type_synonym rchar = nat
type_synonym rstr = "rchar list"

definition lit :: "string \<Rightarrow> rstr" where
  "lit s = map of_char s"

definition is_scalar :: "rchar \<Rightarrow> bool" where
  "is_scalar c \<longleftrightarrow> c < 0xD800 \<or> (0xE000 \<le> c \<and> c < 0x110000)"

definition valid_text :: "rstr \<Rightarrow> bool" where
  "valid_text s \<longleftrightarrow> list_all is_scalar s"

text \<open>\<open>char::is_control\<close>: the Unicode category Cc.\<close>

definition is_control :: "rchar \<Rightarrow> bool" where
  "is_control c \<longleftrightarrow> c < 0x20 \<or> (0x7F \<le> c \<and> c < 0xA0)"

text \<open>\<open>char::is_whitespace\<close>: the Unicode property White_Space.\<close>

definition is_whitespace :: "rchar \<Rightarrow> bool" where
  "is_whitespace c \<longleftrightarrow> (0x9 \<le> c \<and> c \<le> 0xD) \<or> c = 0x20 \<or> c = 0x85 \<or> c = 0xA0 \<or> c = 0x1680
     \<or> (0x2000 \<le> c \<and> c \<le> 0x200A) \<or> c = 0x2028 \<or> c = 0x2029 \<or> c = 0x202F \<or> c = 0x205F \<or> c = 0x3000"

definition is_digit :: "rchar \<Rightarrow> bool" where
  "is_digit c \<longleftrightarrow> 48 \<le> c \<and> c \<le> 57"

definition is_ascii_alphanumeric :: "rchar \<Rightarrow> bool" where
  "is_ascii_alphanumeric c \<longleftrightarrow> is_digit c \<or> (65 \<le> c \<and> c \<le> 90) \<or> (97 \<le> c \<and> c \<le> 122)"

definition single_quote :: rstr where "single_quote = [39]"
definition em_dash :: rstr where "em_dash = [0x2014]"

definition quoted :: "rstr \<Rightarrow> rstr" where
  "quoted s = single_quote @ s @ single_quote"

lemma lit_simps [text_simps]:
  "lit [] = []"
  "lit (c # cs) = of_char c # lit cs"
  by (simp_all add: lit_def)

lemma lit_append: "lit (s @ t) = lit s @ lit t"
  by (simp add: lit_def)

lemma length_lit [simp]: "length (lit s) = length s"
  by (simp add: lit_def)

lemma lit_eq_Nil [simp]: "lit s = [] \<longleftrightarrow> s = []"
  by (simp add: lit_def)

lemma valid_text_simps [simp]:
  "valid_text []"
  "valid_text (c # cs) \<longleftrightarrow> is_scalar c \<and> valid_text cs"
  "valid_text (s @ t) \<longleftrightarrow> valid_text s \<and> valid_text t"
  by (simp_all add: valid_text_def)

section \<open>Prefixes, suffixes, splitting, trimming\<close>

definition starts_with :: "rstr \<Rightarrow> rstr \<Rightarrow> bool" where
  "starts_with s p \<longleftrightarrow> take (length p) s = p"

definition strip_prefix :: "rstr \<Rightarrow> rstr \<Rightarrow> rstr option" where
  "strip_prefix s p = (if starts_with s p then Some (drop (length p) s) else None)"

definition strip_prefix_char :: "rstr \<Rightarrow> rchar \<Rightarrow> rstr option" where
  "strip_prefix_char s c = (case s of [] \<Rightarrow> None | d # ds \<Rightarrow> if d = c then Some ds else None)"

definition strip_suffix_char :: "rstr \<Rightarrow> rchar \<Rightarrow> rstr option" where
  "strip_suffix_char s c = (if s \<noteq> [] \<and> last s = c then Some (butlast s) else None)"

definition rsplit_once :: "rchar \<Rightarrow> rstr \<Rightarrow> (rstr \<times> rstr) option" where
  "rsplit_once c s =
     (if c \<in> set s
      then Some (rev (tl (dropWhile (\<lambda>x. x \<noteq> c) (rev s))), rev (takeWhile (\<lambda>x. x \<noteq> c) (rev s)))
      else None)"

definition trim_end_matches :: "rchar \<Rightarrow> rstr \<Rightarrow> rstr" where
  "trim_end_matches c s = rev (dropWhile (\<lambda>x. x = c) (rev s))"

definition trim :: "rstr \<Rightarrow> rstr" where
  "trim s = rev (dropWhile is_whitespace (rev (dropWhile is_whitespace s)))"

text \<open>\<open>s.lines().next()\<close>: up to the first line feed, with a carriage return before it removed.\<close>

definition first_line :: "rstr \<Rightarrow> rstr option" where
  "first_line s =
     (if s = [] then None
      else let l = takeWhile (\<lambda>x. x \<noteq> 10) s
           in Some (if 10 \<in> set s then unwrap_or (strip_suffix_char l 13) l else l))"

lemma starts_with_iff: "starts_with s p \<longleftrightarrow> (\<exists>t. s = p @ t)"
  unfolding starts_with_def by (metis append_eq_conv_conj append_take_drop_id)

lemma strip_prefix_Some_iff: "strip_prefix s p = Some t \<longleftrightarrow> s = p @ t"
  by (auto simp: strip_prefix_def starts_with_iff)

lemma strip_prefix_append [simp]: "strip_prefix (p @ s) p = Some s"
  by (simp add: strip_prefix_Some_iff)

lemma strip_prefix_char_Some_iff: "strip_prefix_char s c = Some t \<longleftrightarrow> s = c # t"
  by (auto simp: strip_prefix_char_def split: list.splits)

lemma rsplit_once_append: "c \<notin> set t \<Longrightarrow> rsplit_once c (s @ c # t) = Some (s, t)"
proof -
  assume "c \<notin> set t"
  then have "list_all (\<lambda>x. x \<noteq> c) (rev t)" by (auto simp: list_all_iff)
  then show ?thesis
    by (simp add: rsplit_once_def takeWhile_eq_prefix dropWhile_eq_suffix)
qed

lemma rsplit_once_Some_iff: "rsplit_once c s = Some (a, b) \<longleftrightarrow> s = a @ c # b \<and> c \<notin> set b"
proof
  assume r: "rsplit_once c s = Some (a, b)"
  then have "c \<in> set s" by (auto simp: rsplit_once_def split: if_splits)
  then obtain u v where "s = u @ c # v" "c \<notin> set v" by (meson split_list_last)
  with r show "s = a @ c # b \<and> c \<notin> set b" by (simp add: rsplit_once_append)
qed (auto simp: rsplit_once_append)

lemma rsplit_once_None_iff: "rsplit_once c s = None \<longleftrightarrow> c \<notin> set s"
  by (simp add: rsplit_once_def)

lemma set_trim: "set (trim s) \<subseteq> set s"
  unfolding trim_def by (auto dest!: set_dropWhileD)

lemma dropWhile_hd: "dropWhile P s \<noteq> [] \<Longrightarrow> \<not> P (hd (dropWhile P s))"
  by (rule hd_dropWhile)

text \<open>A trimmed text neither begins nor ends with white space; trimming again changes nothing.\<close>

lemma trim_last: "trim s \<noteq> [] \<Longrightarrow> \<not> is_whitespace (last (trim s))"
  by (simp add: trim_def last_rev hd_dropWhile)

lemma dropWhile_rev_hd:
  assumes "u \<noteq> []" "\<not> P (hd u)"
  shows "rev (dropWhile P (rev u)) \<noteq> [] \<and> hd (rev (dropWhile P (rev u))) = hd u"
proof -
  obtain c cs where u: "u = c # cs" using assms(1) by (cases u) auto
  have "dropWhile P (rev cs @ [c]) = dropWhile P (rev cs) @ [c]"
    using assms(2) u by (induction "rev cs" arbitrary: cs) (auto simp: dropWhile_append)
  with u show ?thesis by simp
qed

lemma trim_hd: "trim s \<noteq> [] \<Longrightarrow> \<not> is_whitespace (hd (trim s))"
proof -
  let ?u = "dropWhile is_whitespace s"
  assume "trim s \<noteq> []"
  then have "?u \<noteq> []" unfolding trim_def by (metis dropWhile.simps(1) rev.simps(1))
  then have "\<not> is_whitespace (hd ?u)" by (rule hd_dropWhile)
  with \<open>?u \<noteq> []\<close> dropWhile_rev_hd [of ?u is_whitespace] show ?thesis
    by (simp add: trim_def)
qed

section \<open>Replacing, joining, letter case\<close>

text \<open>\<open>s.replace(c, r)\<close> for a single character \<open>c\<close>.\<close>

definition replace_char :: "rchar \<Rightarrow> rstr \<Rightarrow> rstr \<Rightarrow> rstr" where
  "replace_char c r s = concat (map (\<lambda>x. if x = c then r else [x]) s)"

fun join :: "rstr \<Rightarrow> rstr list \<Rightarrow> rstr" where
  "join sep [] = []"
| "join sep [s] = s"
| "join sep (s # ss) = s @ sep @ join sep ss"

lemma replace_char_simps [simp]:
  "replace_char c r [] = []"
  "replace_char c r (x # xs) = (if x = c then r else [x]) @ replace_char c r xs"
  "replace_char c r (s @ t) = replace_char c r s @ replace_char c r t"
  by (simp_all add: replace_char_def)

text \<open>
  Two replacements in a row are one replacement character by character, provided the second acts on
  what the first inserted.
\<close>

lemma replace_char_concat_map:
  "replace_char c r (concat (map f s)) = concat (map (\<lambda>x. replace_char c r (f x)) s)"
  by (induction s) simp_all

definition to_ascii_lowercase_char :: "rchar \<Rightarrow> rchar" where
  "to_ascii_lowercase_char c = (if 65 \<le> c \<and> c \<le> 90 then c + 32 else c)"

definition eq_ignore_ascii_case :: "rstr \<Rightarrow> rstr \<Rightarrow> bool" where
  "eq_ignore_ascii_case s t \<longleftrightarrow> map to_ascii_lowercase_char s = map to_ascii_lowercase_char t"

text \<open>
  \<open>str::to_lowercase\<close>, as the code uses it: the result is only compared with ASCII words. U+212A
  (Kelvin sign) is the only character beyond ASCII whose lower case is one ASCII letter; every
  other one has a lower case with a character beyond ASCII in it, as the unchanged character is,
  so the comparison comes out the same.
\<close>

definition to_lowercase :: "rstr \<Rightarrow> rstr" where
  "to_lowercase s = map (\<lambda>c. if c = 0x212A then 107 else to_ascii_lowercase_char c) s"

lemma to_lowercase_word:
  assumes "list_all (\<lambda>c. c < 0x80 \<and> c \<noteq> 107) w" "map to_ascii_lowercase_char w = w"
  shows "to_lowercase s = w \<longleftrightarrow> eq_ignore_ascii_case s w"
  using assms unfolding eq_ignore_ascii_case_def to_lowercase_def
proof (induction s arbitrary: w)
  case (Cons c s)
  show ?case
  proof (cases w)
    case (Cons d w')
    with Cons.prems have "d < 0x80" "d \<noteq> 107" "to_ascii_lowercase_char d = d" by simp_all
    moreover have "to_ascii_lowercase_char 0x212A = 0x212A" by (simp add: to_ascii_lowercase_char_def)
    ultimately show ?thesis using Cons Cons.IH [of w'] Cons.prems by auto
  qed simp
qed auto

section \<open>Decimal and hexadecimal numbers\<close>

function show_uint :: "int \<Rightarrow> rstr" where
  "show_uint i = (if i < 10 then [48 + nat i] else show_uint (i div 10) @ [48 + nat (i mod 10)])"
  by pat_completeness auto
termination
  by (relation "measure nat") (auto simp: nat_less_eq_zless)

declare show_uint.simps [simp del]

definition show_nat :: "nat \<Rightarrow> rstr" where
  "show_nat n = show_uint (int n)"

definition show_int :: "int \<Rightarrow> rstr" where
  "show_int i = (if i < 0 then [45] else []) @ show_uint \<bar>i\<bar>"

definition hex_digit :: "nat \<Rightarrow> rchar" where
  "hex_digit d = (if d < 10 then 48 + d else 87 + d)"

definition hex_digit_upper :: "nat \<Rightarrow> rchar" where
  "hex_digit_upper d = (if d < 10 then 48 + d else 55 + d)"

fun show_hex :: "nat \<Rightarrow> rstr" where
  "show_hex n = (if n < 16 then [hex_digit n] else show_hex (n div 16) @ [hex_digit (n mod 16)])"

declare show_hex.simps [simp del]

fun show_oct :: "nat \<Rightarrow> rstr" where
  "show_oct n = (if n < 8 then [48 + n] else show_oct (n div 8) @ [48 + n mod 8])"

declare show_oct.simps [simp del]

text \<open>\<open>{:0w$}\<close>: zeros on the left up to the width.\<close>

definition pad_zeros :: "nat \<Rightarrow> rstr \<Rightarrow> rstr" where
  "pad_zeros w s = replicate (w - length s) 48 @ s"

text \<open>
  \<open>str::parse\<close> of an unsigned integer whose largest value is \<open>m\<close>: an optional sign \<open>+\<close>, at least one
  digit, nothing else, no overflow.
\<close>

definition digits_value :: "rstr \<Rightarrow> nat" where
  "digits_value ds = foldl (\<lambda>n d. 10 * n + (d - 48)) 0 ds"

definition parse_uint :: "nat \<Rightarrow> rstr \<Rightarrow> nat option" where
  "parse_uint m s =
     (let ds = (case s of c # cs \<Rightarrow> if c = 43 then cs else s | [] \<Rightarrow> [])
      in if ds \<noteq> [] \<and> list_all is_digit ds \<and> digits_value ds \<le> m then Some (digits_value ds) else None)"

definition parse_u16 :: "rstr \<Rightarrow> u16 option" where
  "parse_u16 s = map_option of_nat (parse_uint 0xFFFF s)"

definition parse_u64 :: "rstr \<Rightarrow> u64 option" where
  "parse_u64 s = map_option of_nat (parse_uint 0xFFFFFFFFFFFFFFFF s)"

lemma show_uint_digits: "list_all is_digit (show_uint i)"
proof (induction i rule: show_uint.induct)
  case (1 i)
  show ?case
  proof (cases "i < 10")
    case True
    then show ?thesis by (subst show_uint.simps) (simp add: is_digit_def)
  next
    case False
    have "nat (i mod 10) < 10" by simp
    then have "is_digit (48 + nat (i mod 10))" by (simp add: is_digit_def)
    with False "1.IH" show ?thesis by (subst show_uint.simps) simp
  qed
qed

lemma show_uint_nonempty [simp]: "show_uint i \<noteq> []"
  by (subst show_uint.simps) simp

lemma digits_value_append: "digits_value (ds @ [d]) = 10 * digits_value ds + (d - 48)"
  by (simp add: digits_value_def)

lemma digits_value_show_uint: "0 \<le> i \<Longrightarrow> digits_value (show_uint i) = nat i"
proof (induction i rule: show_uint.induct)
  case (1 i)
  show ?case
  proof (cases "i < 10")
    case True
    then show ?thesis by (subst show_uint.simps) (simp add: digits_value_def)
  next
    case False
    then have "digits_value (show_uint i) = 10 * nat (i div 10) + nat (i mod 10)"
      using "1.IH" by (subst show_uint.simps) (simp add: digits_value_append)
    also have "\<dots> = nat i" using False by (simp add: nat_div_distrib nat_mod_distrib)
    finally show ?thesis .
  qed
qed

lemma show_nat_digits: "list_all is_digit (show_nat n)"
  by (simp add: show_nat_def show_uint_digits)

lemma show_nat_nonempty [simp]: "show_nat n \<noteq> []"
  by (simp add: show_nat_def)

lemma digits_value_show_nat [simp]: "digits_value (show_nat n) = n"
  by (simp add: show_nat_def digits_value_show_uint)

lemma show_nat_inject [simp]: "show_nat m = show_nat n \<longleftrightarrow> m = n"
  by (metis digits_value_show_nat)

lemma digit_not_control: "is_digit c \<Longrightarrow> \<not> is_control c"
  by (auto simp: is_digit_def is_control_def)

lemma show_nat_no_control [control_simps]: "list_all (\<lambda>c. \<not> is_control c) (show_nat n)"
  using show_nat_digits [of n] by (auto simp: list_all_iff digit_not_control)

lemma parse_show_nat: "n \<le> m \<Longrightarrow> parse_uint m (show_nat n) = Some n"
proof -
  assume "n \<le> m"
  obtain c cs where s: "show_nat n = c # cs" by (meson neq_Nil_conv show_nat_nonempty)
  then have "c \<noteq> 43" using show_nat_digits [of n] by (auto simp: is_digit_def)
  with s \<open>n \<le> m\<close> show ?thesis
    using show_nat_digits [of n] digits_value_show_nat [of n] by (simp add: parse_uint_def)
qed

lemma parse_uint_bound: "parse_uint m s = Some n \<Longrightarrow> n \<le> m"
  by (auto simp: parse_uint_def Let_def split: if_splits)

lemma parse_show_u16: "parse_u16 (show_nat (unat p)) = Some p"
  by (simp add: parse_u16_def parse_show_nat)

section \<open>UTF-8\<close>

definition utf8_units :: "rchar \<Rightarrow> nat list" where
  "utf8_units c =
     (if c < 0x80 then [c]
      else if c < 0x800 then [0xC0 + c div 64, 0x80 + c mod 64]
      else if c < 0x10000 then [0xE0 + c div 4096, 0x80 + c div 64 mod 64, 0x80 + c mod 64]
      else [0xF0 + c div 262144, 0x80 + c div 4096 mod 64, 0x80 + c div 64 mod 64, 0x80 + c mod 64])"

definition utf8_char :: "rchar \<Rightarrow> u8 list" where
  "utf8_char c = map of_nat (utf8_units c)"

definition utf8 :: "rstr \<Rightarrow> u8 list" where
  "utf8 s = concat (map utf8_char s)"

text \<open>\<open>String::len\<close> counts bytes.\<close>

definition byte_len :: "rstr \<Rightarrow> nat" where
  "byte_len s = length (utf8 s)"

definition ascii_bytes :: "string \<Rightarrow> u8 list" where
  "ascii_bytes s = map of_char s"

definition replacement_char :: rchar where "replacement_char = 0xFFFD"

definition is_cont :: "nat \<Rightarrow> bool" where
  "is_cont b \<longleftrightarrow> 0x80 \<le> b \<and> b < 0xC0"

text \<open>
  One step of the lossy decoder on bytes read as numbers: the character decoded (the replacement
  character for an ill-formed sequence) and how many bytes it took. The second byte of a three- or
  four-byte sequence is restricted so that overlong forms, surrogates and values beyond U+10FFFF are
  rejected, and an ill-formed sequence ends before the first byte that cannot continue it.
\<close>

definition second_ok3 :: "nat \<Rightarrow> nat \<Rightarrow> bool" where
  "second_ok3 a b \<longleftrightarrow> is_cont b \<and> (a = 0xE0 \<longrightarrow> 0xA0 \<le> b) \<and> (a = 0xED \<longrightarrow> b \<le> 0x9F)"

definition second_ok4 :: "nat \<Rightarrow> nat \<Rightarrow> bool" where
  "second_ok4 a b \<longleftrightarrow> is_cont b \<and> (a = 0xF0 \<longrightarrow> 0x90 \<le> b) \<and> (a = 0xF4 \<longrightarrow> b \<le> 0x8F)"

definition decode_step :: "nat \<Rightarrow> nat list \<Rightarrow> rchar \<times> nat" where
  "decode_step a bs =
     (let b = (case bs of x # _ \<Rightarrow> x | [] \<Rightarrow> 0);
          c = (case bs of _ # x # _ \<Rightarrow> x | _ \<Rightarrow> 0);
          d = (case bs of _ # _ # x # _ \<Rightarrow> x | _ \<Rightarrow> 0)
      in if a < 0x80 then (a, 0)
         else if 0xC2 \<le> a \<and> a \<le> 0xDF then
           (if is_cont b then ((a - 0xC0) * 64 + (b - 0x80), 1) else (replacement_char, 0))
         else if 0xE0 \<le> a \<and> a \<le> 0xEF then
           (if \<not> second_ok3 a b then (replacement_char, 0)
            else if \<not> is_cont c then (replacement_char, 1)
            else ((a - 0xE0) * 4096 + (b - 0x80) * 64 + (c - 0x80), 2))
         else if 0xF0 \<le> a \<and> a \<le> 0xF4 then
           (if \<not> second_ok4 a b then (replacement_char, 0)
            else if \<not> is_cont c then (replacement_char, 1)
            else if \<not> is_cont d then (replacement_char, 2)
            else ((a - 0xF0) * 262144 + (b - 0x80) * 4096 + (c - 0x80) * 64 + (d - 0x80), 3))
         else (replacement_char, 0))"

function decode_lossy :: "nat list \<Rightarrow> rstr" where
  "decode_lossy [] = []"
| "decode_lossy (a # bs) =
     (let (c, n) = decode_step a bs in c # decode_lossy (drop n bs))"
  by pat_completeness auto
termination
  by (relation "measure length") (auto simp: less_Suc_eq_le)

declare decode_lossy.simps(2) [simp del]

definition utf8_lossy :: "u8 list \<Rightarrow> rstr" where
  "utf8_lossy bs = decode_lossy (map unat bs)"

lemma utf8_simps [simp]:
  "utf8 [] = []"
  "utf8 (c # cs) = utf8_char c @ utf8 cs"
  "utf8 (s @ t) = utf8 s @ utf8 t"
  by (simp_all add: utf8_def)

lemma byte_len_simps [simp]:
  "byte_len [] = 0"
  "byte_len (c # cs) = length (utf8_char c) + byte_len cs"
  "byte_len (s @ t) = byte_len s + byte_len t"
  by (simp_all add: byte_len_def)


text \<open>Decoding what was encoded gives the text back, whatever bytes follow.\<close>

lemma decode_utf8_units2:
  assumes "0x80 \<le> c" "c < 0x800"
  shows "decode_lossy (utf8_units c @ bs) = c # decode_lossy bs"
proof -
  define x where "x = c div 64"
  have "x \<le> 31" "2 \<le> x" using assms by (simp_all add: x_def)
  moreover have "x * 64 + c mod 64 = c" by (simp add: x_def)
  ultimately show ?thesis
    using assms
    by (simp add: utf8_units_def decode_lossy.simps decode_step_def is_cont_def Let_def
        x_def [symmetric])
qed

lemma decode_utf8_units3:
  assumes "0x800 \<le> c" "c < 0x10000" "is_scalar c"
  shows "decode_lossy (utf8_units c @ bs) = c # decode_lossy bs"
proof -
  define x where "x = c div 64"
  have c: "c = 64 * x + c mod 64" by (simp add: x_def)
  have x: "x = 64 * (x div 64) + x mod 64" by simp
  have bounds: "32 \<le> x" "x < 1024" using assms(1,2) by (simp_all add: x_def)
  have lead: "c div 4096 = x div 64" by (simp add: x_def div_mult2_eq [symmetric])
  have a: "x div 64 < 16" using bounds by linarith
  have e0: "32 \<le> x mod 64" if "x div 64 = 0" using that bounds x by linarith
  have ed: "x mod 64 < 32" if "x div 64 = 13"
  proof -
    have "x < 864" using assms(3) that x bounds c by (auto simp: is_scalar_def)
    with that x show ?thesis by linarith
  qed
  have second: "second_ok3 (0xE0 + x div 64) (0x80 + x mod 64)"
    using e0 ed by (auto simp: second_ok3_def is_cont_def)
  have sum: "4096 * (x div 64) + (64 * (x mod 64) + c mod 64) = c"
    using c x by linarith
  show ?thesis
    using assms(1,2) a second sum
    by (simp add: utf8_units_def decode_lossy.simps decode_step_def is_cont_def
        lead x_def [symmetric] mult.commute add.assoc)
qed

lemma decode_utf8_units4:
  assumes "0x10000 \<le> c" "c < 0x110000"
  shows "decode_lossy (utf8_units c @ bs) = c # decode_lossy bs"
proof -
  define x where "x = c div 64"
  define y where "y = x div 64"
  have c: "c = 64 * x + c mod 64" by (simp add: x_def)
  have x: "x = 64 * y + x mod 64" by (simp add: y_def)
  have y: "y = 64 * (y div 64) + y mod 64" by simp
  have bounds: "16 \<le> y" "y < 272" using assms by (simp_all add: x_def y_def div_mult2_eq [symmetric])
  have lead: "c div 262144 = y div 64" "c div 4096 = y"
    by (simp_all add: x_def y_def div_mult2_eq [symmetric])
  have a: "y div 64 < 5" using bounds by linarith
  have f0: "16 \<le> y mod 64" if "y div 64 = 0" using that bounds y by linarith
  have f4: "y mod 64 < 16" if "y div 64 = 4" using that bounds y by linarith
  have second: "second_ok4 (0xF0 + y div 64) (0x80 + y mod 64)"
    using f0 f4 by (auto simp: second_ok4_def is_cont_def)
  have sum: "262144 * (y div 64) + (4096 * (y mod 64) + (64 * (x mod 64) + c mod 64)) = c"
    using c x y by linarith
  show ?thesis
    using assms a second sum
    by (simp add: utf8_units_def decode_lossy.simps decode_step_def is_cont_def
        lead x_def [symmetric] mult.commute add.assoc)
qed

lemma decode_utf8_units:
  assumes "is_scalar c"
  shows "decode_lossy (utf8_units c @ bs) = c # decode_lossy bs"
proof -
  consider "c < 0x80" | "0x80 \<le> c" "c < 0x800" | "0x800 \<le> c" "c < 0x10000" | "0x10000 \<le> c" "c < 0x110000"
    using assms by (force simp: is_scalar_def)
  then show ?thesis
  proof cases
    case 1
    then show ?thesis
      by (simp add: utf8_units_def decode_lossy.simps decode_step_def)
  qed (simp_all add: assms decode_utf8_units2 decode_utf8_units3 decode_utf8_units4)
qed

lemma utf8_units_less: "is_scalar c \<Longrightarrow> b \<in> set (utf8_units c) \<Longrightarrow> b < 256"
  by (auto simp: utf8_units_def is_scalar_def split: if_splits)

lemma unat_utf8_char: "is_scalar c \<Longrightarrow> map unat (utf8_char c) = utf8_units c"
  using utf8_units_less [of c]
  by (auto simp: utf8_char_def comp_def intro!: map_idI unat_u8_of_nat)

lemma decode_utf8_prefix:
  "valid_text s \<Longrightarrow> decode_lossy (map unat (utf8 s) @ bs) = s @ decode_lossy bs"
  by (induction s) (simp_all add: decode_utf8_units unat_utf8_char)

lemma utf8_lossy_utf8: "valid_text s \<Longrightarrow> utf8_lossy (utf8 s) = s"
  using decode_utf8_prefix [of s "[]"] by (simp add: utf8_lossy_def)

lemma utf8_inject: "valid_text s \<Longrightarrow> valid_text t \<Longrightarrow> utf8 s = utf8 t \<longleftrightarrow> s = t"
  by (metis utf8_lossy_utf8)

end
