(* ===== verification/Write_Stats.thy ===== *)
theory Write_Stats
  imports Rust_Text
begin

text \<open>
  \<open>huginn-core/src/stats.rs\<close>: the counters of the InfluxDB write path. Each is a 64-bit atomic that
  \<open>fetch_add\<close> increments modulo \<open>2 ^ 64\<close>; every operation below is one method. Depth is a gauge that
  is overwritten, the rest are counters.
\<close>

record write_stats =
  ws_queue_batches :: u64
  ws_queue_bytes :: u64
  ws_dropped_batches :: u64
  ws_dropped_bytes :: u64
  ws_rejected_batches :: u64
  ws_written_batches :: u64
  ws_written_bytes :: u64
  ws_last_write_success_unix :: u64

definition default_stats :: write_stats where
  "default_stats =
     \<lparr>ws_queue_batches = 0, ws_queue_bytes = 0, ws_dropped_batches = 0, ws_dropped_bytes = 0,
      ws_rejected_batches = 0, ws_written_batches = 0, ws_written_bytes = 0,
      ws_last_write_success_unix = 0\<rparr>"

definition set_queue_depth :: "u64 \<Rightarrow> u64 \<Rightarrow> write_stats \<Rightarrow> write_stats" where
  "set_queue_depth batches bytes s = s\<lparr>ws_queue_batches := batches, ws_queue_bytes := bytes\<rparr>"

definition record_eviction :: "u64 \<Rightarrow> write_stats \<Rightarrow> write_stats" where
  "record_eviction bytes s =
     s\<lparr>ws_dropped_batches := ws_dropped_batches s + 1, ws_dropped_bytes := ws_dropped_bytes s + bytes\<rparr>"

definition record_rejected :: "write_stats \<Rightarrow> write_stats" where
  "record_rejected s = s\<lparr>ws_rejected_batches := ws_rejected_batches s + 1\<rparr>"

definition record_written :: "u64 \<Rightarrow> u64 \<Rightarrow> write_stats \<Rightarrow> write_stats" where
  "record_written bytes at_unix s =
     s\<lparr>ws_written_batches := ws_written_batches s + 1, ws_written_bytes := ws_written_bytes s + bytes,
       ws_last_write_success_unix := at_unix\<rparr>"

definition queue_batches :: "write_stats \<Rightarrow> u64" where
  "queue_batches s = ws_queue_batches s"

definition queue_bytes :: "write_stats \<Rightarrow> u64" where
  "queue_bytes s = ws_queue_bytes s"

definition dropped_batches :: "write_stats \<Rightarrow> u64" where
  "dropped_batches s = ws_dropped_batches s"

definition dropped_bytes :: "write_stats \<Rightarrow> u64" where
  "dropped_bytes s = ws_dropped_bytes s"

definition rejected_batches :: "write_stats \<Rightarrow> u64" where
  "rejected_batches s = ws_rejected_batches s"

definition written_batches :: "write_stats \<Rightarrow> u64" where
  "written_batches s = ws_written_batches s"

definition written_bytes :: "write_stats \<Rightarrow> u64" where
  "written_bytes s = ws_written_bytes s"

definition last_write_success_unix :: "write_stats \<Rightarrow> u64" where
  "last_write_success_unix s = ws_last_write_success_unix s"

lemmas stats_readers =
  queue_batches_def queue_bytes_def dropped_batches_def dropped_bytes_def rejected_batches_def
  written_batches_def written_bytes_def last_write_success_unix_def

lemmas stats_updates =
  set_queue_depth_def record_eviction_def record_rejected_def record_written_def

text \<open>
  What one update does to every reading: it moves its own counters and leaves the others alone, so a
  rejection is never an eviction and a depth is never added to a counter.
\<close>

lemma set_queue_depth_readings [simp]:
  "queue_batches (set_queue_depth n m s) = n"
  "queue_bytes (set_queue_depth n m s) = m"
  "dropped_batches (set_queue_depth n m s) = dropped_batches s"
  "dropped_bytes (set_queue_depth n m s) = dropped_bytes s"
  "rejected_batches (set_queue_depth n m s) = rejected_batches s"
  "written_batches (set_queue_depth n m s) = written_batches s"
  "written_bytes (set_queue_depth n m s) = written_bytes s"
  "last_write_success_unix (set_queue_depth n m s) = last_write_success_unix s"
  by (simp_all add: stats_readers stats_updates)

lemma record_eviction_readings [simp]:
  "queue_batches (record_eviction m s) = queue_batches s"
  "queue_bytes (record_eviction m s) = queue_bytes s"
  "dropped_batches (record_eviction m s) = dropped_batches s + 1"
  "dropped_bytes (record_eviction m s) = dropped_bytes s + m"
  "rejected_batches (record_eviction m s) = rejected_batches s"
  "written_batches (record_eviction m s) = written_batches s"
  "written_bytes (record_eviction m s) = written_bytes s"
  "last_write_success_unix (record_eviction m s) = last_write_success_unix s"
  by (simp_all add: stats_readers stats_updates)

lemma record_rejected_readings [simp]:
  "queue_batches (record_rejected s) = queue_batches s"
  "queue_bytes (record_rejected s) = queue_bytes s"
  "dropped_batches (record_rejected s) = dropped_batches s"
  "dropped_bytes (record_rejected s) = dropped_bytes s"
  "rejected_batches (record_rejected s) = rejected_batches s + 1"
  "written_batches (record_rejected s) = written_batches s"
  "written_bytes (record_rejected s) = written_bytes s"
  "last_write_success_unix (record_rejected s) = last_write_success_unix s"
  by (simp_all add: stats_readers stats_updates)

lemma record_written_readings [simp]:
  "queue_batches (record_written m t s) = queue_batches s"
  "queue_bytes (record_written m t s) = queue_bytes s"
  "dropped_batches (record_written m t s) = dropped_batches s"
  "dropped_bytes (record_written m t s) = dropped_bytes s"
  "rejected_batches (record_written m t s) = rejected_batches s"
  "written_batches (record_written m t s) = written_batches s + 1"
  "written_bytes (record_written m t s) = written_bytes s + m"
  "last_write_success_unix (record_written m t s) = t"
  by (simp_all add: stats_readers stats_updates)

lemma default_stats_readings [simp]:
  "queue_batches default_stats = 0" "queue_bytes default_stats = 0"
  "dropped_batches default_stats = 0" "dropped_bytes default_stats = 0"
  "rejected_batches default_stats = 0" "written_batches default_stats = 0"
  "written_bytes default_stats = 0" "last_write_success_unix default_stats = 0"
  by (simp_all add: stats_readers default_stats_def)

end
