(* ===== verification/Queue_Interface.thy ===== *)
theory Queue_Interface
  imports Huginn_Prelude
begin

text \<open>
  The interface between the batch queue and the two tasks that share it. A client pushes batches,
  looks at the front one and removes it by identity; the provider may evict from the front to make
  room. From these laws alone: whatever the operations and their order, the queue holds the newest
  part of all that was ever in it, in order, and every batch that left it was evicted or popped.
\<close>

datatype 'b queue_op = Push 'b | Pop 'b

fun run_op :: "('q \<Rightarrow> 'b \<Rightarrow> 'q) \<Rightarrow> ('q \<Rightarrow> 'b \<Rightarrow> 'q \<times> bool) \<Rightarrow> 'q \<Rightarrow> 'b queue_op \<Rightarrow> 'q" where
  "run_op psh pp q (Push b) = psh q b"
| "run_op psh pp q (Pop b) = fst (pp q b)"

definition run_ops :: "('q \<Rightarrow> 'b \<Rightarrow> 'q) \<Rightarrow> ('q \<Rightarrow> 'b \<Rightarrow> 'q \<times> bool) \<Rightarrow> 'q \<Rightarrow> 'b queue_op list \<Rightarrow> 'q" where
  "run_ops psh pp q os = foldl (run_op psh pp) q os"

fun pushed :: "'b queue_op list \<Rightarrow> 'b list" where
  "pushed [] = []"
| "pushed (Push b # os) = b # pushed os"
| "pushed (Pop b # os) = pushed os"

text \<open>How many of the pops in a run removed something.\<close>

fun pops_done :: "('q \<Rightarrow> 'b \<Rightarrow> 'q) \<Rightarrow> ('q \<Rightarrow> 'b \<Rightarrow> 'q \<times> bool) \<Rightarrow> 'q \<Rightarrow> 'b queue_op list \<Rightarrow> nat" where
  "pops_done psh pp q [] = 0"
| "pops_done psh pp q (Push b # os) = pops_done psh pp (psh q b) os"
| "pops_done psh pp q (Pop b # os) =
     (if snd (pp q b) then 1 else 0) + pops_done psh pp (fst (pp q b)) os"

lemma run_ops_simps [simp]:
  "run_ops psh pp q [] = q"
  "run_ops psh pp q (x # os) = run_ops psh pp (run_op psh pp q x) os"
  by (simp_all add: run_ops_def)

locale evicting_queue =
  fixes enq :: "'q \<Rightarrow> 'b \<Rightarrow> 'q"
    and front :: "'q \<Rightarrow> 'b option"
    and remove :: "'q \<Rightarrow> 'b \<Rightarrow> 'q \<times> bool"
    and same :: "'b \<Rightarrow> 'b \<Rightarrow> bool"
    and contents :: "'q \<Rightarrow> 'b list"
    and consistent :: "'q \<Rightarrow> bool"
  assumes front_contents: "front q = (case contents q of [] \<Rightarrow> None | b # _ \<Rightarrow> Some b)"
    and enq_contents: "consistent q \<Longrightarrow> \<exists>k \<le> length (contents q). contents (enq q b) = drop k (contents q) @ [b]"
    and remove_contents:
      "contents (fst (remove q b)) =
         (case contents q of [] \<Rightarrow> [] | f # fs \<Rightarrow> if same f b then fs else f # fs)"
    and remove_result: "snd (remove q b) \<longleftrightarrow> (\<exists>f fs. contents q = f # fs \<and> same f b)"
    and consistent_enq: "consistent q \<Longrightarrow> consistent (enq q b)"
    and consistent_remove: "consistent q \<Longrightarrow> consistent (fst (remove q b))"
begin

lemma remove_drop:
  "contents (fst (remove q b)) = drop (if snd (remove q b) then 1 else 0) (contents q)"
  by (auto simp: remove_contents remove_result split: list.splits)

text \<open>Removing by identity never takes another batch away.\<close>

lemma remove_keeps_others:
  "c \<in> set (contents q) \<Longrightarrow> \<not> same c b \<Longrightarrow> c \<in> set (contents (fst (remove q b)))"
  by (cases "contents q") (auto simp: remove_contents)

lemma op_contents:
  assumes "consistent q"
  shows "\<exists>k \<le> length (contents q). contents (run_op enq remove q x) = drop k (contents q) @ pushed [x]"
proof (cases x)
  case (Push b)
  then show ?thesis using enq_contents [OF assms, of b] by simp
next
  case (Pop b)
  show ?thesis
  proof (cases "snd (remove q b)")
    case True
    then have "1 \<le> length (contents q)" by (auto simp: remove_result)
    with True Pop show ?thesis by (intro exI [of _ 1]) (simp add: remove_drop)
  next
    case False
    with Pop show ?thesis by (intro exI [of _ 0]) (simp add: remove_drop)
  qed
qed

lemma consistent_op: "consistent q \<Longrightarrow> consistent (run_op enq remove q x)"
  by (cases x) (simp_all add: consistent_enq consistent_remove)

lemma consistent_run: "consistent q \<Longrightarrow> consistent (run_ops enq remove q os)"
  by (induction os arbitrary: q) (simp_all add: consistent_op)

lemma pushed_Cons: "pushed (x # os) = pushed [x] @ pushed os"
  by (cases x) simp_all

lemma run_contents:
  assumes "consistent q"
  shows "\<exists>k \<le> length (contents q @ pushed os).
    contents (run_ops enq remove q os) = drop k (contents q @ pushed os)"
  using assms
proof (induction os arbitrary: q)
  case (Cons x os)
  let ?q = "run_op enq remove q x"
  obtain j where j: "j \<le> length (contents q)" "contents ?q = drop j (contents q) @ pushed [x]"
    using op_contents [OF Cons.prems] by blast
  obtain i where i: "i \<le> length (contents ?q @ pushed os)"
      "contents (run_ops enq remove ?q os) = drop i (contents ?q @ pushed os)"
    using Cons.IH [OF consistent_op [OF Cons.prems]] by blast
  have "contents ?q @ pushed os = drop j (contents q @ pushed (x # os))"
    using j by (simp add: pushed_Cons [of x os])
  with i j(1) have "contents (run_ops enq remove ?q os) = drop (i + j) (contents q @ pushed (x # os))"
    "i + j \<le> length (contents q @ pushed (x # os))" by auto
  then show ?case by (intro exI [of _ "i + j"]) simp
qed auto

text \<open>First in, first out: what is queued keeps the order in which it was pushed.\<close>

lemma run_suffix:
  "consistent q \<Longrightarrow> suffix (contents (run_ops enq remove q os)) (contents q @ pushed os)"
  using run_contents suffix_drop by metis

end

text \<open>A queue that also counts what it evicts, with a counter that wraps at 64 bits.\<close>

locale counting_queue = evicting_queue +
  fixes evicted :: "'a \<Rightarrow> u64"
  assumes enq_evicted:
      "consistent q \<Longrightarrow>
         of_nat (length (contents (enq q b))) + evicted (enq q b) =
         of_nat (length (contents q)) + 1 + evicted q"
    and remove_evicted: "evicted (fst (remove q b)) = evicted q"
begin

lemma remove_length:
  "of_nat (length (contents (fst (remove q b)))) + of_nat (if snd (remove q b) then 1 else 0) =
   (of_nat (length (contents q)) :: u64)"
proof -
  have "length (contents (fst (remove q b))) + (if snd (remove q b) then 1 else 0) = length (contents q)"
    by (auto simp: remove_drop remove_result)
  then show ?thesis by (metis of_nat_add)
qed

text \<open>Nothing disappears uncounted: pushed batches are queued, popped or counted as evicted.\<close>

lemma run_accounting:
  assumes "consistent q"
  shows "of_nat (length (contents (run_ops enq remove q os))) + evicted (run_ops enq remove q os)
      + of_nat (pops_done enq remove q os) =
    of_nat (length (contents q)) + evicted q + of_nat (length (pushed os))"
  using assms
proof (induction os arbitrary: q)
  case (Cons x os)
  show ?case
  proof (cases x)
    case (Push b)
    with Cons.IH [OF consistent_enq [OF Cons.prems], of b] enq_evicted [OF Cons.prems, of b]
    show ?thesis by (simp add: algebra_simps)
  next
    case (Pop b)
    with Cons.IH [OF consistent_remove [OF Cons.prems], of b] remove_length [of q b]
    show ?thesis by (simp add: remove_evicted algebra_simps)
  qed
qed simp

end

end
