(* ===== verification/Retry_Queue.thy ===== *)
theory Retry_Queue
  imports Write_Stats Queue_Interface
begin

text \<open>
  \<open>huginn-influx/src/queue.rs\<close>: the bounded queue of rendered batches between the batcher and the
  writer, with drop-oldest eviction and removal by identity. A batch is an \<open>Arc<str>\<close>: its text and
  the allocation it points to, which is what \<open>Arc::ptr_eq\<close> compares. Lengths are \<open>usize\<close> values of
  memory the process holds, so they are natural numbers here; the published counters wrap at 64 bits.

  The queue is an instance of the interface \<open>counting_queue\<close>, which is what the two tasks on either side
  rely on.
\<close>

section \<open>The queue\<close>

record batch =
  bt_ptr :: nat
  bt_text :: rstr

definition batch_len :: "batch \<Rightarrow> nat" where
  "batch_len b = byte_len (bt_text b)"

definition ptr_eq :: "batch \<Rightarrow> batch \<Rightarrow> bool" where
  "ptr_eq a b \<longleftrightarrow> bt_ptr a = bt_ptr b"

record retry_queue =
  rq_batches :: "batch list"
  rq_bytes :: nat
  rq_capacity_bytes :: nat
  rq_closed :: bool
  rq_stats :: write_stats

definition new_queue :: "nat \<Rightarrow> write_stats \<Rightarrow> retry_queue" where
  "new_queue capacity stats =
     \<lparr>rq_batches = [], rq_bytes = 0, rq_capacity_bytes = capacity, rq_closed = False, rq_stats = stats\<rparr>"

text \<open>The \<open>while\<close> loop of \<open>push\<close>: evict from the front until the new batch fits or nothing is left.\<close>

fun evict_loop :: "nat \<Rightarrow> nat \<Rightarrow> batch list \<Rightarrow> nat \<Rightarrow> write_stats \<Rightarrow> batch list \<times> nat \<times> write_stats" where
  "evict_loop capacity len [] bytes stats = ([], bytes, stats)"
| "evict_loop capacity len (old # rest) bytes stats =
     (if bytes + len > capacity
      then evict_loop capacity len rest (bytes - batch_len old)
             (record_eviction (of_nat (batch_len old)) stats)
      else (old # rest, bytes, stats))"

definition publish_depth :: "retry_queue \<Rightarrow> retry_queue" where
  "publish_depth q =
     q\<lparr>rq_stats := set_queue_depth (of_nat (length (rq_batches q))) (of_nat (rq_bytes q)) (rq_stats q)\<rparr>"

definition push :: "retry_queue \<Rightarrow> batch \<Rightarrow> retry_queue" where
  "push q b =
     (let (kept, bytes, stats) =
            evict_loop (rq_capacity_bytes q) (batch_len b) (rq_batches q) (rq_bytes q) (rq_stats q)
      in publish_depth
           (q\<lparr>rq_batches := kept @ [b], rq_bytes := bytes + batch_len b, rq_stats := stats\<rparr>))"

definition peek :: "retry_queue \<Rightarrow> batch option" where
  "peek q = (case rq_batches q of [] \<Rightarrow> None | b # _ \<Rightarrow> Some b)"

definition pop_if_front :: "retry_queue \<Rightarrow> batch \<Rightarrow> retry_queue \<times> bool" where
  "pop_if_front q written =
     (case rq_batches q of
        [] \<Rightarrow> (q, False)
      | front # rest \<Rightarrow>
          (if ptr_eq front written
           then (publish_depth (q\<lparr>rq_batches := rest, rq_bytes := rq_bytes q - batch_len front\<rparr>), True)
           else (q, False)))"

text \<open>What one poll of \<open>wait_for_batch\<close> finds: a batch, the end of the queue, or nothing yet.\<close>

datatype 'a poll = Ready 'a | Pending

definition poll_for_batch :: "retry_queue \<Rightarrow> batch option poll" where
  "poll_for_batch q =
     (case peek q of
        Some b \<Rightarrow> Ready (Some b)
      | None \<Rightarrow> if rq_closed q then Ready None else Pending)"

definition close :: "retry_queue \<Rightarrow> retry_queue" where
  "close q = q\<lparr>rq_closed := True\<rparr>"

definition queue_is_empty :: "retry_queue \<Rightarrow> bool" where
  "queue_is_empty q \<longleftrightarrow> rq_batches q = []"

definition queue_len :: "retry_queue \<Rightarrow> nat" where
  "queue_len q = length (rq_batches q)"

definition queue_held_bytes :: "retry_queue \<Rightarrow> nat" where
  "queue_held_bytes q = rq_bytes q"

definition queue_dropped_batches :: "retry_queue \<Rightarrow> u64" where
  "queue_dropped_batches q = dropped_batches (rq_stats q)"

definition queue_dropped_bytes :: "retry_queue \<Rightarrow> u64" where
  "queue_dropped_bytes q = dropped_bytes (rq_stats q)"

section \<open>Eviction\<close>

definition bytes_of :: "batch list \<Rightarrow> nat" where
  "bytes_of bs = sum_list (map batch_len bs)"

lemma bytes_of_simps [simp]:
  "bytes_of [] = 0"
  "bytes_of (b # bs) = batch_len b + bytes_of bs"
  "bytes_of (as @ bs) = bytes_of as + bytes_of bs"
  by (simp_all add: bytes_of_def)

text \<open>
  The number of batches the loop evicts: the least \<open>k\<close> such that the new batch fits behind what
  \<open>drop k\<close> leaves, or all of them.
\<close>

fun evict_count :: "nat \<Rightarrow> nat \<Rightarrow> batch list \<Rightarrow> nat" where
  "evict_count capacity len [] = 0"
| "evict_count capacity len (b # bs) =
     (if bytes_of (b # bs) + len > capacity then Suc (evict_count capacity len bs) else 0)"

lemma evict_count_le: "evict_count c n bs \<le> length bs"
  by (induction bs) auto

lemma evict_count_fits:
  "evict_count c n bs < length bs \<Longrightarrow> bytes_of (drop (evict_count c n bs) bs) + n \<le> c"
  by (induction bs) auto

lemma evict_count_least: "j < evict_count c n bs \<Longrightarrow> c < bytes_of (drop j bs) + n"
  by (induction bs arbitrary: j) (auto simp: less_Suc_eq_0_disj split: if_splits)

text \<open>The loop computes \<open>drop k\<close>, keeps the byte count exact and counts each eviction once.\<close>

definition count_evictions :: "batch list \<Rightarrow> write_stats \<Rightarrow> write_stats" where
  "count_evictions bs s = foldl (\<lambda>s b. record_eviction (of_nat (batch_len b)) s) s bs"

lemma count_evictions_simps [simp]:
  "count_evictions [] s = s"
  "count_evictions (b # bs) s = count_evictions bs (record_eviction (of_nat (batch_len b)) s)"
  by (simp_all add: count_evictions_def)

lemma evict_loop_eq:
  assumes "bytes = bytes_of bs"
  shows "evict_loop c n bs bytes s =
    (drop (evict_count c n bs) bs, bytes_of (drop (evict_count c n bs) bs),
     count_evictions (take (evict_count c n bs) bs) s)"
  using assms by (induction c n bs bytes s rule: evict_loop.induct) auto

lemma count_evictions_readings [simp]:
  "dropped_batches (count_evictions bs s) = dropped_batches s + of_nat (length bs)"
  "dropped_bytes (count_evictions bs s) = dropped_bytes s + of_nat (bytes_of bs)"
  "queue_batches (count_evictions bs s) = queue_batches s"
  "queue_bytes (count_evictions bs s) = queue_bytes s"
  "rejected_batches (count_evictions bs s) = rejected_batches s"
  "written_batches (count_evictions bs s) = written_batches s"
  "written_bytes (count_evictions bs s) = written_bytes s"
  "last_write_success_unix (count_evictions bs s) = last_write_success_unix s"
  by (induction bs arbitrary: s) (simp_all add: algebra_simps)

section \<open>The invariant\<close>

text \<open>
  The byte count is exact, the capacity is exceeded only by a single oversized batch, the batches are
  distinct allocations and the published depth is the depth of the queue.
\<close>

definition queue_wf :: "retry_queue \<Rightarrow> bool" where
  "queue_wf q \<longleftrightarrow>
     rq_bytes q = bytes_of (rq_batches q) \<and>
     (rq_bytes q \<le> rq_capacity_bytes q \<or> length (rq_batches q) \<le> 1) \<and>
     distinct (map bt_ptr (rq_batches q)) \<and>
     queue_batches (rq_stats q) = of_nat (length (rq_batches q)) \<and>
     queue_bytes (rq_stats q) = of_nat (rq_bytes q)"

definition fresh_for :: "retry_queue \<Rightarrow> batch \<Rightarrow> bool" where
  "fresh_for q b \<longleftrightarrow> bt_ptr b \<notin> bt_ptr ` set (rq_batches q)"

lemma queue_wf_bytes: "queue_wf q \<Longrightarrow> rq_bytes q = bytes_of (rq_batches q)"
  by (simp add: queue_wf_def)

definition evicted_by :: "retry_queue \<Rightarrow> batch \<Rightarrow> batch list" where
  "evicted_by q b =
     take (evict_count (rq_capacity_bytes q) (batch_len b) (rq_batches q)) (rq_batches q)"

definition kept_by :: "retry_queue \<Rightarrow> batch \<Rightarrow> batch list" where
  "kept_by q b =
     drop (evict_count (rq_capacity_bytes q) (batch_len b) (rq_batches q)) (rq_batches q)"

lemma evicted_kept: "evicted_by q b @ kept_by q b = rq_batches q"
  by (simp add: evicted_by_def kept_by_def)

lemma push_fields:
  assumes "rq_bytes q = bytes_of (rq_batches q)"
  shows "rq_batches (push q b) = kept_by q b @ [b]"
    and "rq_bytes (push q b) = bytes_of (rq_batches (push q b))"
    and "rq_capacity_bytes (push q b) = rq_capacity_bytes q"
    and "rq_closed (push q b) = rq_closed q"
    and "rq_stats (push q b) =
      set_queue_depth (of_nat (length (rq_batches (push q b)))) (of_nat (rq_bytes (push q b)))
        (count_evictions (evicted_by q b) (rq_stats q))"
  using assms
  by (simp_all add: push_def publish_depth_def evict_loop_eq kept_by_def evicted_by_def)

lemma push_wf [wf_intros]:
  assumes "queue_wf q" "fresh_for q b"
  shows "queue_wf (push q b)"
proof -
  note f = push_fields [OF queue_wf_bytes [OF assms(1)], of b]
  have dist: "distinct (map bt_ptr (rq_batches (push q b)))"
    using assms
    by (auto simp: f(1) kept_by_def queue_wf_def fresh_for_def drop_map [symmetric] dest: in_set_dropD)
  have fits: "rq_bytes (push q b) \<le> rq_capacity_bytes (push q b) \<or> length (rq_batches (push q b)) \<le> 1"
  proof (cases "kept_by q b = []")
    case False
    then show ?thesis
      using evict_count_fits [of "rq_capacity_bytes q" "batch_len b" "rq_batches q"]
      by (simp add: f(1,2,3) kept_by_def)
  qed (simp add: f(1))
  show ?thesis
    using dist fits unfolding queue_wf_def by (simp add: f(2,5))
qed

lemma pop_cases:
  obtains (front) rest written' where
      "rq_batches q = written' # rest" "ptr_eq written' written"
      "pop_if_front q written =
        (publish_depth (q\<lparr>rq_batches := rest, rq_bytes := rq_bytes q - batch_len written'\<rparr>), True)"
  | (not_front) "pop_if_front q written = (q, False)"
      "rq_batches q = [] \<or> \<not> ptr_eq (hd (rq_batches q)) written"
proof (cases "rq_batches q")
  case Nil
  then show thesis by (intro not_front) (simp_all add: pop_if_front_def)
next
  case (Cons front rest)
  show thesis
  proof (cases "ptr_eq front written")
    case True
    then show thesis using Cons by (intro that(1)) (simp_all add: pop_if_front_def)
  next
    case False
    then show thesis using Cons by (intro that(2)) (simp_all add: pop_if_front_def)
  qed
qed

lemma pop_wf [wf_intros]: "queue_wf q \<Longrightarrow> queue_wf (fst (pop_if_front q w))"
  by (cases rule: pop_cases [of q w]) (auto simp: queue_wf_def publish_depth_def)

lemma close_wf [wf_intros]: "queue_wf q \<Longrightarrow> queue_wf (close q)"
  by (auto simp: queue_wf_def close_def)

lemma new_queue_wf [wf_intros]: "queue_wf (new_queue c default_stats)"
  by (simp add: queue_wf_def new_queue_def)

lemma pop_fields:
  "rq_capacity_bytes (fst (pop_if_front q w)) = rq_capacity_bytes q"
  "rq_closed (fst (pop_if_front q w)) = rq_closed q"
  "dropped_batches (rq_stats (fst (pop_if_front q w))) = dropped_batches (rq_stats q)"
  "dropped_bytes (rq_stats (fst (pop_if_front q w))) = dropped_bytes (rq_stats q)"
  "rejected_batches (rq_stats (fst (pop_if_front q w))) = rejected_batches (rq_stats q)"
  "written_batches (rq_stats (fst (pop_if_front q w))) = written_batches (rq_stats q)"
  "written_bytes (rq_stats (fst (pop_if_front q w))) = written_bytes (rq_stats q)"
  by (cases rule: pop_cases [of q w]; simp add: publish_depth_def)+

lemma pop_batches:
  "rq_batches (fst (pop_if_front q w)) =
     (case rq_batches q of [] \<Rightarrow> [] | b # bs \<Rightarrow> if ptr_eq b w then bs else b # bs)"
  by (simp add: pop_if_front_def publish_depth_def split: list.splits)

lemma close_fields [simp]:
  "rq_batches (close q) = rq_batches q" "rq_bytes (close q) = rq_bytes q"
  "rq_capacity_bytes (close q) = rq_capacity_bytes q" "rq_stats (close q) = rq_stats q"
  "rq_closed (close q)"
  by (simp_all add: close_def)


section \<open>The queue provides the interface\<close>

definition queue_consistent :: "retry_queue \<Rightarrow> bool" where
  "queue_consistent q \<longleftrightarrow> rq_bytes q = bytes_of (rq_batches q)"

lemma queue_wf_consistent: "queue_wf q \<Longrightarrow> queue_consistent q"
  by (simp add: queue_wf_def queue_consistent_def)

lemma push_length:
  assumes "queue_consistent q"
  shows "length (rq_batches (push q b)) + length (evicted_by q b) = length (rq_batches q) + 1"
proof -
  have "rq_batches (push q b) = kept_by q b @ [b]"
    using assms push_fields(1) unfolding queue_consistent_def by blast
  moreover have "length (evicted_by q b) + length (kept_by q b) = length (rq_batches q)"
    using evicted_kept [of q b] by (metis length_append)
  ultimately show ?thesis by simp
qed

lemma push_dropped:
  "queue_consistent q \<Longrightarrow>
   dropped_batches (rq_stats (push q b)) = dropped_batches (rq_stats q) + of_nat (length (evicted_by q b))"
  unfolding queue_consistent_def by (simp add: push_fields(5))

interpretation rq: counting_queue push peek pop_if_front ptr_eq rq_batches queue_consistent
  "\<lambda>q. dropped_batches (rq_stats q)"
proof
  fix q b
  show "peek q = (case rq_batches q of [] \<Rightarrow> None | b # x \<Rightarrow> Some b)" by (simp add: peek_def)
  show "rq_batches (fst (pop_if_front q b)) =
      (case rq_batches q of [] \<Rightarrow> [] | f # fs \<Rightarrow> if ptr_eq f b then fs else f # fs)"
    by (rule pop_batches)
  show "snd (pop_if_front q b) \<longleftrightarrow> (\<exists>f fs. rq_batches q = f # fs \<and> ptr_eq f b)"
    by (simp add: pop_if_front_def split: list.splits)
  show "dropped_batches (rq_stats (fst (pop_if_front q b))) = dropped_batches (rq_stats q)"
    by (rule pop_fields)
next
  fix q b
  assume q: "queue_consistent q"
  then have bytes: "rq_bytes q = bytes_of (rq_batches q)" by (simp add: queue_consistent_def)
  show "\<exists>k \<le> length (rq_batches q). rq_batches (push q b) = drop k (rq_batches q) @ [b]"
    using push_fields(1) [OF bytes] evict_count_le unfolding kept_by_def by blast
  show "queue_consistent (push q b)"
    using push_fields(2) [OF bytes] by (simp add: queue_consistent_def)
  show "queue_consistent (fst (pop_if_front q b))"
    by (cases rule: pop_cases [of q b]) (use bytes in \<open>auto simp: queue_consistent_def publish_depth_def\<close>)
  have "of_nat (length (rq_batches (push q b)) + length (evicted_by q b)) =
      (of_nat (length (rq_batches q) + 1) :: u64)"
    by (simp only: push_length [OF q])
  then show "of_nat (length (rq_batches (push q b))) + dropped_batches (rq_stats (push q b)) =
      of_nat (length (rq_batches q)) + 1 + dropped_batches (rq_stats q)"
    by (simp add: push_dropped [OF q] algebra_simps)
qed


section \<open>Properties of the queue\<close>

text \<open>C4: The queue's invariant (exact byte count, capacity exceeded by at most one oversized batch,
  distinct allocations, published depth equal to the real depth) holds of a new queue and is kept by
  every operation that changes the queue.\<close>

theorem retry_queue_invariant:
  "queue_wf (new_queue capacity default_stats) \<and>
   (\<forall>q b. queue_wf q \<longrightarrow> fresh_for q b \<longrightarrow> queue_wf (push q b)) \<and>
   (\<forall>q w. queue_wf q \<longrightarrow> queue_wf (fst (pop_if_front q w))) \<and>
   (\<forall>q. queue_wf q \<longrightarrow> queue_wf (close q))"
  by (intro conjI allI impI wf_intros)

theorem retry_queue_invariant_witness:
  "queue_wf (push (new_queue 12 default_stats) \<lparr>bt_ptr = 0, bt_text = [97, 97]\<rparr>)"
proof -
  have "fresh_for (new_queue 12 default_stats) \<lparr>bt_ptr = 0, bt_text = [97, 97]\<rparr>"
    by (simp add: fresh_for_def new_queue_def)
  then show ?thesis using retry_queue_invariant [of 12] by blast
qed

text \<open>C15: \<open>push\<close> evicts from the front only, evicts the fewest batches that make room, never refuses the
  new batch, and counts exactly the evicted batches and bytes.\<close>

theorem push_evicts_oldest_and_fewest:
  assumes "queue_wf q"
  shows "\<exists>k \<le> length (rq_batches q).
    rq_batches (push q b) = drop k (rq_batches q) @ [b] \<and>
    (k < length (rq_batches q) \<longrightarrow>
       bytes_of (drop k (rq_batches q)) + batch_len b \<le> rq_capacity_bytes q) \<and>
    (\<forall>j < k. rq_capacity_bytes q < bytes_of (drop j (rq_batches q)) + batch_len b) \<and>
    dropped_batches (rq_stats (push q b)) = dropped_batches (rq_stats q) + of_nat k \<and>
    dropped_bytes (rq_stats (push q b)) =
      dropped_bytes (rq_stats q) + of_nat (bytes_of (take k (rq_batches q)))"
proof -
  let ?k = "evict_count (rq_capacity_bytes q) (batch_len b) (rq_batches q)"
  note f = push_fields [OF queue_wf_bytes [OF assms], of b]
  have "length (take ?k (rq_batches q)) = ?k" using evict_count_le by simp
  then show ?thesis
    using evict_count_fits evict_count_least
    by (intro exI [of _ ?k]) (simp add: f(1,5) kept_by_def evicted_by_def evict_count_le)
qed

theorem push_evicts_oldest_and_fewest_witness:
  "\<exists>k \<le> length (rq_batches (new_queue 4 default_stats)).
    rq_batches (push (new_queue 4 default_stats) \<lparr>bt_ptr = 0, bt_text = [97]\<rparr>) =
      drop k (rq_batches (new_queue 4 default_stats)) @ [\<lparr>bt_ptr = 0, bt_text = [97]\<rparr>]"
  using push_evicts_oldest_and_fewest [OF new_queue_wf [of 4], of "\<lparr>bt_ptr = 0, bt_text = [97]\<rparr>"]
  by blast

text \<open>C28: After any sequence of pushes and identity pops on a new queue, the queue holds the newest
  part of everything pushed, in push order: a refinement of the abstract first-in first-out queue
  that may only forget from the front.\<close>

theorem queue_keeps_newest_in_order:
  "\<exists>k \<le> length (pushed ops).
     rq_batches (run_ops push pop_if_front (new_queue capacity stats) ops) = drop k (pushed ops)"
  using rq.run_contents [of "new_queue capacity stats" ops]
  by (simp add: queue_consistent_def new_queue_def)

text \<open>Every batch ever pushed is queued, was removed by a successful pop, or is counted in
  \<open>dropped_batches\<close>: nothing is lost without being counted (counters modulo \<open>2 ^ 64\<close>).\<close>

lemma every_batch_accounted_for:
  fixes capacity ops
  defines "q \<equiv> run_ops push pop_if_front (new_queue capacity default_stats) ops"
  shows "of_nat (length (pushed ops)) =
    of_nat (queue_len q) + queue_dropped_batches q
      + of_nat (pops_done push pop_if_front (new_queue capacity default_stats) ops)"
  using rq.run_accounting [of "new_queue capacity default_stats" ops]
  by (simp add: q_def queue_len_def queue_dropped_batches_def queue_consistent_def new_queue_def)

text \<open>\<open>pop_if_front\<close> removes a batch exactly when the front of the queue is the very allocation
  it was given; otherwise the queue, its counters and its published depth are unchanged, so an
  unwritten batch that moved to the front survives.\<close>

lemma pop_if_front_only_the_written_batch:
  "pop_if_front q w =
     (case rq_batches q of
        [] \<Rightarrow> (q, False)
      | f # fs \<Rightarrow> if bt_ptr f = bt_ptr w then (fst (pop_if_front q w), True) else (q, False)) \<and>
   (\<forall>b \<in> set (rq_batches q). bt_ptr b \<noteq> bt_ptr w \<longrightarrow>
      b \<in> set (rq_batches (fst (pop_if_front q w))))"
  using rq.remove_keeps_others [of _ q w]
  by (auto simp: pop_if_front_def ptr_eq_def split: list.splits)

end
