(* ===== verification/Transition_Systems.thy ===== *)
theory Transition_Systems
  imports Huginn_Prelude
begin

text \<open>
  The contract between a state machine of the program and an invariant of it, stated once: what holds
  initially and is kept by every step holds in every reachable state; and where a weight drops with
  every step, a run is no longer than the weight it starts with. The tasks and the accept loop of the
  other theories are interpretations.
\<close>

inductive reachable_from :: "('s \<Rightarrow> bool) \<Rightarrow> ('s \<Rightarrow> 's \<Rightarrow> bool) \<Rightarrow> 's \<Rightarrow> bool" for init step where
  reach_init: "init s \<Longrightarrow> reachable_from init step s"
| reach_step: "reachable_from init step s \<Longrightarrow> step s t \<Longrightarrow> reachable_from init step t"

locale invariant_system =
  fixes init :: "'s \<Rightarrow> bool"
    and step :: "'s \<Rightarrow> 's \<Rightarrow> bool"
    and inv :: "'s \<Rightarrow> bool"
  assumes inv_init: "init s \<Longrightarrow> inv s"
    and inv_step: "step s t \<Longrightarrow> inv s \<Longrightarrow> inv t"
begin

lemma inv_reachable: "reachable_from init step s \<Longrightarrow> inv s"
  by (induction rule: reachable_from.induct) (auto intro: inv_init inv_step)

lemma inv_run: "(step ^^ n) s t \<Longrightarrow> inv s \<Longrightarrow> inv t"
  by (induction n arbitrary: t) (auto intro: inv_step)

end

text \<open>A system whose steps use something up.\<close>

locale consuming_system = invariant_system +
  fixes weight :: "'a \<Rightarrow> nat"
  assumes weight_step: "step s t \<Longrightarrow> inv s \<Longrightarrow> weight t < weight s"
begin

lemma run_bounded: "(step ^^ n) s t \<Longrightarrow> inv s \<Longrightarrow> n + weight t \<le> weight s"
proof (induction n arbitrary: t)
  case (Suc n)
  then obtain u where u: "(step ^^ n) s u" "step u t" by auto
  with Suc.IH [OF u(1) Suc.prems(2)] weight_step [OF u(2) inv_run [OF u(1) Suc.prems(2)]]
  show ?case by simp
qed simp

lemma no_long_run: "inv s \<Longrightarrow> weight s < n \<Longrightarrow> \<not> (step ^^ n) s t"
  using run_bounded by fastforce

end

end
