(* ===== verification/Queue_Wait.thy ===== *)
theory Queue_Wait
  imports Retry_Queue Transition_Systems
begin

text \<open>
  The waiting side of \<open>huginn-influx/src/queue.rs\<close>: \<open>push\<close> and \<open>close\<close> with the wake-ups they end in,
  and \<open>wait_for_batch\<close> as the interleaved program it is, one step per statement. Tokio's \<open>Notify\<close> is
  not part of the repository: its operations are a parameter and what its documentation promises is
  the predicate \<open>notify_laws\<close>. The result is that no wake-up is lost: a writer that sleeps while a
  batch is queued or the queue is closed can always be woken.
\<close>

record 'n notify_ops =
  nt_notify_one :: "'n \<Rightarrow> 'n"
  nt_notify_waiters :: "'n \<Rightarrow> 'n"
  nt_notified :: "'n \<Rightarrow> 'n"
  nt_drop :: "'n \<Rightarrow> 'n"
  nt_await :: "'n \<Rightarrow> 'n"
  nt_registered :: "'n \<Rightarrow> bool"
  nt_ready :: "'n \<Rightarrow> bool"

text \<open>
  The documented behaviour with one waiting task. \<open>notified\<close> creates a future that counts as a waiter
  from its creation on; \<open>notify_one\<close> completes it, or stores a permit that completes the next one;
  \<open>notify_waiters\<close> completes a future that exists and stores nothing.
\<close>

definition notify_laws :: "'n notify_ops \<Rightarrow> bool" where
  "notify_laws N \<longleftrightarrow>
     (\<forall>n. nt_ready N (nt_notify_one N n)) \<and>
     (\<forall>n. nt_registered N n \<longrightarrow> nt_ready N (nt_notify_waiters N n)) \<and>
     (\<forall>n. nt_ready N n \<longrightarrow> nt_ready N (nt_notify_waiters N n)) \<and>
     (\<forall>n. nt_ready N n \<longrightarrow> nt_ready N (nt_notified N n)) \<and>
     (\<forall>n. nt_registered N (nt_notified N n)) \<and>
     (\<forall>n. nt_registered N n \<longrightarrow> nt_registered N (nt_notify_one N n)) \<and>
     (\<forall>n. nt_registered N n \<longrightarrow> nt_registered N (nt_notify_waiters N n))"

text \<open>The statements of \<open>wait_for_batch\<close> and of the task that pushes and closes.\<close>

datatype wait_pc =
    FirstPeek | FirstClosedCheck | Register | SecondPeek | SecondClosedCheck | Awaiting
  | Returned "batch option"

datatype producer_pc = Running | AfterPush | AfterClose | Finished

record 'n wait_state =
  wt_queue :: retry_queue
  wt_notify :: 'n
  wt_pc :: wait_pc
  wt_producer :: producer_pc

inductive wait_step :: "'n notify_ops \<Rightarrow> 'n wait_state \<Rightarrow> 'n wait_state \<Rightarrow> bool" for N where
  first_peek_some:
    "wt_pc s = FirstPeek \<Longrightarrow> peek (wt_queue s) = Some b \<Longrightarrow>
     wait_step N s (s\<lparr>wt_pc := Returned (Some b)\<rparr>)"
| first_peek_none:
    "wt_pc s = FirstPeek \<Longrightarrow> peek (wt_queue s) = None \<Longrightarrow>
     wait_step N s (s\<lparr>wt_pc := FirstClosedCheck\<rparr>)"
| first_closed:
    "wt_pc s = FirstClosedCheck \<Longrightarrow> rq_closed (wt_queue s) \<Longrightarrow>
     wait_step N s (s\<lparr>wt_pc := Returned None\<rparr>)"
| first_open:
    "wt_pc s = FirstClosedCheck \<Longrightarrow> \<not> rq_closed (wt_queue s) \<Longrightarrow>
     wait_step N s (s\<lparr>wt_pc := Register\<rparr>)"
| register:
    "wt_pc s = Register \<Longrightarrow>
     wait_step N s (s\<lparr>wt_notify := nt_notified N (wt_notify s), wt_pc := SecondPeek\<rparr>)"
| second_peek_some:
    "wt_pc s = SecondPeek \<Longrightarrow> peek (wt_queue s) = Some b \<Longrightarrow>
     wait_step N s (s\<lparr>wt_notify := nt_drop N (wt_notify s), wt_pc := Returned (Some b)\<rparr>)"
| second_peek_none:
    "wt_pc s = SecondPeek \<Longrightarrow> peek (wt_queue s) = None \<Longrightarrow>
     wait_step N s (s\<lparr>wt_pc := SecondClosedCheck\<rparr>)"
| second_closed:
    "wt_pc s = SecondClosedCheck \<Longrightarrow> rq_closed (wt_queue s) \<Longrightarrow>
     wait_step N s (s\<lparr>wt_notify := nt_drop N (wt_notify s), wt_pc := Returned None\<rparr>)"
| second_open:
    "wt_pc s = SecondClosedCheck \<Longrightarrow> \<not> rq_closed (wt_queue s) \<Longrightarrow>
     wait_step N s (s\<lparr>wt_pc := Awaiting\<rparr>)"
| woken:
    "wt_pc s = Awaiting \<Longrightarrow> nt_ready N (wt_notify s) \<Longrightarrow>
     wait_step N s (s\<lparr>wt_notify := nt_await N (wt_notify s), wt_pc := FirstPeek\<rparr>)"
| push_locked:
    "wt_producer s = Running \<Longrightarrow>
     wait_step N s (s\<lparr>wt_queue := push (wt_queue s) b, wt_producer := AfterPush\<rparr>)"
| push_notify:
    "wt_producer s = AfterPush \<Longrightarrow>
     wait_step N s (s\<lparr>wt_notify := nt_notify_one N (wt_notify s), wt_producer := Running\<rparr>)"
| close_store:
    "wt_producer s = Running \<Longrightarrow>
     wait_step N s (s\<lparr>wt_queue := close (wt_queue s), wt_producer := AfterClose\<rparr>)"
| close_notify:
    "wt_producer s = AfterClose \<Longrightarrow>
     wait_step N s (s\<lparr>wt_notify := nt_notify_waiters N (wt_notify s), wt_producer := Finished\<rparr>)"

definition wait_start :: "nat \<Rightarrow> write_stats \<Rightarrow> 'n \<Rightarrow> 'n wait_state" where
  "wait_start capacity stats n =
     \<lparr>wt_queue = new_queue capacity stats, wt_notify = n, wt_pc = FirstPeek, wt_producer = Running\<rparr>"

definition wait_initial :: "'n wait_state \<Rightarrow> bool" where
  "wait_initial s \<longleftrightarrow> (\<exists>capacity stats n. s = wait_start capacity stats n)"

abbreviation wait_reachable :: "'n notify_ops \<Rightarrow> 'n wait_state \<Rightarrow> bool" where
  "wait_reachable N \<equiv> reachable_from wait_initial (wait_step N)"

inductive_cases wait_stepE: "wait_step N s t"

section \<open>No wake-up is lost\<close>

text \<open>
  The invariant. While the future exists it is registered. Once the second peek found the queue empty,
  a batch in it means that the wake-up arrived or is about to be sent; the same for the flag once the
  second check found it unset.
\<close>

definition wait_inv :: "'n notify_ops \<Rightarrow> 'n wait_state \<Rightarrow> bool" where
  "wait_inv N s \<longleftrightarrow>
     (wt_pc s \<in> {SecondPeek, SecondClosedCheck, Awaiting} \<longrightarrow> nt_registered N (wt_notify s)) \<and>
     (wt_pc s \<in> {SecondClosedCheck, Awaiting} \<longrightarrow> rq_batches (wt_queue s) \<noteq> [] \<longrightarrow>
        nt_ready N (wt_notify s) \<or> wt_producer s = AfterPush) \<and>
     (wt_pc s = Awaiting \<longrightarrow> rq_closed (wt_queue s) \<longrightarrow>
        nt_ready N (wt_notify s) \<or> wt_producer s = AfterClose) \<and>
     (rq_closed (wt_queue s) \<longleftrightarrow> wt_producer s \<in> {AfterClose, Finished})"

lemma peek_None_iff: "peek q = None \<longleftrightarrow> rq_batches q = []"
  by (simp add: peek_def split: list.splits)

lemma push_closed [simp]: "rq_closed (push q b) = rq_closed q"
  by (simp add: push_def publish_depth_def Let_def split: prod.splits)

lemma notify_lawsD:
  assumes "notify_laws N"
  shows "nt_ready N (nt_notify_one N n)"
    and "nt_registered N n \<Longrightarrow> nt_ready N (nt_notify_waiters N n)"
    and "nt_ready N n \<Longrightarrow> nt_ready N (nt_notify_waiters N n)"
    and "nt_ready N n \<Longrightarrow> nt_ready N (nt_notified N n)"
    and "nt_registered N (nt_notified N n)"
    and "nt_registered N n \<Longrightarrow> nt_registered N (nt_notify_one N n)"
    and "nt_registered N n \<Longrightarrow> nt_registered N (nt_notify_waiters N n)"
  using assms by (simp_all add: notify_laws_def)

lemma wait_inv_start: "wait_inv N (wait_start capacity stats n)"
  by (simp add: wait_inv_def wait_start_def new_queue_def)

lemma wait_inv_step:
  assumes "notify_laws N" "wait_step N s t" "wait_inv N s"
  shows "wait_inv N t"
proof -
  note laws = notify_lawsD [OF assms(1)]
  show ?thesis
    using assms(2,3)
  proof (induction rule: wait_step.induct)
    case (push_locked s b)
    then show ?case by (simp add: wait_inv_def laws)
  next
    case (push_notify s)
    then show ?case by (simp add: wait_inv_def laws)
  next
    case (close_store s)
    then show ?case by (auto simp: wait_inv_def laws)
  next
    case (close_notify s)
    then show ?case by (auto simp: wait_inv_def laws)
  qed (simp_all add: wait_inv_def peek_None_iff laws)
qed

interpretation waiting: invariant_system wait_initial "wait_step N" "\<lambda>s. notify_laws N \<longrightarrow> wait_inv N s" for N
proof
  show "wait_initial s \<Longrightarrow> notify_laws N \<longrightarrow> wait_inv N s" for s by (auto simp: wait_initial_def wait_inv_start)
qed (blast intro: wait_inv_step)

text \<open>A concrete \<open>Notify\<close> for one task: whether a future exists and whether a permit does.\<close>

definition flag_notify :: "(bool \<times> bool) notify_ops" where
  "flag_notify =
     \<lparr>nt_notify_one = (\<lambda>(f, p). (f, True)), nt_notify_waiters = (\<lambda>(f, p). (f, p \<or> f)),
      nt_notified = (\<lambda>(f, p). (True, p)), nt_drop = (\<lambda>(f, p). (False, p)),
      nt_await = (\<lambda>(f, p). (False, False)), nt_registered = fst, nt_ready = snd\<rparr>"

lemma flag_notify_laws: "notify_laws flag_notify"
  by (simp add: notify_laws_def flag_notify_def)

text \<open>C5: No lost wake-up. In every reachable state in which the writer sleeps although a batch is
  queued or the queue is closed, either the wake-up has arrived, so the writer's next step is enabled,
  or the producer's next statement is the very call that sends it.\<close>

theorem no_lost_wakeup:
  assumes "notify_laws N" "wait_reachable N s" "wt_pc s = Awaiting"
    and "rq_batches (wt_queue s) \<noteq> [] \<or> rq_closed (wt_queue s)"
  shows "wait_step N s (s\<lparr>wt_notify := nt_await N (wt_notify s), wt_pc := FirstPeek\<rparr>) \<or>
    (wt_producer s = AfterPush \<and> nt_ready N (nt_notify_one N (wt_notify s))) \<or>
    (wt_producer s = AfterClose \<and> nt_ready N (nt_notify_waiters N (wt_notify s)))"
proof (cases "nt_ready N (wt_notify s)")
  case True
  then have "wait_step N s (s\<lparr>wt_notify := nt_await N (wt_notify s), wt_pc := FirstPeek\<rparr>)"
    by (rule wait_step.woken [OF assms(3)])
  then show ?thesis ..
next
  case False
  have inv: "wait_inv N s" using waiting.inv_reachable [OF assms(2)] assms(1) by blast
  have "wt_pc s \<in> {SecondPeek, SecondClosedCheck, Awaiting}" "wt_pc s \<in> {SecondClosedCheck, Awaiting}"
    using assms(3) by simp_all
  then have reg: "nt_registered N (wt_notify s)"
    and queued: "rq_batches (wt_queue s) \<noteq> [] \<longrightarrow> wt_producer s = AfterPush"
    and closed: "rq_closed (wt_queue s) \<longrightarrow> wt_producer s = AfterClose"
    using inv assms(3) False unfolding wait_inv_def by blast+
  from queued closed assms(4) have prod: "wt_producer s = AfterPush \<or> wt_producer s = AfterClose"
    by blast
  show ?thesis
  proof (rule disjE [OF prod])
    assume "wt_producer s = AfterPush"
    then show ?thesis by (intro disjI2 disjI1 conjI notify_lawsD(1) [OF assms(1)])
  next
    assume "wt_producer s = AfterClose"
    then show ?thesis by (intro disjI2 conjI notify_lawsD(2) [OF assms(1) reg])
  qed
qed

text \<open>A run that puts the writer to sleep before a push wakes it: the state just after the push.\<close>

definition sample_batch :: batch where
  "sample_batch = \<lparr>bt_ptr = 0, bt_text = [97]\<rparr>"

lemma sleeping_state_reachable:
  defines "q \<equiv> new_queue 8 default_stats"
  shows "wait_reachable flag_notify
    \<lparr>wt_queue = push q sample_batch, wt_notify = (True, False), wt_pc = Awaiting, wt_producer = AfterPush\<rparr>"
    (is "wait_reachable _ ?last")
proof -
  let ?s = "\<lambda>pc n. \<lparr>wt_queue = q, wt_notify = (n, False), wt_pc = pc, wt_producer = Running\<rparr>"
  have empty: "peek q = None" "\<not> rq_closed q" by (simp_all add: q_def peek_def new_queue_def)
  have "wait_reachable flag_notify (?s FirstPeek False)"
    by (rule reach_init) (auto simp: wait_initial_def wait_start_def q_def)
  moreover have "wait_step flag_notify (?s FirstPeek False) (?s FirstClosedCheck False)"
    using wait_step.first_peek_none [of "?s FirstPeek False" flag_notify] empty by simp
  moreover have "wait_step flag_notify (?s FirstClosedCheck False) (?s Register False)"
    using wait_step.first_open [of "?s FirstClosedCheck False" flag_notify] empty by simp
  moreover have "wait_step flag_notify (?s Register False) (?s SecondPeek True)"
    using wait_step.register [of "?s Register False" flag_notify] by (simp add: flag_notify_def)
  moreover have "wait_step flag_notify (?s SecondPeek True) (?s SecondClosedCheck True)"
    using wait_step.second_peek_none [of "?s SecondPeek True" flag_notify] empty by simp
  moreover have "wait_step flag_notify (?s SecondClosedCheck True) (?s Awaiting True)"
    using wait_step.second_open [of "?s SecondClosedCheck True" flag_notify] empty by simp
  moreover have "wait_step flag_notify (?s Awaiting True) ?last"
    using wait_step.push_locked [of "?s Awaiting True" flag_notify sample_batch] by simp
  ultimately show ?thesis by (meson reach_step)
qed

theorem no_lost_wakeup_witness:
  "let s = \<lparr>wt_queue = push (new_queue 8 default_stats) sample_batch, wt_notify = (True, False),
            wt_pc = Awaiting, wt_producer = AfterPush\<rparr>
   in wait_step flag_notify s (s\<lparr>wt_notify := nt_await flag_notify (wt_notify s), wt_pc := FirstPeek\<rparr>) \<or>
      (wt_producer s = AfterPush \<and> nt_ready flag_notify (nt_notify_one flag_notify (wt_notify s))) \<or>
      (wt_producer s = AfterClose \<and> nt_ready flag_notify (nt_notify_waiters flag_notify (wt_notify s)))"
proof -
  have "rq_batches (push (new_queue 8 default_stats) sample_batch) \<noteq> []"
    by (simp add: push_def publish_depth_def new_queue_def sample_batch_def)
  then show ?thesis
    unfolding Let_def
    by (intro no_lost_wakeup [OF flag_notify_laws sleeping_state_reachable]) simp_all
qed

end
