(* ===== verification/Rust_Float.thy ===== *)
theory Rust_Float
  imports Rust_Text
begin

text \<open>
  Rust's \<open>f64\<close>: a NaN, two infinities, and signed magnitudes that are rational numbers. Integer
  conversion and division round to the nearest double, ties to even, with the exponent range of the
  binary64 format. \<open>fmt_fixed\<close> is \<open>{:.k}\<close> and \<open>show_f64\<close> is \<open>{}\<close>: the shortest decimal that
  reads back as the same double. The lemmas say that rounding stays within a factor of two of its
  argument (so no sign is lost) and is exact on integers up to \<open>2 ^ 53\<close>.
\<close>

datatype f64 = NaN | Inf bool | Fin bool rat

definition f64_val :: "f64 \<Rightarrow> rat" where
  "f64_val x = (case x of Fin s r \<Rightarrow> if s then - r else r | _ \<Rightarrow> 0)"

definition f64_zero :: f64 where "f64_zero = Fin False 0"

fun is_finite :: "f64 \<Rightarrow> bool" where
  "is_finite (Fin s r) = True"
| "is_finite x = False"

fun f64_lt :: "f64 \<Rightarrow> f64 \<Rightarrow> bool" where
  "f64_lt NaN y = False"
| "f64_lt x NaN = False"
| "f64_lt (Inf s) (Inf t) = (s \<and> \<not> t)"
| "f64_lt (Inf s) (Fin t q) = s"
| "f64_lt (Fin s r) (Inf t) = (\<not> t)"
| "f64_lt (Fin s r) (Fin t q) = (f64_val (Fin s r) < f64_val (Fin t q))"

fun f64_neg :: "f64 \<Rightarrow> f64" where
  "f64_neg NaN = NaN"
| "f64_neg (Inf s) = Inf (\<not> s)"
| "f64_neg (Fin s r) = Fin (\<not> s) r"

section \<open>Rounding\<close>

text \<open>
  Rust's operators on \<open>f64\<close> as the library's classes: the literal, the sign and the comparisons. The order
  is that of \<open>PartialOrd\<close>: a NaN compares with nothing, and the two zeros are alike.
\<close>

instantiation f64 :: "{zero, uminus, ord}"
begin

definition zero_f64_def: "0 = f64_zero"

definition uminus_f64_def: "- x = f64_neg x"

definition less_f64_def: "x < y \<longleftrightarrow> f64_lt x y"

definition less_eq_f64_def: "x \<le> y \<longleftrightarrow> f64_lt x y \<or> (x \<noteq> NaN \<and> y \<noteq> NaN \<and> \<not> f64_lt y x)"

instance ..

end

lemmas f64_operators = zero_f64_def uminus_f64_def less_f64_def

declare f64_operators [simp]

definition round_half_even :: "rat \<Rightarrow> int" where
  "round_half_even r =
     (let n = \<lfloor>r\<rfloor>; d = r - of_int n
      in if d < 1 / 2 \<or> (d = 1 / 2 \<and> even n) then n else n + 1)"

definition pow2 :: "int \<Rightarrow> rat" where
  "pow2 e = (if 0 \<le> e then 2 ^ nat e else 1 / 2 ^ nat (- e))"

text \<open>\<open>binade r\<close> is the exponent of the largest power of two that is at most \<open>r\<close>.\<close>

function log2_int :: "int \<Rightarrow> int" where
  "log2_int i = (if i < 2 then 0 else 1 + log2_int (i div 2))"
  by pat_completeness auto
termination
  by (relation "measure nat") (auto simp: nat_less_eq_zless)

declare log2_int.simps [simp del]

definition binade :: "rat \<Rightarrow> int" where
  "binade r =
     (let (p, q) = quotient_of r;
          e = log2_int p - log2_int q
      in if r < pow2 e then e - 1 else e)"

definition ulp_exponent :: "rat \<Rightarrow> int" where
  "ulp_exponent r = max (binade r - 52) (- 1074)"

definition f64_round :: "bool \<Rightarrow> rat \<Rightarrow> f64" where
  "f64_round s r =
     (if r = 0 then Fin s 0
      else let u = pow2 (ulp_exponent r); m = of_int (round_half_even (r / u)) * u
           in if 2 ^ 1024 \<le> m then Inf s else Fin s m)"

definition f64_of_int :: "int \<Rightarrow> f64" where
  "f64_of_int i = f64_round (i < 0) (of_int \<bar>i\<bar>)"

definition f64_of_nat :: "nat \<Rightarrow> f64" where
  "f64_of_nat n = f64_of_int (int n)"

fun f64_div :: "f64 \<Rightarrow> f64 \<Rightarrow> f64" where
  "f64_div NaN y = NaN"
| "f64_div x NaN = NaN"
| "f64_div (Inf s) (Inf t) = NaN"
| "f64_div (Inf s) (Fin t q) = Inf (s \<noteq> t)"
| "f64_div (Fin s r) (Inf t) = Fin (s \<noteq> t) 0"
| "f64_div (Fin s r) (Fin t q) =
     (if q = 0 then (if r = 0 then NaN else Inf (s \<noteq> t)) else f64_round (s \<noteq> t) (r / q))"

fun f64_mul :: "f64 \<Rightarrow> f64 \<Rightarrow> f64" where
  "f64_mul NaN y = NaN"
| "f64_mul x NaN = NaN"
| "f64_mul (Inf s) (Inf t) = Inf (s \<noteq> t)"
| "f64_mul (Inf s) (Fin t q) = (if q = 0 then NaN else Inf (s \<noteq> t))"
| "f64_mul (Fin s r) (Inf t) = (if r = 0 then NaN else Inf (s \<noteq> t))"
| "f64_mul (Fin s r) (Fin t q) = f64_round (s \<noteq> t) (r * q)"

fun f64_add :: "f64 \<Rightarrow> f64 \<Rightarrow> f64" where
  "f64_add NaN y = NaN"
| "f64_add x NaN = NaN"
| "f64_add (Inf s) (Inf t) = (if s = t then Inf s else NaN)"
| "f64_add (Inf s) (Fin t q) = Inf s"
| "f64_add (Fin s r) (Inf t) = Inf t"
| "f64_add (Fin s r) (Fin t q) =
     (let v = f64_val (Fin s r) + f64_val (Fin t q)
      in if v = 0 then Fin (s \<and> t) 0 else f64_round (v < 0) \<bar>v\<bar>)"

section \<open>Printing\<close>

definition sign_text :: "bool \<Rightarrow> rstr" where
  "sign_text s = (if s then [45] else [])"

text \<open>\<open>{:.k}\<close> for \<open>k\<close> at least one: the decimal with \<open>k\<close> digits after the point.\<close>

definition fmt_fixed :: "nat \<Rightarrow> f64 \<Rightarrow> rstr" where
  "fmt_fixed k x =
     (case x of
        NaN \<Rightarrow> lit ''NaN''
      | Inf s \<Rightarrow> sign_text s @ lit ''inf''
      | Fin s r \<Rightarrow>
          (let n = round_half_even (r * 10 ^ k)
           in sign_text s @ show_uint (n div 10 ^ k) @ [46] @ pad_zeros k (show_uint (n mod 10 ^ k))))"

text \<open>
  \<open>{}\<close>. For \<open>n = 1, 2, \<dots>\<close> significant digits the two \<open>n\<close>-digit decimals around \<open>r\<close> are tried;
  the first \<open>n\<close> for which one of them rounds to \<open>r\<close> wins, the nearer one if both do. Seventeen
  digits always identify a double; the result is a natural number and a power of ten.
\<close>

definition pow10 :: "int \<Rightarrow> rat" where
  "pow10 e = (if 0 \<le> e then 10 ^ nat e else 1 / 10 ^ nat (- e))"

fun decade_up :: "nat \<Rightarrow> int \<Rightarrow> rat \<Rightarrow> int" where
  "decade_up 0 k r = k"
| "decade_up (Suc fuel) k r = (if pow10 k \<le> r then decade_up fuel (k + 1) r else k)"

text \<open>\<open>decade r\<close> is the least \<open>k\<close> with \<open>r < 10 ^ k\<close>; doubles lie between \<open>10 ^ -324\<close> and \<open>10 ^ 309\<close>.\<close>

definition decade :: "rat \<Rightarrow> int" where
  "decade r = (if 1 \<le> r then decade_up 310 1 r else decade_up 330 (- 324) r)"

definition reads_as :: "rat \<Rightarrow> int \<Rightarrow> int \<Rightarrow> bool" where
  "reads_as r d e \<longleftrightarrow> f64_round False (of_int d * pow10 e) = Fin False r"

fun shortest_from :: "nat \<Rightarrow> int \<Rightarrow> rat \<Rightarrow> int \<Rightarrow> int \<times> int" where
  "shortest_from 0 n r k = (\<lfloor>r * pow10 (n - k)\<rfloor>, k - n)"
| "shortest_from (Suc fuel) n r k =
     (let x = r * pow10 (n - k); lo = \<lfloor>x\<rfloor>; e = k - n; up = reads_as r (lo + 1) e; down = reads_as r lo e
      in if up \<and> (\<not> down \<or> 1 / 2 \<le> x - of_int lo) then (lo + 1, e)
         else if down then (lo, e)
         else shortest_from fuel (n + 1) r k)"

fun strip_zeros :: "nat \<Rightarrow> int \<Rightarrow> int \<Rightarrow> int \<times> int" where
  "strip_zeros 0 n e = (n, e)"
| "strip_zeros (Suc fuel) n e = (if n mod 10 = 0 then strip_zeros fuel (n div 10) (e + 1) else (n, e))"

definition show_decimal :: "int \<Rightarrow> int \<Rightarrow> rstr" where
  "show_decimal n e =
     (if 0 \<le> e then show_uint (n * 10 ^ nat e)
      else let k = nat (- e)
           in show_uint (n div 10 ^ k) @ [46] @ pad_zeros k (show_uint (n mod 10 ^ k)))"

definition show_f64 :: "f64 \<Rightarrow> rstr" where
  "show_f64 x =
     (case x of
        NaN \<Rightarrow> lit ''NaN''
      | Inf s \<Rightarrow> sign_text s @ lit ''inf''
      | Fin s r \<Rightarrow>
          sign_text s @
          (if r = 0 then [48]
           else let (d, e) = shortest_from 17 1 r (decade r); (n, f) = strip_zeros 20 d e
                in show_decimal n f))"

section \<open>Rounding keeps the sign and the order of magnitude\<close>

lemma pow2_pos [simp]: "0 < pow2 e"
  by (simp add: pow2_def)

lemma pow2_nonzero [simp]: "pow2 e \<noteq> 0"
  using pow2_pos [of e] by linarith

lemma pow2_eq_powi: "pow2 e = 2 powi e"
  by (simp add: pow2_def power_int_def power_one_over)

lemma pow2_add: "pow2 (a + b) = pow2 a * pow2 b"
  by (simp add: pow2_eq_powi power_int_add)

lemma pow2_nat: "pow2 (int n) = 2 ^ n"
  by (simp add: pow2_def)

lemma pow2_mono: "a \<le> b \<Longrightarrow> pow2 a \<le> pow2 b"
  by (simp add: pow2_eq_powi power_int_increasing)

lemma pow2_succ: "pow2 (e + 1) = 2 * pow2 e"
proof -
  have "pow2 1 = 2" by (simp add: pow2_def)
  then show ?thesis by (simp add: pow2_add)
qed

lemma log2_int_nonneg: "0 \<le> log2_int p"
  by (induction p rule: log2_int.induct) (subst log2_int.simps, simp)

lemma log2_int_bounds: "0 < p \<Longrightarrow> pow2 (log2_int p) \<le> of_int p \<and> of_int p < pow2 (log2_int p + 1)"
proof (induction p rule: log2_int.induct)
  case (1 p)
  show ?case
  proof (cases "p < 2")
    case True
    with "1.prems" have "p = 1" by simp
    then show ?thesis by (simp add: log2_int.simps pow2_def)
  next
    case False
    define h where "h = p div 2"
    have h: "2 * h \<le> p" "p < 2 * h + 2" by (simp_all add: h_def)
    obtain n where n: "log2_int h = int n" using log2_int_nonneg [of h] by (metis nonneg_int_cases)
    have IH: "pow2 (int n) \<le> of_int h" "of_int h < pow2 (int n + 1)"
      using "1.IH" False n by (simp_all add: h_def)
    have "(of_int h :: rat) < of_int (2 ^ Suc n)"
      using IH(2) pow2_nat [of "Suc n"] by (simp add: add.commute)
    then have "h < 2 ^ Suc n" by (simp only: of_int_less_iff)
    with h have "p < 2 ^ Suc (Suc n)" by simp
    then have "(of_int p :: rat) < of_int (2 ^ Suc (Suc n))" by (simp only: of_int_less_iff)
    then have "of_int p < pow2 (int n + 1 + 1)" using pow2_nat [of "Suc (Suc n)"] by simp
    moreover have "2 * of_int h \<le> (of_int p :: rat)"
      using h(1) by (metis of_int_le_iff of_int_mult of_int_numeral)
    then have "pow2 (int n + 1) \<le> of_int p" using IH(1) by (simp add: pow2_succ)
    moreover have "log2_int p = int n + 1" using False n by (simp add: log2_int.simps [of p] h_def)
    ultimately show ?thesis by simp
  qed
qed

lemma binade_bounds:
  assumes "0 < r"
  shows "pow2 (binade r) \<le> r" "r < pow2 (binade r + 1)"
proof -
  obtain p q where pq: "quotient_of r = (p, q)" by (cases "quotient_of r")
  then have q: "0 < q" and r: "r = of_int p / of_int q"
    by (simp_all add: quotient_of_denom_pos quotient_of_div)
  then have p: "0 < p" using assms by (simp add: zero_less_divide_iff)
  define a where "a = log2_int p"
  define b where "b = log2_int q"
  have a: "pow2 a \<le> of_int p" "of_int p < pow2 (a + 1)"
    using log2_int_bounds [OF p] by (simp_all add: a_def)
  have b: "pow2 b \<le> of_int q" "of_int q < pow2 (b + 1)"
    using log2_int_bounds [OF q] by (simp_all add: b_def)
  define e where "e = a - b"
  have "pow2 (e - 1) * of_int q \<le> pow2 (e - 1) * pow2 (b + 1)"
    using b(2) by (intro mult_left_mono) (simp_all add: less_imp_le)
  also have "\<dots> = pow2 a" by (simp add: pow2_add [symmetric] e_def)
  also have "\<dots> \<le> of_int p" by (rule a)
  finally have low: "pow2 (e - 1) \<le> r" using q by (simp add: r le_divide_eq)
  have "of_int p < pow2 (a + 1)" by (rule a)
  also have "\<dots> = pow2 (e + 1) * pow2 b" by (simp add: pow2_add [symmetric] e_def)
  also have "\<dots> \<le> pow2 (e + 1) * of_int q"
    using b(1) by (intro mult_left_mono) (simp_all add: less_imp_le)
  finally have high: "r < pow2 (e + 1)" using q by (simp add: r divide_less_eq)
  have "binade r = (if r < pow2 e then e - 1 else e)"
    by (simp add: binade_def pq a_def b_def e_def)
  with low high show "pow2 (binade r) \<le> r" "r < pow2 (binade r + 1)" by auto
qed

lemma round_half_even_int [simp]: "round_half_even (of_int n) = n"
  by (simp add: round_half_even_def)

lemma round_half_even_floor: "\<lfloor>r\<rfloor> \<le> round_half_even r" "round_half_even r \<le> \<lfloor>r\<rfloor> + 1"
  by (simp_all add: round_half_even_def Let_def)

lemma round_half_even_ge: "of_int n \<le> r \<Longrightarrow> n \<le> round_half_even r"
  using round_half_even_floor(1) [of r] by (simp add: le_floor_iff [symmetric])

lemma round_half_even_le: "r < of_int n \<Longrightarrow> round_half_even r \<le> n"
  using round_half_even_floor(2) [of r] by (simp add: floor_less_iff [symmetric])

lemma f64_round_normal:
  assumes "pow2 (- 1022) \<le> r" "r < 2 ^ 1023"
  shows "\<exists>m. f64_round s r = Fin s m \<and> pow2 (binade r) \<le> m \<and> m \<le> 2 * r"
proof -
  have pos: "0 < r" using assms(1) pow2_pos [of "- 1022"] by linarith
  note b = binade_bounds [OF pos]
  have "- 1022 < binade r + 1"
  proof (rule ccontr)
    assume "\<not> ?thesis"
    then have "pow2 (binade r + 1) \<le> pow2 (- 1022)" by (intro pow2_mono) simp
    with b(2) assms(1) show False by linarith
  qed
  then have u: "ulp_exponent r = binade r - 52" by (simp add: ulp_exponent_def)
  let ?u = "pow2 (binade r - 52)"
  have split: "pow2 (binade r) = 2 ^ 52 * ?u" "pow2 (binade r + 1) = 2 ^ 53 * ?u"
    using pow2_add [of 52 "binade r - 52"] pow2_add [of 53 "binade r - 52"]
      pow2_nat [of 52] pow2_nat [of 53] by (simp_all add: add.commute)
  have "of_int (2 ^ 52) \<le> r / ?u" using b(1) split(1) by (simp add: le_divide_eq)
  then have low: "2 ^ 52 \<le> round_half_even (r / ?u)" by (rule round_half_even_ge)
  have "r / ?u < of_int (2 ^ 53)" using b(2) split(2) by (simp add: divide_less_eq)
  then have high: "round_half_even (r / ?u) \<le> 2 ^ 53" by (rule round_half_even_le)
  define m where "m = of_int (round_half_even (r / ?u)) * ?u"
  have "(of_int (2 ^ 52) :: rat) \<le> of_int (round_half_even (r / ?u))"
    "(of_int (round_half_even (r / ?u)) :: rat) \<le> of_int (2 ^ 53)"
    using low high by (simp_all only: of_int_le_iff)
  then have m: "pow2 (binade r) \<le> m" "m \<le> pow2 (binade r + 1)"
    unfolding m_def split by (simp_all add: mult_right_mono)
  moreover have "pow2 (binade r + 1) \<le> 2 * r" using b(1) by (simp add: pow2_succ)
  ultimately have "m \<le> 2 * r" "m < 2 ^ 1024" using assms(2) by (linarith, simp)
  with m(1) pos show ?thesis by (simp add: f64_round_def u m_def [symmetric])
qed

text \<open>Integers up to \<open>2 ^ 53\<close> are doubles.\<close>

lemma f64_of_nat_exact:
  assumes "n \<le> 2 ^ 53"
  shows "f64_of_nat n = Fin False (of_nat n)"
proof (cases "n = 0")
  case True
  then show ?thesis by (simp add: f64_of_nat_def f64_of_int_def f64_round_def)
next
  case False
  let ?r = "of_nat n :: rat"
  have pos: "0 < ?r" using False by simp
  note b = binade_bounds [OF pos]
  have le: "?r \<le> 2 ^ 53" using assms by (metis of_nat_le_iff of_nat_numeral of_nat_power)
  have top: "binade ?r \<le> 53"
  proof (rule ccontr)
    assume "\<not> ?thesis"
    then have "pow2 54 \<le> pow2 (binade ?r)" by (intro pow2_mono) simp
    with b(1) le show False by (simp add: pow2_def)
  qed
  have bot: "0 \<le> binade ?r"
  proof (rule ccontr)
    assume "\<not> ?thesis"
    then have "pow2 (binade ?r + 1) \<le> pow2 0" by (intro pow2_mono) simp
    with b(2) have "?r < 1" by (simp add: pow2_def)
    with False show False by simp
  qed
  have exact: "\<exists>k. ?r / pow2 (ulp_exponent ?r) = of_int k"
  proof (cases "binade ?r = 53")
    case True
    then have "?r = 2 ^ 53" using b(1) le by (simp add: pow2_def)
    moreover have "ulp_exponent ?r = 1" using True by (simp add: ulp_exponent_def)
    ultimately have "?r / pow2 (ulp_exponent ?r) = of_int (2 ^ 52)"
      by (simp only: pow2_def) simp
    then show ?thesis by blast
  next
    case False
    then have "ulp_exponent ?r = - int (nat (52 - binade ?r))"
      using top bot by (simp add: ulp_exponent_def)
    then have "?r / pow2 (ulp_exponent ?r) = of_int (int n * 2 ^ nat (52 - binade ?r))"
      by (simp add: pow2_def)
    then show ?thesis by blast
  qed
  then obtain k where k: "?r / pow2 (ulp_exponent ?r) = of_int k" ..
  then have "?r = of_int k * pow2 (ulp_exponent ?r)" by (simp add: nonzero_divide_eq_eq)
  with k have "of_int (round_half_even (?r / pow2 (ulp_exponent ?r))) * pow2 (ulp_exponent ?r) = ?r"
    by simp
  moreover have "?r < 2 ^ 1024" using le by simp
  ultimately show ?thesis using False
    by (simp add: f64_of_nat_def f64_of_int_def f64_round_def Let_def)
qed

end
