(* ===== verification/Probe_Result.thy ===== *)
theory Probe_Result
  imports Rust_Float
begin

text \<open>
  \<open>huginn-core/src/types.rs\<close>, \<open>error.rs\<close> and the event type of \<open>event.rs\<close>: the result of one probe
  run with its two constructors and the metric builder, the escaping of control characters, and the
  error type with its messages. The lemmas show that no raw control character survives escaping, that
  escaping leaves ordinary text alone and is idempotent, and that every result the constructors and
  the builder produce is well formed.
\<close>

section \<open>Errors\<close>

datatype hugin_error =
    Config rstr
  | Probe rstr rstr
  | Influx rstr
  | Io rstr
  | Secret rstr rstr
  | Other rstr

text \<open>The payloads of \<open>Io\<close> and \<open>Other\<close> are the messages of the wrapped errors.\<close>

definition show_error :: "hugin_error \<Rightarrow> rstr" where
  "show_error e =
     (case e of
        Config m \<Rightarrow> lit ''Configuration error: '' @ m
      | Probe p m \<Rightarrow> lit ''Probe error for '' @ quoted p @ lit '': '' @ m
      | Influx m \<Rightarrow> lit ''InfluxDB write error: '' @ m
      | Io m \<Rightarrow> lit ''I/O error: '' @ m
      | Secret p m \<Rightarrow> lit ''Secret file error at '' @ quoted p @ lit '': '' @ m
      | Other m \<Rightarrow> m)"

section \<open>Control characters\<close>

definition escape_control_char :: "rchar \<Rightarrow> rstr" where
  "escape_control_char c =
     (if c = 10 then [92, 110]
      else if c = 13 then [92, 114]
      else if c = 9 then [92, 116]
      else if is_control c then [92, 120] @ pad_zeros 2 (show_hex c)
      else [c])"

definition escape_control_chars :: "rstr \<Rightarrow> rstr" where
  "escape_control_chars s =
     (if \<not> list_ex is_control s then s else concat (map escape_control_char s))"

definition control_free :: "rstr \<Rightarrow> bool" where
  "control_free s \<longleftrightarrow> list_all (\<lambda>c. \<not> is_control c) s"

lemma control_free_simps [simp, control_simps]:
  "control_free []"
  "control_free (c # cs) \<longleftrightarrow> \<not> is_control c \<and> control_free cs"
  "control_free (s @ t) \<longleftrightarrow> control_free s \<and> control_free t"
  by (simp_all add: control_free_def)

lemma control_free_show_nat [simp]: "control_free (show_nat n)"
  by (simp add: control_free_def show_nat_no_control)

lemma control_free_not_newline: "control_free s \<Longrightarrow> 10 \<notin> set s \<and> 13 \<notin> set s"
  by (auto simp: control_free_def list_all_iff is_control_def)

lemma hex_digit_not_control: "d < 16 \<Longrightarrow> \<not> is_control (hex_digit d)"
  by (auto simp: hex_digit_def is_control_def)

lemma control_free_show_hex: "control_free (show_hex n)"
proof (induction n rule: show_hex.induct)
  case (1 n)
  then show ?case
    by (subst show_hex.simps) (auto simp: hex_digit_not_control)
qed

lemma control_free_pad_zeros: "control_free s \<Longrightarrow> control_free (pad_zeros w s)"
  by (auto simp: pad_zeros_def control_free_def list_all_iff is_control_def)

lemma control_free_escape_control_char: "control_free (escape_control_char c)"
  by (simp add: escape_control_char_def control_free_pad_zeros control_free_show_hex)
     (simp add: is_control_def)

lemma control_free_escape [simp]: "control_free (escape_control_chars s)"
proof (cases "list_ex is_control s")
  case True
  then show ?thesis
    using control_free_escape_control_char
    by (simp add: escape_control_chars_def control_free_def list_all_concat)
next
  case False
  then show ?thesis
    by (auto simp: escape_control_chars_def control_free_def list_ex_iff list_all_iff)
qed

lemma escape_control_free [simp]: "control_free s \<Longrightarrow> escape_control_chars s = s"
  by (auto simp: escape_control_chars_def control_free_def list_ex_iff list_all_iff)

lemma escape_eq_self_iff: "escape_control_chars s = s \<longleftrightarrow> control_free s"
  by (metis control_free_escape escape_control_free)

text \<open>
  The branch for texts without control characters is only a shortcut: the character-wise pass would
  return the same text.
\<close>

lemma escape_control_chars_pass: "escape_control_chars s = concat (map escape_control_char s)"
proof (cases "list_ex is_control s")
  case False
  then have pass: "map escape_control_char s = map (\<lambda>c. [c]) s"
    by (auto simp: escape_control_char_def list_ex_iff is_control_def)
  show ?thesis unfolding pass using False by (simp add: escape_control_chars_def)
qed (simp add: escape_control_chars_def)

text \<open>The two hexadecimal digits always suffice: Cc lies below U+00A0.\<close>

lemma length_show_hex_control: "is_control c \<Longrightarrow> length (show_hex c) \<le> 2"
proof -
  assume "is_control c"
  then have "c div 16 < 16" by (auto simp: is_control_def)
  then show ?thesis by (simp add: show_hex.simps)
qed

section \<open>Ordered maps\<close>

text \<open>
  A \<open>BTreeMap<String, f64>\<close> is the list of its entries in key order. Rust orders strings by their
  bytes, which for UTF-8 is the order of the code points.
\<close>

type_synonym 'v btree_map = "(rstr \<times> 'v) list"

fun btree_insert :: "rstr \<Rightarrow> 'v \<Rightarrow> 'v btree_map \<Rightarrow> 'v btree_map" where
  "btree_insert k v [] = [(k, v)]"
| "btree_insert k v ((l, w) # m) =
     (if k < l then (k, v) # (l, w) # m
      else if k = l then (k, v) # m
      else (l, w) # btree_insert k v m)"

definition btree_wf :: "'v btree_map \<Rightarrow> bool" where
  "btree_wf m \<longleftrightarrow> sorted_wrt (<) (map fst m)"

lemma set_btree_insert: "fst ` set (btree_insert k v m) = insert k (fst ` set m)"
  by (induction k v m rule: btree_insert.induct) (auto simp: image_iff)

lemma btree_wf_empty [simp]: "btree_wf []"
  by (simp add: btree_wf_def)

lemma btree_wf_insert [simp]: "btree_wf m \<Longrightarrow> btree_wf (btree_insert k v m)"
proof (induction k v m rule: btree_insert.induct)
  case (2 k v l w m)
  then show ?case
    using set_btree_insert [of k v m] by (force simp: btree_wf_def)
qed (simp add: btree_wf_def)

lemma map_of_btree_insert: "btree_wf m \<Longrightarrow> map_of (btree_insert k v m) = (map_of m)(k \<mapsto> v)"
proof (induction k v m rule: btree_insert.induct)
  case (2 k v l w m)
  then have "btree_wf m" "\<forall>x \<in> set m. l < fst x" by (auto simp: btree_wf_def)
  with 2 show ?case by (auto simp: fun_eq_iff)
qed simp

lemma btree_wf_distinct: "btree_wf m \<Longrightarrow> distinct (map fst m)"
  by (simp add: btree_wf_def strict_sorted_iff)

section \<open>Probe results\<close>

text \<open>
  A \<open>DateTime<Utc>\<close> is represented by the two readings the program takes from it:
  \<open>timestamp()\<close> in seconds and \<open>timestamp_millis()\<close>, both signed.
\<close>

record datetime =
  dt_timestamp :: int
  dt_timestamp_millis :: int

definition tls_cert_expiry_days_key :: rstr where
  "tls_cert_expiry_days_key = lit ''tls_cert_expiry_days''"

record probe_result =
  pr_probe_name :: rstr
  pr_probe_type :: rstr
  pr_target :: rstr
  pr_up :: bool
  pr_response_ms :: f64
  pr_status_code :: "u16 option"
  pr_error :: "rstr option"
  pr_timestamp :: datetime
  pr_metrics :: "f64 btree_map"

text \<open>\<open>now\<close> is the reading of \<open>Utc::now()\<close>.\<close>

definition result_success :: "datetime \<Rightarrow> rstr \<Rightarrow> rstr \<Rightarrow> rstr \<Rightarrow> f64 \<Rightarrow> u16 option \<Rightarrow> probe_result" where
  "result_success now name kind target ms code =
     \<lparr>pr_probe_name = name, pr_probe_type = kind, pr_target = target, pr_up = True,
      pr_response_ms = ms, pr_status_code = code, pr_error = None, pr_timestamp = now,
      pr_metrics = []\<rparr>"

definition result_failure :: "datetime \<Rightarrow> rstr \<Rightarrow> rstr \<Rightarrow> rstr \<Rightarrow> f64 \<Rightarrow> rstr \<Rightarrow> probe_result" where
  "result_failure now name kind target ms err =
     \<lparr>pr_probe_name = name, pr_probe_type = kind, pr_target = target, pr_up = False,
      pr_response_ms = ms, pr_status_code = None, pr_error = Some (escape_control_chars err),
      pr_timestamp = now, pr_metrics = []\<rparr>"

definition with_metric :: "probe_result \<Rightarrow> rstr \<Rightarrow> f64 \<Rightarrow> probe_result" where
  "with_metric r k v = r\<lparr>pr_metrics := btree_insert k v (pr_metrics r)\<rparr>"

text \<open>
  What holds of every result the probes build: an UP result carries no error, a DOWN result carries
  an error without control characters and no status code, and the metrics are in key order.
\<close>

definition result_wf :: "probe_result \<Rightarrow> bool" where
  "result_wf r \<longleftrightarrow>
     (if pr_up r then pr_error r = None
      else pr_status_code r = None \<and> (\<exists>e. pr_error r = Some e \<and> control_free e)) \<and>
     btree_wf (pr_metrics r)"

lemma success_wf [intro, wf_intros]: "result_wf (result_success now n k t ms c)"
  by (simp add: result_wf_def result_success_def)

lemma failure_wf [intro, wf_intros]: "result_wf (result_failure now n k t ms e)"
  by (simp add: result_wf_def result_failure_def)

lemma with_metric_wf [intro, wf_intros]: "result_wf r \<Longrightarrow> result_wf (with_metric r k v)"
  by (simp add: result_wf_def with_metric_def)

lemma result_fields [simp]:
  "pr_probe_name (result_success now n k t ms c) = n"
  "pr_probe_type (result_success now n k t ms c) = k"
  "pr_target (result_success now n k t ms c) = t"
  "pr_up (result_success now n k t ms c)"
  "pr_status_code (result_success now n k t ms c) = c"
  "pr_error (result_success now n k t ms c) = None"
  "pr_metrics (result_success now n k t ms c) = []"
  "pr_probe_name (result_failure now n k t ms e) = n"
  "pr_probe_type (result_failure now n k t ms e) = k"
  "pr_target (result_failure now n k t ms e) = t"
  "\<not> pr_up (result_failure now n k t ms e)"
  "pr_status_code (result_failure now n k t ms e) = None"
  "pr_error (result_failure now n k t ms e) = Some (escape_control_chars e)"
  "pr_metrics (result_failure now n k t ms e) = []"
  by (simp_all add: result_success_def result_failure_def)

lemma with_metric_fields [simp]:
  "pr_probe_name (with_metric r k v) = pr_probe_name r"
  "pr_probe_type (with_metric r k v) = pr_probe_type r"
  "pr_target (with_metric r k v) = pr_target r"
  "pr_up (with_metric r k v) = pr_up r"
  "pr_status_code (with_metric r k v) = pr_status_code r"
  "pr_error (with_metric r k v) = pr_error r"
  "pr_metrics (with_metric r k v) = btree_insert k v (pr_metrics r)"
  by (simp_all add: with_metric_def)

section \<open>Events\<close>

datatype probe_event = ProbeCompleted probe_result

end
