(* ===== verification/Rust_Net.thy ===== *)
theory Rust_Net
  imports Rust_Text
begin

text \<open>
  The part of Rust's \<open>std::net\<close> the program uses: \<open>IpAddr\<close> and \<open>SocketAddr\<close> with the parsers behind
  \<open>str::parse\<close> (a recursive-descent parser that restores its input where a piece does not match), the
  classification of addresses, and the printing of an \<open>IpAddr\<close>. An IPv6 address is its eight
  groups.
\<close>

datatype ip_addr = V4 nat nat nat nat | V6 "nat list"

text \<open>Reading consumes a prefix; \<open>None\<close> leaves the caller where it was.\<close>

type_synonym 'a reader = "rstr \<Rightarrow> ('a \<times> rstr) option"

definition digit_value :: "nat \<Rightarrow> rchar \<Rightarrow> nat option" where
  "digit_value radix c =
     (let d = (if 48 \<le> c \<and> c \<le> 57 then c - 48
               else if 97 \<le> c \<and> c \<le> 122 then c - 87
               else if 65 \<le> c \<and> c \<le> 90 then c - 55 else radix)
      in if d < radix then Some d else None)"

fun read_digits :: "nat \<Rightarrow> rstr \<Rightarrow> nat list \<times> rstr" where
  "read_digits radix [] = ([], [])"
| "read_digits radix (c # s) =
     (case digit_value radix c of
        None \<Rightarrow> ([], c # s)
      | Some d \<Rightarrow> (let (ds, r) = read_digits radix s in (d # ds, r)))"

definition number_of_digits :: "nat \<Rightarrow> nat list \<Rightarrow> nat" where
  "number_of_digits radix ds = foldl (\<lambda>n d. n * radix + d) 0 ds"

text \<open>
  \<open>read_number\<close>: all digits that follow, at most \<open>max_digits\<close> of them if there is such a limit, no
  leading zero unless it is allowed or stands alone, and a value of at most \<open>bound\<close>.
\<close>

definition read_number :: "nat \<Rightarrow> nat option \<Rightarrow> bool \<Rightarrow> nat \<Rightarrow> nat reader" where
  "read_number radix max_digits allow_zero_prefix bound s =
     (let (ds, r) = read_digits radix s; n = number_of_digits radix ds
      in if ds = [] then None
         else if (case max_digits of None \<Rightarrow> False | Some m \<Rightarrow> m < length ds) then None
         else if \<not> allow_zero_prefix \<and> hd ds = 0 \<and> 1 < length ds then None
         else if bound < n then None else Some (n, r))"

definition read_given_char :: "rchar \<Rightarrow> unit reader" where
  "read_given_char c s = (case s of [] \<Rightarrow> None | d # r \<Rightarrow> if d = c then Some ((), r) else None)"

definition read_then :: "'a reader \<Rightarrow> ('a \<Rightarrow> 'b reader) \<Rightarrow> 'b reader" where
  "read_then p k s = (case p s of None \<Rightarrow> None | Some (a, r) \<Rightarrow> k a r)"

definition read_octet :: "nat reader" where
  "read_octet = read_number 10 (Some 3) False 255"

definition read_ipv4_addr :: "(nat \<times> nat \<times> nat \<times> nat) reader" where
  "read_ipv4_addr =
     read_then read_octet (\<lambda>a. read_then (read_given_char 46) (\<lambda>_.
     read_then read_octet (\<lambda>b. read_then (read_given_char 46) (\<lambda>_.
     read_then read_octet (\<lambda>c. read_then (read_given_char 46) (\<lambda>_.
     read_then read_octet (\<lambda>d s. Some ((a, b, c, d), s))))))))"

definition after_separator :: "nat \<Rightarrow> 'a reader \<Rightarrow> 'a reader" where
  "after_separator i p = (if i = 0 then p else read_then (read_given_char 58) (\<lambda>_. p))"

text \<open>
  \<open>read_groups limit i\<close>: the groups from index \<open>i\<close> on, at most \<open>limit\<close> in all, with an IPv4 address
  allowed as the last two. The result is the groups, whether they end in an IPv4 address, and the rest.
\<close>

function read_groups :: "nat \<Rightarrow> nat \<Rightarrow> rstr \<Rightarrow> nat list \<times> bool \<times> rstr" where
  "read_groups limit i s =
     (if limit \<le> i then ([], False, s)
      else case (if i + 1 < limit then after_separator i read_ipv4_addr s else None) of
        Some ((a, b, c, d), r) \<Rightarrow> ([a * 256 + b, c * 256 + d], True, r)
      | None \<Rightarrow>
          (case after_separator i (read_number 16 (Some 4) True 0xFFFF) s of
             Some (g, r) \<Rightarrow> (let (gs, v4, r') = read_groups limit (i + 1) r in (g # gs, v4, r'))
           | None \<Rightarrow> ([], False, s)))"
  by pat_completeness auto
termination
  by (relation "measure (\<lambda>(limit, i, s). limit - i)") auto

declare read_groups.simps [simp del]

definition read_ipv6_addr :: "nat list reader" where
  "read_ipv6_addr s =
     (let (head, head_v4, r) = read_groups 8 0 s
      in if length head = 8 then Some (head, r)
         else if head_v4 then None
         else case read_then (read_given_char 58) (\<lambda>_. read_given_char 58) r of
           None \<Rightarrow> None
         | Some (_, r') \<Rightarrow>
             (let (tail, _, r'') = read_groups (8 - (length head + 1)) 0 r'
              in Some (head @ replicate (8 - length head - length tail) 0 @ tail, r'')))"

definition read_ip_addr :: "ip_addr reader" where
  "read_ip_addr s =
     (case read_ipv4_addr s of
        Some ((a, b, c, d), r) \<Rightarrow> Some (V4 a b c d, r)
      | None \<Rightarrow> map_option (\<lambda>(gs, r). (V6 gs, r)) (read_ipv6_addr s))"

text \<open>\<open>str::parse\<close> wants the whole text.\<close>

definition parse_all :: "'a reader \<Rightarrow> rstr \<Rightarrow> 'a option" where
  "parse_all p s = (case p s of Some (a, []) \<Rightarrow> Some a | _ \<Rightarrow> None)"

definition parse_ip :: "rstr \<Rightarrow> ip_addr option" where
  "parse_ip = parse_all read_ip_addr"

definition read_port :: "nat reader" where
  "read_port = read_then (read_given_char 58) (\<lambda>_. read_number 10 None True 0xFFFF)"

definition read_scope_id :: "rstr \<Rightarrow> rstr" where
  "read_scope_id s =
     (case read_then (read_given_char 37) (\<lambda>_. read_number 10 None True 0xFFFFFFFF) s of
        None \<Rightarrow> s | Some (_, r) \<Rightarrow> r)"

definition read_socket_addr_v4 :: "(ip_addr \<times> nat) reader" where
  "read_socket_addr_v4 =
     read_then read_ipv4_addr (\<lambda>(a, b, c, d). read_then read_port (\<lambda>p s. Some ((V4 a b c d, p), s)))"

definition read_socket_addr_v6 :: "(ip_addr \<times> nat) reader" where
  "read_socket_addr_v6 =
     read_then (read_given_char 91) (\<lambda>_. read_then read_ipv6_addr (\<lambda>gs s.
       read_then (read_given_char 93) (\<lambda>_. read_then read_port (\<lambda>p s. Some ((V6 gs, p), s)))
         (read_scope_id s)))"

definition read_socket_addr :: "(ip_addr \<times> nat) reader" where
  "read_socket_addr s =
     (case read_socket_addr_v4 s of Some x \<Rightarrow> Some x | None \<Rightarrow> read_socket_addr_v6 s)"

definition parse_socket_addr :: "rstr \<Rightarrow> (ip_addr \<times> nat) option" where
  "parse_socket_addr = parse_all read_socket_addr"

section \<open>Classification\<close>

fun is_ipv4 :: "ip_addr \<Rightarrow> bool" where
  "is_ipv4 (V4 a b c d) = True"
| "is_ipv4 (V6 gs) = False"

definition is_ipv6 :: "ip_addr \<Rightarrow> bool" where
  "is_ipv6 a \<longleftrightarrow> \<not> is_ipv4 a"

fun is_unspecified :: "ip_addr \<Rightarrow> bool" where
  "is_unspecified (V4 a b c d) = (a = 0 \<and> b = 0 \<and> c = 0 \<and> d = 0)"
| "is_unspecified (V6 gs) = (gs = [0, 0, 0, 0, 0, 0, 0, 0])"

definition localhost_v4 :: ip_addr where
  "localhost_v4 = V4 127 0 0 1"

section \<open>Printing\<close>

definition show_ipv4 :: "nat \<Rightarrow> nat \<Rightarrow> nat \<Rightarrow> nat \<Rightarrow> rstr" where
  "show_ipv4 a b c d =
     show_nat a @ [46] @ show_nat b @ [46] @ show_nat c @ [46] @ show_nat d"

text \<open>The first of the longest runs of zero groups, as its start and length.\<close>

fun zero_run :: "nat list \<Rightarrow> nat" where
  "zero_run [] = 0"
| "zero_run (g # gs) = (if g = 0 then Suc (zero_run gs) else 0)"

definition longest_zero_run :: "nat list \<Rightarrow> nat \<times> nat" where
  "longest_zero_run gs =
     foldl (\<lambda>(s, n) i. if n < zero_run (drop i gs) then (i, zero_run (drop i gs)) else (s, n)) (0, 0) [0..<8]"

definition show_groups :: "nat list \<Rightarrow> rstr" where
  "show_groups gs = join [58] (map show_hex gs)"

definition show_ip :: "ip_addr \<Rightarrow> rstr" where
  "show_ip a =
     (case a of
        V4 a b c d \<Rightarrow> show_ipv4 a b c d
      | V6 gs \<Rightarrow>
          (if take 6 gs = [0, 0, 0, 0, 0, 0xFFFF]
           then lit ''::ffff:'' @ show_ipv4 (gs ! 6 div 256) (gs ! 6 mod 256) (gs ! 7 div 256) (gs ! 7 mod 256)
           else let (s, n) = longest_zero_run gs
                in if 1 < n then show_groups (take s gs) @ [58, 58] @ show_groups (drop (s + n) gs)
                   else show_groups gs))"

section \<open>Printed IPv4 addresses parse\<close>

lemma digit_value_decimal [simp]: "is_digit c \<Longrightarrow> digit_value 10 c = Some (c - 48)"
  by (auto simp: digit_value_def is_digit_def Let_def)

lemma read_digits_show:
  assumes "list_all is_digit ds" "r = [] \<or> digit_value 10 (hd r) = None"
  shows "read_digits 10 (ds @ r) = (map (\<lambda>c. c - 48) ds, r)"
  using assms by (induction ds) (cases r; auto)+

lemma number_of_digits_decimal: "number_of_digits 10 (map (\<lambda>c. c - 48) ds) = digits_value ds"
  by (simp add: number_of_digits_def digits_value_def foldl_map mult.commute)

lemma show_uint_no_leading_zero: "10 \<le> i \<Longrightarrow> hd (show_uint i) \<noteq> 48"
proof (induction i rule: show_uint.induct)
  case (1 i)
  show ?case
  proof (cases "i div 10 < 10")
    case True
    then have "show_uint i = [48 + nat (i div 10), 48 + nat (i mod 10)]"
      using "1.prems" by (simp add: show_uint.simps [of i] show_uint.simps [of "i div 10"])
    then show ?thesis using "1.prems" by simp
  next
    case False
    then have "hd (show_uint (i div 10)) \<noteq> 48" using "1" by simp
    then show ?thesis using "1.prems" by (simp add: show_uint.simps [of i] hd_append)
  qed
qed

lemma length_show_nat_octet: "n \<le> 255 \<Longrightarrow> length (show_nat n) \<le> 3"
proof -
  assume "n \<le> 255"
  then have "int n div 10 div 10 < 10" by simp
  then show ?thesis
    by (simp add: show_nat_def show_uint.simps [of "int n"] show_uint.simps [of "int n div 10"]
        show_uint.simps [of "int n div 10 div 10"])
qed

lemma read_octet_show:
  assumes "n \<le> 255" "r = [] \<or> digit_value 10 (hd r) = None"
  shows "read_octet (show_nat n @ r) = Some (n, r)"
proof -
  have digits: "read_digits 10 (show_nat n @ r) = (map (\<lambda>c. c - 48) (show_nat n), r)"
    by (rule read_digits_show [OF show_nat_digits assms(2)])
  have lead: "hd (map (\<lambda>c. c - 48) (show_nat n)) \<noteq> 0" if "1 < length (show_nat n)"
  proof -
    have "10 \<le> int n" using that by (auto simp: show_nat_def show_uint.simps [of "int n"] split: if_splits)
    then have "hd (show_nat n) \<noteq> 48" by (simp add: show_nat_def show_uint_no_leading_zero)
    moreover have "is_digit (hd (show_nat n))"
      using show_nat_digits [of n] by (simp add: list_all_iff)
    ultimately show ?thesis by (simp add: hd_map is_digit_def)
  qed
  show ?thesis
    using length_show_nat_octet [OF assms(1)] lead assms(1)
    by (auto simp: read_octet_def read_number_def digits number_of_digits_decimal)
qed

lemma read_octet_dot: "n \<le> 255 \<Longrightarrow> read_octet (show_nat n @ 46 # r) = Some (n, 46 # r)"
  by (rule read_octet_show) (simp_all add: digit_value_def)

lemma parse_show_ipv4:
  assumes "a \<le> 255" "b \<le> 255" "c \<le> 255" "d \<le> 255"
  shows "parse_ip (show_ip (V4 a b c d)) = Some (V4 a b c d)"
  using read_octet_show [OF assms(4), of "[]"] assms
  by (simp add: parse_ip_def parse_all_def read_ip_addr_def show_ip_def show_ipv4_def
      read_ipv4_addr_def read_then_def read_octet_dot read_given_char_def)

end
