(* ===== verification/App_Config.thy ===== *)
theory App_Config
  imports Probe_Result Rust_Net
begin

text \<open>
  The data model and the validation of \<open>huginn-core/src/config.rs\<close>: one record per configuration block
  with its defaults, the listener collision test, and \<open>validate\<close> with every check in source order and
  with its message. The declarative counterpart is \<open>config_ok\<close>; \<open>validate\<close> accepts exactly the
  configurations that satisfy it.

  A \<open>usize\<close> is 64 bits wide, as on the targets the program is built for.
\<close>

section \<open>Configuration blocks\<close>

record influx_config =
  ic_url :: rstr
  ic_org :: rstr
  ic_bucket :: rstr
  ic_token_file :: rstr
  ic_batch_size :: u64
  ic_batch_timeout_ms :: u64
  ic_max_buffered_bytes :: u64
  ic_retry_initial_backoff_ms :: u64
  ic_retry_max_backoff_ms :: u64
  ic_shutdown_drain_timeout_ms :: u64

definition default_influx :: influx_config where
  "default_influx =
     \<lparr>ic_url = [], ic_org = [], ic_bucket = [], ic_token_file = lit ''/run/secrets/influx_token'',
      ic_batch_size = 10, ic_batch_timeout_ms = 1000, ic_max_buffered_bytes = 8 * 1024 * 1024,
      ic_retry_initial_backoff_ms = 500, ic_retry_max_backoff_ms = 30000,
      ic_shutdown_drain_timeout_ms = 5000\<rparr>"

record ui_config =
  uc_enabled :: bool
  uc_bind :: rstr
  uc_port :: u16

definition default_ui :: ui_config where
  "default_ui = \<lparr>uc_enabled = False, uc_bind = lit ''127.0.0.1'', uc_port = 9116\<rparr>"

record metrics_config =
  mc_enabled :: bool
  mc_bind :: rstr
  mc_port :: u16
  mc_api_key_file :: "rstr option"

definition default_metrics :: metrics_config where
  "default_metrics =
     \<lparr>mc_enabled = False, mc_bind = lit ''127.0.0.1'', mc_port = 9464, mc_api_key_file = None\<rparr>"

record health_config =
  hc_enabled :: bool
  hc_port :: u16

definition default_health :: health_config where
  "default_health = \<lparr>hc_enabled = True, hc_port = 9115\<rparr>"

definition health_bind :: rstr where
  "health_bind = lit ''127.0.0.1''"

definition health_addr :: ip_addr where
  "health_addr = localhost_v4"

definition addresses_contend :: "ip_addr \<Rightarrow> ip_addr \<Rightarrow> bool" where
  "addresses_contend a b \<longleftrightarrow>
     a = b \<or> (is_unspecified a \<and> (is_ipv6 a \<or> is_ipv4 b)) \<or> (is_unspecified b \<and> (is_ipv6 b \<or> is_ipv4 a))"

datatype log_format = Pretty | Json

record log_config =
  lc_format :: log_format
  lc_level :: rstr

definition default_log :: log_config where
  "default_log = \<lparr>lc_format = Pretty, lc_level = lit ''info''\<rparr>"

datatype probe_type = Tcp | Http | Https | Smtp | Imap | Udp | Dns | Tls

definition show_probe_type :: "probe_type \<Rightarrow> rstr" where
  "show_probe_type k =
     (case k of
        Tcp \<Rightarrow> lit ''tcp'' | Http \<Rightarrow> lit ''http'' | Https \<Rightarrow> lit ''https'' | Smtp \<Rightarrow> lit ''smtp''
      | Imap \<Rightarrow> lit ''imap'' | Udp \<Rightarrow> lit ''udp'' | Dns \<Rightarrow> lit ''dns'' | Tls \<Rightarrow> lit ''tls'')"

record probe_config =
  pc_name :: rstr
  pc_probe_type :: probe_type
  pc_target :: rstr
  pc_interval_secs :: u64
  pc_timeout_secs :: u64
  pc_expected_status :: "u16 option"
  pc_dns_query :: "rstr option"
  pc_dns_expected_ip :: "rstr option"
  pc_tls_expiry_fail_days :: "f64 option"

definition default_probe :: probe_config where
  "default_probe =
     \<lparr>pc_name = [], pc_probe_type = Tcp, pc_target = [], pc_interval_secs = 30, pc_timeout_secs = 5,
      pc_expected_status = None, pc_dns_query = None, pc_dns_expected_ip = None,
      pc_tls_expiry_fail_days = None\<rparr>"

definition default_hub_capacity :: u64 where
  "default_hub_capacity = 256"

record app_config =
  ac_influx :: influx_config
  ac_probes :: "probe_config list"
  ac_ui :: ui_config
  ac_metrics :: metrics_config
  ac_health :: health_config
  ac_log :: log_config
  ac_event_hub_capacity :: u64

section \<open>Durations\<close>

text \<open>A \<open>Duration\<close> is a number of nanoseconds below \<open>2 ^ 64\<close> seconds.\<close>

type_synonym duration = nat

definition duration_from_secs :: "u64 \<Rightarrow> duration" where
  "duration_from_secs s = unat s * 1000000000"

definition duration_from_millis :: "u64 \<Rightarrow> duration" where
  "duration_from_millis ms = unat ms * 1000000"

definition probe_timeout :: "probe_config \<Rightarrow> duration" where
  "probe_timeout c = duration_from_secs (pc_timeout_secs c)"

definition probe_interval :: "probe_config \<Rightarrow> duration" where
  "probe_interval c = duration_from_secs (pc_interval_secs c)"

section \<open>Validation of a probe's target\<close>

definition has_port_suffix :: "rstr \<Rightarrow> bool" where
  "has_port_suffix target =
     (case rsplit_once 58 target of
        Some (host, port) \<Rightarrow> host \<noteq> [] \<and> parse_u16 port \<noteq> None
      | None \<Rightarrow> False)"

definition default_port_hint :: "probe_type \<Rightarrow> u16" where
  "default_port_hint k =
     (case k of Smtp \<Rightarrow> 25 | Imap \<Rightarrow> 143 | Udp \<Rightarrow> 53 | Tls \<Rightarrow> 443 | _ \<Rightarrow> 80)"

definition is_http_url :: "rstr \<Rightarrow> bool" where
  "is_http_url s \<longleftrightarrow> starts_with s (lit ''http://'') \<or> starts_with s (lit ''https://'')"

definition probe_error :: "probe_config \<Rightarrow> rstr \<Rightarrow> hugin_error" where
  "probe_error p msg = Config (lit ''probe '' @ quoted (pc_name p) @ lit '': '' @ msg)"

definition needs_port :: "probe_type \<Rightarrow> bool" where
  "needs_port k \<longleftrightarrow> k \<in> {Tcp, Smtp, Imap, Udp, Tls}"

definition validate_target :: "probe_config \<Rightarrow> hugin_error + unit" where
  "validate_target p =
     (case pc_probe_type p of
        Dns \<Rightarrow>
          fail_if (parse_socket_addr (pc_target p) = None)
            (probe_error p (lit ''dns target '' @ quoted (pc_target p) @
               lit '' must be a nameserver address with a port, e.g. '' @ quoted (lit ''8.8.8.8:53'') @
               lit '' or '' @ quoted (lit ''[2001:4860:4860::8888]:53'')))
      | k \<Rightarrow>
          (if needs_port k then
             fail_if (\<not> has_port_suffix (pc_target p))
               (probe_error p (show_probe_type k @ lit '' target '' @ quoted (pc_target p) @
                  lit '' must include a port, e.g. '' @
                  quoted (pc_target p @ [58] @ show_nat (unat (default_port_hint k)))))
           else
             fail_if (\<not> is_http_url (pc_target p))
               (probe_error p (show_probe_type k @ lit '' target '' @ quoted (pc_target p) @
                  lit '' must be an absolute URL starting with http:// or https://''))))"

section \<open>Validation of a probe\<close>

definition check_expiry_days :: "probe_config \<Rightarrow> (hugin_error + unit) list" where
  "check_expiry_days p =
     (case pc_tls_expiry_fail_days p of
        None \<Rightarrow> []
      | Some days \<Rightarrow>
          [fail_if (\<not> is_finite days)
             (probe_error p (lit ''tls_expiry_fail_days must be a finite number (got '' @ show_f64 days @
                lit '') '' @ em_dash @ lit '' NaN makes every expiry comparison false, so the probe would report UP however close the certificate is to expiring'')),
           fail_if (days < 0)
             (probe_error p (lit ''tls_expiry_fail_days must be >= 0 (omit it to fail only once the certificate has expired)''))])"

definition check_expected_status :: "probe_config \<Rightarrow> (hugin_error + unit) list" where
  "check_expected_status p =
     (case pc_expected_status p of
        None \<Rightarrow> []
      | Some status \<Rightarrow>
          [fail_if (\<not> (100 \<le> status \<and> status \<le> 599))
             (probe_error p (lit ''expected_status '' @ show_nat (unat status) @
                lit '' is not a valid HTTP status code (100-599), so the probe could never match it''))])"

definition check_expected_ip :: "probe_config \<Rightarrow> (hugin_error + unit) list" where
  "check_expected_ip p =
     (case pc_dns_expected_ip p of
        None \<Rightarrow> []
      | Some ip \<Rightarrow>
          [fail_if (parse_ip ip = None)
             (probe_error p (lit ''dns_expected_ip '' @ quoted ip @ lit '' is not an IP address '' @ em_dash @
                lit '' it is compared against the resolved address, so nothing would ever match it''))])"

definition validate_probe :: "rstr list \<Rightarrow> probe_config \<Rightarrow> hugin_error + unit" where
  "validate_probe seen p =
     check_all
       ([fail_if (pc_name p = []) (Config (lit ''probe name must not be empty'')),
         fail_if (pc_name p \<in> set seen)
           (Config (lit ''duplicate probe name '' @ quoted (pc_name p) @ lit '': names must be unique '' @
              em_dash @ lit '' they key the UI and the InfluxDB series'')),
         fail_if (pc_target p = []) (probe_error p (lit ''target must not be empty'')),
         fail_if (pc_interval_secs p = 0) (probe_error p (lit ''interval_secs must be > 0'')),
         fail_if (pc_timeout_secs p = 0) (probe_error p (lit ''timeout_secs must be > 0''))] @
        check_expiry_days p @ check_expected_status p @ check_expected_ip p @
        [validate_target p])"

text \<open>\<open>seen\<close> holds the names of the probes before this one.\<close>

fun validate_probes :: "rstr list \<Rightarrow> probe_config list \<Rightarrow> hugin_error + unit" where
  "validate_probes seen [] = Inr ()"
| "validate_probes seen (p # ps) =
     and_then (validate_probe seen p) (\<lambda>_. validate_probes (pc_name p # seen) ps)"

section \<open>Validation of the InfluxDB block and the listeners\<close>

definition validate_influx :: "influx_config \<Rightarrow> hugin_error + unit" where
  "validate_influx i =
     check_all
       [fail_if (ic_url i = []) (Config (lit ''influx.url must not be empty'')),
        fail_if (\<not> is_http_url (ic_url i))
          (Config (lit ''influx.url '' @ quoted (ic_url i) @
             lit '' must be an absolute URL starting with http:// or https://'')),
        fail_if (ic_org i = []) (Config (lit ''influx.org must not be empty'')),
        fail_if (ic_bucket i = []) (Config (lit ''influx.bucket must not be empty'')),
        fail_if (ic_batch_size i = 0)
          (Config (lit ''influx.batch_size must be > 0 (0 would flush a POST per probe result)'')),
        fail_if (ic_batch_timeout_ms i = 0)
          (Config (lit ''influx.batch_timeout_ms must be > 0 (0 spins the batcher'' @ single_quote @
             lit ''s flush timer at 100% CPU)'')),
        fail_if (ic_max_buffered_bytes i = 0)
          (Config (lit ''influx.max_buffered_bytes must be > 0 (0 makes the retry queue drop every batch during an outage)'')),
        fail_if (ic_retry_initial_backoff_ms i = 0)
          (Config (lit ''influx.retry_initial_backoff_ms must be > 0 (0 retries in a tight loop against a failing server)'')),
        fail_if (ic_retry_max_backoff_ms i = 0)
          (Config (lit ''influx.retry_max_backoff_ms must be > 0 (0 caps every retry wait at zero)'')),
        fail_if (ic_retry_max_backoff_ms i < ic_retry_initial_backoff_ms i)
          (Config (lit ''influx.retry_max_backoff_ms ('' @ show_nat (unat (ic_retry_max_backoff_ms i)) @
             lit '') is below influx.retry_initial_backoff_ms ('' @
             show_nat (unat (ic_retry_initial_backoff_ms i)) @ lit '') '' @ em_dash @
             lit '' the ceiling must not be lower than the first delay''))]"

definition bind_error :: "string \<Rightarrow> rstr \<Rightarrow> hugin_error" where
  "bind_error key bind =
     Config (lit key @ lit '' '' @ quoted bind @ lit '' must be an IP address, e.g. '' @
       quoted (lit ''127.0.0.1'') @ lit '', '' @ quoted (lit ''0.0.0.0'') @ lit '' or '' @ quoted (lit ''::1''))"

definition check_port :: "string \<Rightarrow> bool \<Rightarrow> u16 \<Rightarrow> hugin_error + unit" where
  "check_port name enabled port =
     fail_if (enabled \<and> port = 0)
       (Config (lit name @ lit ''.port must not be 0 '' @ em_dash @
          lit '' port 0 asks the OS for an arbitrary free port, so nothing could be configured to reach it''))"

definition check_api_key_file :: "metrics_config \<Rightarrow> hugin_error + unit" where
  "check_api_key_file m =
     fail_if (mc_api_key_file m = Some [])
       (Config (lit ''metrics.api_key_file must not be empty (omit the key to disable auth)''))"

definition check_ui_metrics_collision :: "app_config \<Rightarrow> ip_addr \<Rightarrow> ip_addr \<Rightarrow> hugin_error + unit" where
  "check_ui_metrics_collision c ui_addr metrics_addr =
     fail_if (uc_enabled (ac_ui c) \<and> mc_enabled (ac_metrics c) \<and> addresses_contend ui_addr metrics_addr \<and>
         uc_port (ac_ui c) = mc_port (ac_metrics c))
       (Config (lit ''ui and metrics are both enabled on '' @ uc_bind (ac_ui c) @ [58] @
          show_nat (unat (uc_port (ac_ui c))) @ lit '' '' @ em_dash @
          lit '' give metrics its own port (metrics.port)''))"

definition check_health_collision ::
    "app_config \<Rightarrow> string \<Rightarrow> bool \<Rightarrow> rstr \<Rightarrow> ip_addr \<Rightarrow> u16 \<Rightarrow> hugin_error + unit" where
  "check_health_collision c name enabled bind addr port =
     fail_if (hc_enabled (ac_health c) \<and> enabled \<and> port = hc_port (ac_health c) \<and>
         addresses_contend addr health_addr)
       (Config (lit name @ lit '' is enabled on '' @ bind @ [58] @ show_nat (unat port) @
          lit '', which cannot be bound while the health listener holds '' @ health_bind @ [58] @
          show_nat (unat port) @ lit '' '' @ em_dash @ lit '' give '' @ lit name @
          lit '' another port, or set health.enabled: false''))"

definition validate_listeners :: "app_config \<Rightarrow> ip_addr \<Rightarrow> ip_addr \<Rightarrow> hugin_error + unit" where
  "validate_listeners c ui_addr metrics_addr =
     check_all
       [check_port ''ui'' (uc_enabled (ac_ui c)) (uc_port (ac_ui c)),
        check_port ''metrics'' (mc_enabled (ac_metrics c)) (mc_port (ac_metrics c)),
        check_api_key_file (ac_metrics c),
        check_ui_metrics_collision c ui_addr metrics_addr,
        check_health_collision c ''ui'' (uc_enabled (ac_ui c)) (uc_bind (ac_ui c)) ui_addr
          (uc_port (ac_ui c)),
        check_health_collision c ''metrics'' (mc_enabled (ac_metrics c)) (mc_bind (ac_metrics c))
          metrics_addr (mc_port (ac_metrics c))]"

definition check_hub_capacity :: "app_config \<Rightarrow> hugin_error + unit" where
  "check_hub_capacity c =
     fail_if (ac_event_hub_capacity c = 0) (Config (lit ''event_hub_capacity must be > 0''))"

definition validate :: "app_config \<Rightarrow> hugin_error + unit" where
  "validate c =
     and_then (validate_influx (ac_influx c)) (\<lambda>_.
     and_then (check_hub_capacity c) (\<lambda>_.
     and_then (ok_or (bind_error ''ui.bind'' (uc_bind (ac_ui c))) (parse_ip (uc_bind (ac_ui c)))) (\<lambda>ui_addr.
     and_then (ok_or (bind_error ''metrics.bind'' (mc_bind (ac_metrics c))) (parse_ip (mc_bind (ac_metrics c))))
       (\<lambda>metrics_addr.
     and_then (validate_listeners c ui_addr metrics_addr) (\<lambda>_.
       validate_probes [] (ac_probes c))))))"

section \<open>What an accepted configuration is\<close>

text \<open>
  A socket bound to \<open>a\<close> receives what is sent to \<open>x\<close>: the wildcard of IPv4 takes every IPv4 address,
  the wildcard of IPv6 takes every address.
\<close>

definition receives :: "ip_addr \<Rightarrow> ip_addr \<Rightarrow> bool" where
  "receives a x \<longleftrightarrow> a = x \<or> (is_unspecified a \<and> (is_ipv6 a \<or> is_ipv4 x))"

lemma contend_iff_common_address: "addresses_contend a b \<longleftrightarrow> (\<exists>x. receives a x \<and> receives b x)"
proof
  show "addresses_contend a b" if "\<exists>x. receives a x \<and> receives b x"
  proof -
    have zero4: "a = b" if "is_unspecified a" "is_unspecified b" "is_ipv4 a" "is_ipv4 b"
      using that by (cases a; cases b) auto
    from that zero4 show ?thesis
      by (auto simp: receives_def addresses_contend_def is_ipv6_def)
  qed
next
  assume "addresses_contend a b"
  then have "receives a a \<and> receives b a \<or> receives a b \<and> receives b b"
    unfolding receives_def addresses_contend_def by blast
  then show "\<exists>x. receives a x \<and> receives b x" by blast
qed

text \<open>The sockets the daemon will open, and when two of them can be open together.\<close>

definition listeners :: "app_config \<Rightarrow> ip_addr \<Rightarrow> ip_addr \<Rightarrow> (ip_addr \<times> u16) list" where
  "listeners c ui_addr metrics_addr =
     (if uc_enabled (ac_ui c) then [(ui_addr, uc_port (ac_ui c))] else []) @
     (if mc_enabled (ac_metrics c) then [(metrics_addr, mc_port (ac_metrics c))] else []) @
     (if hc_enabled (ac_health c) then [(health_addr, hc_port (ac_health c))] else [])"

fun can_coexist :: "ip_addr \<times> u16 \<Rightarrow> ip_addr \<times> u16 \<Rightarrow> bool" where
  "can_coexist (a, p) (b, q) \<longleftrightarrow> p = q \<longrightarrow> \<not> addresses_contend a b"

definition listeners_ok :: "app_config \<Rightarrow> ip_addr \<Rightarrow> ip_addr \<Rightarrow> bool" where
  "listeners_ok c ui_addr metrics_addr \<longleftrightarrow>
     (uc_enabled (ac_ui c) \<longrightarrow> uc_port (ac_ui c) \<noteq> 0) \<and>
     (mc_enabled (ac_metrics c) \<longrightarrow> mc_port (ac_metrics c) \<noteq> 0) \<and>
     mc_api_key_file (ac_metrics c) \<noteq> Some [] \<and>
     sorted_wrt can_coexist (listeners c ui_addr metrics_addr)"

definition influx_ok :: "influx_config \<Rightarrow> bool" where
  "influx_ok i \<longleftrightarrow>
     is_http_url (ic_url i) \<and> ic_org i \<noteq> [] \<and> ic_bucket i \<noteq> [] \<and>
     0 < ic_batch_size i \<and> 0 < ic_batch_timeout_ms i \<and> 0 < ic_max_buffered_bytes i \<and>
     0 < ic_retry_initial_backoff_ms i \<and> ic_retry_initial_backoff_ms i \<le> ic_retry_max_backoff_ms i"

definition target_ok :: "probe_config \<Rightarrow> bool" where
  "target_ok p \<longleftrightarrow>
     (if pc_probe_type p = Dns then parse_socket_addr (pc_target p) \<noteq> None
      else if pc_probe_type p \<in> {Http, Https} then is_http_url (pc_target p)
      else \<exists>host port. pc_target p = host @ [58] @ port \<and> host \<noteq> [] \<and> parse_u16 port \<noteq> None)"

definition probe_ok :: "probe_config \<Rightarrow> bool" where
  "probe_ok p \<longleftrightarrow>
     pc_name p \<noteq> [] \<and> pc_target p \<noteq> [] \<and> 0 < pc_interval_secs p \<and> 0 < pc_timeout_secs p \<and>
     (\<forall>d. pc_tls_expiry_fail_days p = Some d \<longrightarrow> is_finite d \<and> \<not> f64_lt d f64_zero) \<and>
     (\<forall>s. pc_expected_status p = Some s \<longrightarrow> 100 \<le> s \<and> s \<le> 599) \<and>
     (\<forall>ip. pc_dns_expected_ip p = Some ip \<longrightarrow> parse_ip ip \<noteq> None) \<and>
     target_ok p"

definition config_ok :: "app_config \<Rightarrow> bool" where
  "config_ok c \<longleftrightarrow>
     influx_ok (ac_influx c) \<and> 0 < ac_event_hub_capacity c \<and>
     (\<exists>ui_addr metrics_addr.
        parse_ip (uc_bind (ac_ui c)) = Some ui_addr \<and>
        parse_ip (mc_bind (ac_metrics c)) = Some metrics_addr \<and>
        listeners_ok c ui_addr metrics_addr) \<and>
     (\<forall>p \<in> set (ac_probes c). probe_ok p) \<and>
     distinct (map pc_name (ac_probes c))"

lemma parse_u16_no_colon: "parse_u16 s \<noteq> None \<Longrightarrow> 58 \<notin> set s"
proof -
  assume "parse_u16 s \<noteq> None"
  then have "parse_uint 0xFFFF s \<noteq> None" by (simp add: parse_u16_def)
  then show "58 \<notin> set s"
    by (auto simp: parse_uint_def Let_def is_digit_def list_all_iff split: list.splits if_splits)
qed

lemma has_port_suffix_iff:
  "has_port_suffix t \<longleftrightarrow> (\<exists>host port. t = host @ [58] @ port \<and> host \<noteq> [] \<and> parse_u16 port \<noteq> None)"
proof
  assume "has_port_suffix t"
  then show "\<exists>host port. t = host @ [58] @ port \<and> host \<noteq> [] \<and> parse_u16 port \<noteq> None"
    by (auto simp: has_port_suffix_def rsplit_once_Some_iff split: option.splits prod.splits)
next
  assume "\<exists>host port. t = host @ [58] @ port \<and> host \<noteq> [] \<and> parse_u16 port \<noteq> None"
  then obtain host port where t: "t = host @ 58 # port" "host \<noteq> []" "parse_u16 port \<noteq> None" by auto
  then have "rsplit_once 58 t = Some (host, port)"
    using parse_u16_no_colon by (simp add: rsplit_once_append)
  with t show "has_port_suffix t" by (simp add: has_port_suffix_def)
qed

lemma validate_target_iff: "validate_target p = Inr () \<longleftrightarrow> target_ok p"
proof -
  have "validate_target p = Inr () \<longleftrightarrow>
      (if pc_probe_type p = Dns then parse_socket_addr (pc_target p) \<noteq> None
       else if pc_probe_type p \<in> {Http, Https} then is_http_url (pc_target p)
       else has_port_suffix (pc_target p))"
    by (cases "pc_probe_type p") (simp_all add: validate_target_def needs_port_def)
  then show ?thesis by (simp only: target_ok_def has_port_suffix_iff)
qed

lemma check_expiry_days_iff:
  "check_all (check_expiry_days p) = Inr () \<longleftrightarrow>
     (\<forall>d. pc_tls_expiry_fail_days p = Some d \<longrightarrow> is_finite d \<and> \<not> f64_lt d f64_zero)"
  by (cases "pc_tls_expiry_fail_days p")
     (simp_all add: check_expiry_days_def check_all_Inr_simps del: check_all.simps)

lemma check_expected_status_iff:
  "check_all (check_expected_status p) = Inr () \<longleftrightarrow>
     (\<forall>s. pc_expected_status p = Some s \<longrightarrow> 100 \<le> s \<and> s \<le> 599)"
  by (cases "pc_expected_status p")
     (simp_all add: check_expected_status_def check_all_Inr_simps del: check_all.simps)

lemma check_expected_ip_iff:
  "check_all (check_expected_ip p) = Inr () \<longleftrightarrow>
     (\<forall>ip. pc_dns_expected_ip p = Some ip \<longrightarrow> parse_ip ip \<noteq> None)"
  by (cases "pc_dns_expected_ip p")
     (simp_all add: check_expected_ip_def check_all_Inr_simps del: check_all.simps)

lemma validate_probe_iff:
  "validate_probe seen p = Inr () \<longleftrightarrow> probe_ok p \<and> pc_name p \<notin> set seen"
  unfolding validate_probe_def probe_ok_def check_all_Inr_simps check_expiry_days_iff
    check_expected_status_iff check_expected_ip_iff validate_target_iff fail_if_Inr_iff word_pos_iff
  by blast

lemma validate_probes_iff:
  "validate_probes seen ps = Inr () \<longleftrightarrow>
     (\<forall>p \<in> set ps. probe_ok p) \<and> set seen \<inter> pc_name ` set ps = {} \<and> distinct (map pc_name ps)"
proof (induction seen ps rule: validate_probes.induct)
  case (2 seen p ps)
  show ?case
    unfolding validate_probes.simps and_then_Inr_iff "2.IH" by (auto simp: validate_probe_iff)
qed simp

lemma is_http_url_nonempty: "is_http_url s \<Longrightarrow> s \<noteq> []"
  by (auto simp: is_http_url_def starts_with_iff lit_def)

lemma validate_influx_iff: "validate_influx i = Inr () \<longleftrightarrow> influx_ok i"
proof -
  have "ic_retry_max_backoff_ms i \<noteq> 0"
    if "ic_retry_initial_backoff_ms i \<noteq> 0" "ic_retry_initial_backoff_ms i \<le> ic_retry_max_backoff_ms i"
    using that by auto
  then show ?thesis
    unfolding validate_influx_def influx_ok_def check_all_Inr_simps fail_if_Inr_iff word_pos_iff not_less
    using is_http_url_nonempty by blast
qed

lemma validate_listeners_iff: "validate_listeners c u m = Inr () \<longleftrightarrow> listeners_ok c u m"
  unfolding validate_listeners_def listeners_ok_def check_all_Inr_simps check_port_def
    check_api_key_file_def check_ui_metrics_collision_def check_health_collision_def fail_if_Inr_iff
  by (cases "uc_enabled (ac_ui c)"; cases "mc_enabled (ac_metrics c)"; cases "hc_enabled (ac_health c)")
     (simp_all add: listeners_def, blast+)

lemma validate_iff: "validate c = Inr () \<longleftrightarrow> config_ok c"
  unfolding validate_def config_ok_def and_then_Inr_iff validate_influx_iff check_hub_capacity_def
    fail_if_Inr_iff ok_or_Inr_iff validate_listeners_iff validate_probes_iff word_pos_iff
  by (auto simp: validate_influx_iff validate_listeners_iff)


text \<open>The first probe that is at fault decides the message, and every message is a \<open>Config\<close> error.\<close>

lemma validate_probes_error:
  assumes "validate_probes seen ps = Inl e"
  shows "\<exists>i < length ps. validate_probe (rev (map pc_name (take i ps)) @ seen) (ps ! i) = Inl e \<and>
           validate_probes seen (take i ps) = Inr ()"
  using assms
proof (induction seen ps rule: validate_probes.induct)
  case (2 seen p ps)
  show ?case
  proof (cases "validate_probe seen p")
    case (Inl d)
    with "2.prems" show ?thesis by (intro exI [of _ 0]) simp
  next
    case (Inr u)
    with "2.prems" have "validate_probes (pc_name p # seen) ps = Inl e" by simp
    with "2.IH" Inr obtain i where "i < length ps"
      "validate_probe (rev (map pc_name (take i ps)) @ pc_name p # seen) (ps ! i) = Inl e"
      "validate_probes (pc_name p # seen) (take i ps) = Inr ()" by blast
    with Inr show ?thesis by (intro exI [of _ "Suc i"]) simp
  qed
qed simp

text \<open>When the probe list is rejected, the error is the one of the first probe at fault: every probe
  before it is acceptable on its own and against the names before it.\<close>

lemma rejection_names_first_bad_probe:
  assumes "validate_probes [] ps = Inl e"
  shows "\<exists>i < length ps.
           validate_probe (rev (map pc_name (take i ps))) (ps ! i) = Inl e \<and>
           (\<not> probe_ok (ps ! i) \<or> pc_name (ps ! i) \<in> pc_name ` set (take i ps)) \<and>
           (\<forall>p \<in> set (take i ps). probe_ok p) \<and> distinct (map pc_name (take i ps))"
proof -
  obtain i where i: "i < length ps" "validate_probe (rev (map pc_name (take i ps))) (ps ! i) = Inl e"
    "validate_probes [] (take i ps) = Inr ()"
    using validate_probes_error [OF assms] by auto
  then have "validate_probe (rev (map pc_name (take i ps))) (ps ! i) \<noteq> Inr ()" by simp
  then have "\<not> probe_ok (ps ! i) \<or> pc_name (ps ! i) \<in> pc_name ` set (take i ps)"
    by (auto simp: validate_probe_iff)
  with i show ?thesis by (auto simp: validate_probes_iff)
qed

definition sample_probe :: probe_config where
  "sample_probe = default_probe\<lparr>pc_name := lit ''web'', pc_target := lit ''db:5432''\<rparr>"

lemma sample_probe_passes: "validate_probe [] sample_probe = Inr ()"
proof -
  have "has_port_suffix (pc_target sample_probe)"
    by (simp add: has_port_suffix_def rsplit_once_def sample_probe_def default_probe_def lit_simps
        parse_u16_def parse_uint_def digits_value_def is_digit_def)
  then have "target_ok sample_probe"
    unfolding target_ok_def has_port_suffix_iff by (simp add: sample_probe_def default_probe_def)
  then show ?thesis
    by (simp add: validate_probe_iff probe_ok_def) (simp add: sample_probe_def default_probe_def)
qed

text \<open>A configuration that passes, for the witnesses.\<close>

definition sample_config :: app_config where
  "sample_config =
     \<lparr>ac_influx = default_influx\<lparr>ic_url := lit ''http://influxdb:8086'', ic_org := lit ''org'', ic_bucket := lit ''probes''\<rparr>,
      ac_probes = [sample_probe], ac_ui = default_ui\<lparr>uc_enabled := True\<rparr>, ac_metrics = default_metrics\<lparr>mc_enabled := True\<rparr>,
      ac_health = default_health, ac_log = default_log, ac_event_hub_capacity = default_hub_capacity\<rparr>"

lemma parse_loopback: "parse_ip (lit ''127.0.0.1'') = Some localhost_v4"
proof -
  have "lit ''127.0.0.1'' = show_ip (V4 127 0 0 1)"
    by (simp add: show_ip_def show_ipv4_def show_nat_def show_uint.simps lit_simps)
  then show ?thesis by (simp add: parse_show_ipv4 localhost_v4_def)
qed

lemma sample_probe_ok: "probe_ok sample_probe"
  using sample_probe_passes by (simp add: validate_probe_iff)

lemma sample_config_rename:
  "n \<noteq> [] \<Longrightarrow> validate (sample_config\<lparr>ac_probes := [sample_probe\<lparr>pc_name := n\<rparr>]\<rparr>) = Inr ()"
proof -
  assume "n \<noteq> []"
  have "target_ok (sample_probe\<lparr>pc_name := n\<rparr>) = target_ok sample_probe"
    by (simp add: target_ok_def)
  with \<open>n \<noteq> []\<close> have "probe_ok (sample_probe\<lparr>pc_name := n\<rparr>)"
    using sample_probe_ok by (simp add: probe_ok_def)
  moreover have "influx_ok (ac_influx sample_config)"
    by (simp add: sample_config_def influx_ok_def default_influx_def is_http_url_def starts_with_def lit_simps)
  moreover have "listeners_ok (sample_config\<lparr>ac_probes := ps\<rparr>) localhost_v4 localhost_v4" for ps
    by (simp add: sample_config_def listeners_ok_def listeners_def default_ui_def default_metrics_def
        default_health_def)
  moreover have "parse_ip (uc_bind (ac_ui sample_config)) = Some localhost_v4"
    "parse_ip (mc_bind (ac_metrics sample_config)) = Some localhost_v4"
    "0 < ac_event_hub_capacity sample_config"
    by (simp_all add: sample_config_def default_ui_def default_metrics_def parse_loopback default_hub_capacity_def)
  ultimately have "config_ok (sample_config\<lparr>ac_probes := [sample_probe\<lparr>pc_name := n\<rparr>]\<rparr>)"
    by (simp add: config_ok_def)
  then show ?thesis
    unfolding validate_def config_ok_def and_then_Inr_iff validate_influx_iff check_hub_capacity_def
      fail_if_Inr_iff ok_or_Inr_iff validate_listeners_iff validate_probes_iff word_pos_iff
    by (auto simp: validate_influx_iff validate_listeners_iff)
qed

lemma sample_config_ok: "validate sample_config = Inr ()"
proof -
  have "sample_config = sample_config\<lparr>ac_probes := [sample_probe\<lparr>pc_name := lit ''web''\<rparr>]\<rparr>"
    by (simp add: sample_config_def sample_probe_def default_probe_def)
  then show ?thesis using sample_config_rename [of "lit ''web''"] by simp
qed

end
