(* ===== verification/Probe_Io.thy ===== *)
theory Probe_Io
  imports App_Config
begin

text \<open>
  What the probes share, from \<open>huginn-probes/src/lib.rs\<close>: the overall deadline around a future and the
  bounded reading of a greeting line. A future is when it becomes ready, if ever, and what it then
  yields; a connection is the sequence of its reads. The lemmas bound the time a probe can take and show
  that what is concluded from a greeting depends on the bytes the peer sent, not on how TCP cut them up.
\<close>

section \<open>Futures and the deadline\<close>

text \<open>
  Times are in nanoseconds. An error is the text its \<open>Display\<close> gives.
\<close>

record 'a future =
  ft_ready :: "nat option"
  ft_result :: "rstr + 'a"

definition never :: "'a future" where
  "never = \<lparr>ft_ready = None, ft_result = Inl []\<rparr>"

definition ready_at :: "nat \<Rightarrow> rstr + 'a \<Rightarrow> 'a future" where
  "ready_at t r = \<lparr>ft_ready = Some t, ft_result = r\<rparr>"

definition delayed :: "nat \<Rightarrow> 'a future \<Rightarrow> 'a future" where
  "delayed t f = f\<lparr>ft_ready := map_option (\<lambda>s. t + s) (ft_ready f)\<rparr>"

text \<open>\<open>async { let x = f.await?; k(x).await }\<close>\<close>

definition future_then :: "'a future \<Rightarrow> ('a \<Rightarrow> 'b future) \<Rightarrow> 'b future" where
  "future_then f k =
     (case ft_ready f of
        None \<Rightarrow> never
      | Some t \<Rightarrow>
          (case ft_result f of
             Inl e \<Rightarrow> ready_at t (Inl e)
           | Inr a \<Rightarrow> delayed t (k a)))"

text \<open>
  The result and the time it took. A future that is ready by the deadline is polled first, so it wins.
\<close>

definition with_probe_timeout :: "duration \<Rightarrow> rstr \<Rightarrow> 'a future \<Rightarrow> (rstr + 'a) \<times> nat" where
  "with_probe_timeout limit timeout_msg f =
     (case ft_ready f of
        Some t \<Rightarrow> if t \<le> limit then (ft_result f, t) else (Inl timeout_msg, limit)
      | None \<Rightarrow> (Inl timeout_msg, limit))"

definition timeout_text :: "probe_config \<Rightarrow> rstr" where
  "timeout_text cfg = lit ''timeout after '' @ show_nat (unat (pc_timeout_secs cfg)) @ lit ''s''"

text \<open>\<open>elapsed().as_secs_f64() * 1000.0\<close>\<close>

definition elapsed_ms :: "nat \<Rightarrow> f64" where
  "elapsed_ms t =
     f64_mul (f64_add (f64_of_nat (t div 1000000000)) (f64_div (f64_of_nat (t mod 1000000000)) (f64_of_nat 1000000000)))
       (f64_of_nat 1000)"

lemma timeout_bounds_time: "snd (with_probe_timeout d msg f) \<le> d"
  by (simp add: with_probe_timeout_def split: option.split)

text \<open>In time: ready by the deadline.\<close>

definition in_time :: "duration \<Rightarrow> 'a future \<Rightarrow> bool" where
  "in_time d f \<longleftrightarrow> (\<exists>t. ft_ready f = Some t \<and> t \<le> d)"

lemma with_timeout_Inr_iff:
  "fst (with_probe_timeout d msg f) = Inr a \<longleftrightarrow> in_time d f \<and> ft_result f = Inr a"
  by (auto simp: with_probe_timeout_def in_time_def split: option.splits if_splits)

lemma with_timeout_cases:
  obtains (ok) a where "fst (with_probe_timeout d msg f) = Inr a" "in_time d f" "ft_result f = Inr a"
  | (failed) e where "fst (with_probe_timeout d msg f) = Inl e" "\<nexists>a. in_time d f \<and> ft_result f = Inr a"
proof (cases "fst (with_probe_timeout d msg f)")
  case (Inl e)
  then have "\<nexists>a. fst (with_probe_timeout d msg f) = Inr a" by simp
  then have "\<nexists>a. in_time d f \<and> ft_result f = Inr a" unfolding with_timeout_Inr_iff .
  with Inl show thesis by (rule failed)
next
  case (Inr a)
  then have "in_time d f \<and> ft_result f = Inr a" unfolding with_timeout_Inr_iff .
  with Inr show thesis by (intro ok [of a]) simp_all
qed

section \<open>Greeting lines\<close>

definition max_greeting_bytes :: nat where
  "max_greeting_bytes = 512"

text \<open>
  The reads of a connection: how long each waits and its outcome, at most as many bytes as the buffer
  holds; no bytes means that the peer closed. After the last entry nothing more arrives.
\<close>

type_synonym reads = "(nat \<times> (rstr + u8 list)) list"

definition read_buffer_size :: nat where
  "read_buffer_size = 128"

definition reads_ok :: "reads \<Rightarrow> bool" where
  "reads_ok rs \<longleftrightarrow> (\<forall>bs. Inr bs \<in> snd ` set rs \<longrightarrow> length bs \<le> read_buffer_size)"

definition finish_greeting :: "u8 list \<Rightarrow> rstr" where
  "finish_greeting collected = utf8_lossy (take max_greeting_bytes collected)"

fun read_greeting_from :: "nat \<Rightarrow> u8 list \<Rightarrow> reads \<Rightarrow> rstr future" where
  "read_greeting_from now collected [] = never"
| "read_greeting_from now collected ((t, Inl e) # rest) = ready_at (now + t) (Inl e)"
| "read_greeting_from now collected ((t, Inr bytes) # rest) =
     (if bytes = [] then ready_at (now + t) (Inr (finish_greeting collected))
      else
        let collected' = collected @ bytes
        in if 10 \<in> set collected' \<or> max_greeting_bytes \<le> length collected'
           then ready_at (now + t) (Inr (finish_greeting collected'))
           else read_greeting_from (now + t) collected' rest)"

definition read_greeting_line :: "reads \<Rightarrow> rstr future" where
  "read_greeting_line rs = read_greeting_from 0 [] rs"

text \<open>What the peer sent before it closed.\<close>

fun sent :: "reads \<Rightarrow> u8 list" where
  "sent [] = []"
| "sent ((t, Inl e) # rest) = []"
| "sent ((t, Inr bytes) # rest) = (if bytes = [] then [] else bytes @ sent rest)"

lemma decode_step_ascii: "a < 0x80 \<Longrightarrow> decode_step a bs = (a, 0)"
  by (simp add: decode_step_def)

lemma decode_lossy_head:
  "decode_lossy (a # bs) = fst (decode_step a bs) # decode_lossy (drop (snd (decode_step a bs)) bs)"
  by (simp add: decode_lossy.simps(2) case_prod_unfold Let_def)

lemma decode_step_not_ascii:
  assumes "0x80 \<le> a" shows "0x80 \<le> fst (decode_step a bs)"
proof -
  have e0: "0x80 \<le> (a - 0xE0) * 4096 + (b - 0x80) * 64 + (c - 0x80)"
    if "0xE0 \<le> a" "second_ok3 a b" for b c
  proof (cases "a = 0xE0")
    case True
    with that(2) have "0x20 \<le> b - 0x80" by (auto simp: second_ok3_def)
    then have "0x20 * 64 \<le> (b - 0x80) * 64" by (rule mult_le_mono1)
    then show ?thesis by linarith
  next
    case False
    with that(1) have "1 \<le> a - 0xE0" by simp
    then have "1 * 4096 \<le> (a - 0xE0) * 4096" by (rule mult_le_mono1)
    then show ?thesis by linarith
  qed
  have f0: "0x80 \<le> (a - 0xF0) * 262144 + (b - 0x80) * 4096 + (c - 0x80) * 64 + (d - 0x80)"
    if "0xF0 \<le> a" "second_ok4 a b" for b c d
  proof (cases "a = 0xF0")
    case True
    with that(2) have "0x10 \<le> b - 0x80" by (auto simp: second_ok4_def)
    then have "0x10 * 4096 \<le> (b - 0x80) * 4096" by (rule mult_le_mono1)
    then show ?thesis by linarith
  next
    case False
    with that(1) have "1 \<le> a - 0xF0" by simp
    then have "1 * 262144 \<le> (a - 0xF0) * 262144" by (rule mult_le_mono1)
    then show ?thesis by linarith
  qed
  have c2: "0x80 \<le> (a - 0xC0) * 64 + (b - 0x80)" if "0xC2 \<le> a" for b
  proof -
    have "2 \<le> a - 0xC0" using that by simp
    then have "2 * 64 \<le> (a - 0xC0) * 64" by (rule mult_le_mono1)
    then show ?thesis by linarith
  qed
  show ?thesis
    using assms e0 f0 c2 by (simp add: decode_step_def Let_def replacement_char_def)
qed

text \<open>A text of ASCII characters is a prefix of the decoded bytes exactly when its bytes are a prefix.\<close>

lemma decode_lossy_ascii_prefix:
  assumes "list_all (\<lambda>c. c < 0x80) p"
  shows "starts_with (decode_lossy bs) p \<longleftrightarrow> take (length p) bs = p"
  using assms
proof (induction p arbitrary: bs)
  case Nil
  then show ?case by (simp add: starts_with_def)
next
  case (Cons c p)
  show ?case
  proof (cases bs)
    case Nil
    then show ?thesis by (simp add: starts_with_def)
  next
    case (Cons b bs')
    show ?thesis
    proof (cases "b < 0x80")
      case True
      then show ?thesis
        using Cons Cons.IH [of bs'] Cons.prems
        by (simp add: decode_lossy_head decode_step_ascii starts_with_def)
    next
      case False
      then have "c \<noteq> fst (decode_step b bs')" "b \<noteq> c"
        using decode_step_not_ascii [of b bs'] Cons.prems by auto
      then show ?thesis using False Cons by (auto simp: decode_lossy_head starts_with_def)
    qed
  qed
qed

lemma length_decode_lossy: "length (decode_lossy bs) \<le> length bs"
proof (induction bs rule: length_induct)
  case (1 bs)
  show ?case
  proof (cases bs)
    case (Cons a bs')
    let ?n = "snd (decode_step a bs')"
    have "length (drop ?n bs') < length bs" using Cons by simp
    then have "length (decode_lossy (drop ?n bs')) \<le> length bs'"
      using "1.IH" by (metis le_trans length_drop diff_le_self)
    then show ?thesis using Cons by (simp add: decode_lossy_head)
  qed simp
qed

text \<open>Whatever the reads were: the line read starts with \<open>p\<close> exactly when what the peer sent does.\<close>

lemma finish_greeting_prefix:
  assumes "list_all (\<lambda>c. c < 0x80) p" "length p \<le> max_greeting_bytes"
  shows "starts_with (finish_greeting bs) p \<longleftrightarrow> take (length p) (map unat bs) = p"
  using assms
  by (simp add: finish_greeting_def utf8_lossy_def decode_lossy_ascii_prefix take_map min_absorb1)

lemma read_greeting_from_prefix:
  assumes "list_all (\<lambda>c. c < 0x80) p" "length p \<le> max_greeting_bytes" "10 \<notin> set p"
    and "ft_ready (read_greeting_from now col rs) = Some t"
    and "ft_result (read_greeting_from now col rs) = Inr s"
  shows "starts_with s p \<longleftrightarrow> take (length p) (map unat (col @ sent rs)) = p"
  using assms(4,5)
proof (induction now col rs rule: read_greeting_from.induct)
  case (1 now col)
  then show ?case by (simp add: never_def)
next
  case (2 now col t' e rest)
  then show ?case by (simp add: ready_at_def)
next
  case (3 now col t' bytes rest)
  let ?x = "col @ bytes"
  consider (eof) "bytes = []" | (stop) "bytes \<noteq> []" "10 \<in> set ?x \<or> max_greeting_bytes \<le> length ?x"
    | (more) "bytes \<noteq> []" "\<not> (10 \<in> set ?x \<or> max_greeting_bytes \<le> length ?x)" by blast
  then show ?case
  proof cases
    case eof
    with "3.prems" have "s = finish_greeting col" by (simp add: ready_at_def)
    with eof show ?thesis by (simp add: finish_greeting_prefix [OF assms(1,2)])
  next
    case stop
    then have s: "s = finish_greeting ?x" using "3.prems"(2) by (simp add: ready_at_def)
    show ?thesis
    proof (cases "length p \<le> length ?x")
      case True
      with stop(1) show ?thesis by (simp add: s finish_greeting_prefix [OF assms(1,2)])
    next
      case False
      with stop(2) assms(2) have nl: "10 \<in> set (map unat ?x)" by force
      have "take (length p) (map unat ?x) \<noteq> p"
      proof
        assume "take (length p) (map unat ?x) = p"
        then have "length (take (length p) (map unat ?x)) = length p" by (rule arg_cong)
        with False show False by simp
      qed
      moreover have "take (length p) (map unat (?x @ sent rest)) \<noteq> p"
      proof
        assume "take (length p) (map unat (?x @ sent rest)) = p"
        moreover have "set (map unat ?x) \<subseteq> set (take (length p) (map unat (?x @ sent rest)))"
          using False by (auto simp: take_append)
        ultimately show False using nl assms(3) by auto
      qed
      ultimately show ?thesis using stop(1) by (simp add: s finish_greeting_prefix [OF assms(1,2)])
    qed
  next
    case more
    with "3.IH" "3.prems" show ?thesis by simp
  qed
qed

lemma read_greeting_prefix:
  assumes "list_all (\<lambda>c. c < 0x80) p" "length p \<le> max_greeting_bytes" "10 \<notin> set p"
    and "ft_ready (read_greeting_line rs) = Some t" and "ft_result (read_greeting_line rs) = Inr s"
  shows "starts_with s p \<longleftrightarrow> take (length p) (map unat (sent rs)) = p"
  using read_greeting_from_prefix [OF assms(1-3), of 0 "[]" rs t s] assms(4,5)
  by (simp add: read_greeting_line_def)

text \<open>Memory: what is collected never exceeds the limit by a whole read buffer, and the line not at all.\<close>

fun greeting_peak :: "u8 list \<Rightarrow> reads \<Rightarrow> nat" where
  "greeting_peak collected [] = length collected"
| "greeting_peak collected ((t, Inl e) # rest) = length collected"
| "greeting_peak collected ((t, Inr bytes) # rest) =
     (if bytes = [] then length collected
      else
        let collected' = collected @ bytes
        in if 10 \<in> set collected' \<or> max_greeting_bytes \<le> length collected' then length collected'
           else greeting_peak collected' rest)"

lemma greeting_peak_bound:
  assumes "reads_ok rs" "length collected < max_greeting_bytes"
  shows "greeting_peak collected rs < max_greeting_bytes + read_buffer_size"
  using assms
proof (induction collected rs rule: greeting_peak.induct)
  case (3 collected t bytes rest)
  have len: "length bytes \<le> read_buffer_size" and ok: "reads_ok rest"
    using "3.prems"(1) by (auto simp: reads_ok_def)
  show ?case
  proof (cases "bytes = [] \<or> 10 \<in> set (collected @ bytes) \<or> max_greeting_bytes \<le> length (collected @ bytes)")
    case True
    with "3.prems"(2) len show ?thesis by (auto simp: read_buffer_size_def)
  next
    case False
    with "3.IH" ok show ?thesis by simp
  qed
qed (simp_all add: read_buffer_size_def)

lemma length_finish_greeting: "length (finish_greeting bs) \<le> max_greeting_bytes"
  using length_decode_lossy [of "map unat (take max_greeting_bytes bs)"]
  by (simp add: finish_greeting_def utf8_lossy_def)



end
