(* ===== verification/Probe_Clients.thy ===== *)
theory Probe_Clients
  imports Probe_Io
begin

text \<open>
  The clients the probes own and how they are configured: \<open>build_resolver\<close> of \<open>huginn-probes/src/dns.rs\<close>,
  \<open>build_client\<close> of \<open>http.rs\<close>, and \<open>build_tls_config\<close> of \<open>tls.rs\<close> with its certificate verifier. The
  libraries behind them are one record of arguments, \<open>client_libs\<close>: the default values they hand out and
  the constructors that can fail. Of a library's configuration only the fields the program sets are
  fields here; whatever else the library keeps in it is an opaque code.
\<close>

type_synonym opaque = nat

section \<open>Configurations of the three libraries\<close>

record connection_config =
  cn_port :: u16
  cn_rest :: opaque

record name_server_config =
  ns_ip :: ip_addr
  ns_connections :: "connection_config list"
  ns_trust_negative_responses :: bool
  ns_rest :: opaque

record resolver_config =
  rc_name_servers :: "name_server_config list"
  rc_rest :: opaque

datatype ip_strategy = Ipv4thenIpv6 | Other_Strategy opaque

record resolver_opts =
  ro_timeout :: duration
  ro_attempts :: u64
  ro_ip_strategy :: ip_strategy
  ro_rest :: opaque

type_synonym resolver = "resolver_config \<times> resolver_opts"

datatype redirect_policy = No_Redirects | Other_Redirects opaque

record http_client =
  hcl_rustls :: bool
  hcl_redirect :: redirect_policy
  hcl_rest :: opaque

type_synonym certificate = "u8 list"
type_synonym signature_scheme = u16

record signed_struct =
  ds_scheme :: signature_scheme
  ds_signature :: "u8 list"

record cert_verifier =
  cv_server_cert :: "certificate \<Rightarrow> certificate list \<Rightarrow> rstr \<Rightarrow> u8 list \<Rightarrow> nat \<Rightarrow> rstr + unit"
  cv_tls12_signature :: "u8 list \<Rightarrow> certificate \<Rightarrow> signed_struct \<Rightarrow> rstr + unit"
  cv_tls13_signature :: "u8 list \<Rightarrow> certificate \<Rightarrow> signed_struct \<Rightarrow> rstr + unit"
  cv_schemes :: "signature_scheme list"

record crypto_provider =
  cp_signature_schemes :: "signature_scheme list"
  cp_rest :: opaque

record tls_config =
  tc_provider :: crypto_provider
  tc_versions :: opaque
  tc_verifier :: cert_verifier
  tc_client_auth :: bool

text \<open>
  \<open>ConnectionConfig::udp\<close>, \<open>NameServerConfig::udp\<close>, the resolver's defaults and its builder; the HTTP
  client's builder and \<open>build\<close>; rustls' provider and \<open>with_safe_default_protocol_versions\<close>.
\<close>

record client_libs =
  cl_udp_connection :: connection_config
  cl_udp_name_server :: "ip_addr \<Rightarrow> name_server_config"
  cl_resolver_config :: resolver_config
  cl_resolver_opts :: resolver_opts
  cl_build_resolver :: "resolver \<Rightarrow> rstr + unit"
  cl_http_builder :: http_client
  cl_build_http :: "http_client \<Rightarrow> rstr + unit"
  cl_ring_provider :: crypto_provider
  cl_safe_versions :: "crypto_provider \<Rightarrow> rstr + opaque"

section \<open>Building them\<close>

definition build_resolver :: "client_libs \<Rightarrow> ip_addr \<times> nat \<Rightarrow> u64 \<Rightarrow> rstr + resolver" where
  "build_resolver libs nameserver timeout_secs =
     (let connection = (cl_udp_connection libs)\<lparr>cn_port := word_of_nat (snd nameserver)\<rparr>;
          name_server = (cl_udp_name_server libs (fst nameserver))
            \<lparr>ns_connections := [connection], ns_trust_negative_responses := False\<rparr>;
          config = (cl_resolver_config libs)
            \<lparr>rc_name_servers := rc_name_servers (cl_resolver_config libs) @ [name_server]\<rparr>;
          opts = (cl_resolver_opts libs)
            \<lparr>ro_timeout := duration_from_secs timeout_secs, ro_attempts := 1, ro_ip_strategy := Ipv4thenIpv6\<rparr>
      in and_then (cl_build_resolver libs (config, opts)) (\<lambda>_. Inr (config, opts)))"

definition build_client :: "client_libs \<Rightarrow> rstr + http_client" where
  "build_client libs =
     (let client = (cl_http_builder libs)\<lparr>hcl_rustls := True, hcl_redirect := No_Redirects\<rparr>
      in and_then (cl_build_http libs client) (\<lambda>_. Inr client))"

text \<open>The verifier that verifies nothing, of the provider's signature schemes.\<close>

definition verify_server_cert ::
    "certificate \<Rightarrow> certificate list \<Rightarrow> rstr \<Rightarrow> u8 list \<Rightarrow> nat \<Rightarrow> rstr + unit" where
  "verify_server_cert end_entity intermediates server_name ocsp_response now = Inr ()"

definition verify_tls12_signature :: "u8 list \<Rightarrow> certificate \<Rightarrow> signed_struct \<Rightarrow> rstr + unit" where
  "verify_tls12_signature message cert dss = Inr ()"

definition verify_tls13_signature :: "u8 list \<Rightarrow> certificate \<Rightarrow> signed_struct \<Rightarrow> rstr + unit" where
  "verify_tls13_signature message cert dss = Inr ()"

definition read_only_cert_verifier :: "signature_scheme list \<Rightarrow> cert_verifier" where
  "read_only_cert_verifier supported =
     \<lparr>cv_server_cert = verify_server_cert, cv_tls12_signature = verify_tls12_signature,
      cv_tls13_signature = verify_tls13_signature, cv_schemes = supported\<rparr>"

definition build_tls_config :: "client_libs \<Rightarrow> rstr + tls_config" where
  "build_tls_config libs =
     (let provider = cl_ring_provider libs; supported = cp_signature_schemes provider
      in and_then (cl_safe_versions libs provider) (\<lambda>versions.
         Inr \<lparr>tc_provider = provider, tc_versions = versions, tc_verifier = read_only_cert_verifier supported,
              tc_client_auth = False\<rparr>))"

section \<open>One nameserver, one attempt\<close>

text \<open>
  What hickory documents of the values \<open>build_resolver\<close> starts from: the default configuration names no
  server, and a nameserver is made for the address it is given.
\<close>

definition resolver_defaults_law :: "client_libs \<Rightarrow> bool" where
  "resolver_defaults_law libs \<longleftrightarrow>
     rc_name_servers (cl_resolver_config libs) = [] \<and> (\<forall>ip. ns_ip (cl_udp_name_server libs ip) = ip)"

text \<open>The sockets a resolver sends its queries to.\<close>

definition query_targets :: "resolver \<Rightarrow> (ip_addr \<times> nat) list" where
  "query_targets r =
     concat (map (\<lambda>ns. map (\<lambda>cn. (ns_ip ns, unat (cn_port cn))) (ns_connections ns)) (rc_name_servers (fst r)))"

lemma resolver_asks_the_target_only:
  assumes "resolver_defaults_law libs" "build_resolver libs nameserver secs = Inr r" "snd nameserver < 2 ^ 16"
  shows "query_targets r = [nameserver]"
  using assms
  by (auto simp: build_resolver_def resolver_defaults_law_def query_targets_def Let_def and_then_def
      unsigned_of_nat take_bit_nat_eq_self split: sum.splits)

section \<open>A handshake\<close>

text \<open>
  What the peer presents while the handshake runs: its chain with the stapled OCSP answer, and the signed
  transcript of the protocol version that was negotiated.
\<close>

record presented =
  pt_chain :: "certificate list"
  pt_ocsp :: "u8 list"
  pt_time :: nat
  pt_tls13 :: bool
  pt_message :: "u8 list"
  pt_signed :: signed_struct

text \<open>
  rustls completes the handshake if the verifier accepts the leaf and then the signature, and hands the
  chain to the caller; a refusal of either, or a peer without a certificate, ends it with an error.
\<close>

definition judge_presented :: "cert_verifier \<Rightarrow> rstr \<Rightarrow> rstr \<Rightarrow> presented \<Rightarrow> rstr + certificate list option" where
  "judge_presented v no_cert host p =
     (case pt_chain p of
        [] \<Rightarrow> Inl no_cert
      | leaf # rest \<Rightarrow>
          and_then (cv_server_cert v leaf rest host (pt_ocsp p) (pt_time p)) (\<lambda>_.
          and_then ((if pt_tls13 p then cv_tls13_signature v else cv_tls12_signature v)
                      (pt_message p) leaf (pt_signed p)) (\<lambda>_.
          Inr (Some (leaf # rest)))))"

lemma read_only_verifier_accepts:
  "judge_presented (read_only_cert_verifier supported) no_cert host p =
     (if pt_chain p = [] then Inl no_cert else Inr (Some (pt_chain p)))"
  by (simp add: judge_presented_def read_only_cert_verifier_def verify_server_cert_def
      verify_tls12_signature_def verify_tls13_signature_def and_then_def split: list.split)

lemma build_client_Inr:
  "build_client libs = Inr client \<Longrightarrow> hcl_redirect client = No_Redirects \<and> hcl_rustls client"
  by (auto simp: build_client_def Let_def and_then_def split: sum.splits)

lemma build_tls_config_Inr:
  "build_tls_config libs = Inr c \<Longrightarrow>
     tc_verifier c = read_only_cert_verifier (cp_signature_schemes (cl_ring_provider libs))"
  by (auto simp: build_tls_config_def Let_def and_then_def split: sum.splits)

section \<open>Libraries that always build\<close>

definition plain_libs :: client_libs where
  "plain_libs =
     \<lparr>cl_udp_connection = \<lparr>cn_port = 53, cn_rest = 0\<rparr>,
      cl_udp_name_server = (\<lambda>ip. \<lparr>ns_ip = ip, ns_connections = [\<lparr>cn_port = 53, cn_rest = 0\<rparr>],
        ns_trust_negative_responses = True, ns_rest = 0\<rparr>),
      cl_resolver_config = \<lparr>rc_name_servers = [], rc_rest = 0\<rparr>,
      cl_resolver_opts = \<lparr>ro_timeout = 5000000000, ro_attempts = 2, ro_ip_strategy = Other_Strategy 0, ro_rest = 0\<rparr>,
      cl_build_resolver = (\<lambda>_. Inr ()),
      cl_http_builder = \<lparr>hcl_rustls = False, hcl_redirect = Other_Redirects 10, hcl_rest = 0\<rparr>,
      cl_build_http = (\<lambda>_. Inr ()),
      cl_ring_provider = \<lparr>cp_signature_schemes = [0x0804], cp_rest = 0\<rparr>,
      cl_safe_versions = (\<lambda>_. Inr 0)\<rparr>"

lemma plain_libs_build:
  "\<exists>c. build_client plain_libs = Inr c" "\<exists>c. build_tls_config plain_libs = Inr c"
  "\<exists>r. build_resolver plain_libs ns secs = Inr r"
  by (simp_all add: plain_libs_def build_client_def build_tls_config_def build_resolver_def Let_def and_then_def)

end
