(* ===== verification/Probes.thy ===== *)
theory Probes
  imports Probe_Clients
begin

text \<open>
  The probes of \<open>huginn-probes\<close>: TCP, HTTP and HTTPS, SMTP, IMAP, UDP, DNS and TLS, each from its own
  file, and \<open>registry.rs\<close>, which builds the clients once and dispatches. The network, the resolver, the
  HTTP and TLS stacks, the certificate parser and the clock are one record of arguments, \<open>probe_env\<close>. A probe gives its result and
  the time it took. The lemmas: every probe yields a well-formed result about its own configuration,
  within its deadline (UDP: within two), and is UP exactly on the condition its protocol states.
\<close>

section \<open>The environment of a run\<close>

type_synonym socket_addr = "ip_addr \<times> nat"

text \<open>
  Readings of the clock; \<open>TcpStream::connect\<close> and the reads of the connection; name resolution and the
  UDP socket calls with the time each takes; the client libraries; what a resolver answers, the status an
  HTTP client gets, and the certificate chain a TLS handshake ends with, each as a function of the client
  the program has configured; the server names rustls accepts; and the \<open>notAfter\<close> of a certificate.
\<close>

record probe_env =
  pe_now :: datetime
  pe_cert_now :: datetime
  pe_connect :: "rstr \<Rightarrow> unit future"
  pe_reads :: "rstr \<Rightarrow> reads"
  pe_lookup_host :: "rstr \<Rightarrow> socket_addr list future"
  pe_udp_bind :: "rstr \<Rightarrow> nat \<times> (rstr + unit)"
  pe_udp_connect :: "socket_addr \<Rightarrow> nat \<times> (rstr + unit)"
  pe_udp_send :: "u8 list \<Rightarrow> nat \<times> (rstr + unit)"
  pe_udp_recv :: "nat future"
  pe_socket_addr_error :: rstr
  pe_libs :: client_libs
  pe_lookup_ip :: "resolver \<Rightarrow> rstr \<Rightarrow> ip_addr list future"
  pe_http_get :: "http_client \<Rightarrow> rstr \<Rightarrow> u16 future"
  pe_server_name_ok :: "rstr \<Rightarrow> bool"
  pe_handshake :: "tls_config \<Rightarrow> rstr \<Rightarrow> rstr \<Rightarrow> certificate list option future"
  pe_not_after :: "u8 list \<Rightarrow> rstr + int"

text \<open>The result of a run with a single deadline.\<close>

definition succeed :: "probe_env \<Rightarrow> probe_config \<Rightarrow> rstr \<Rightarrow> nat \<Rightarrow> u16 option \<Rightarrow> probe_result \<times> nat" where
  "succeed e cfg kind t code = (result_success (pe_now e) (pc_name cfg) kind (pc_target cfg) (elapsed_ms t) code, t)"

definition fail_with :: "probe_env \<Rightarrow> probe_config \<Rightarrow> rstr \<Rightarrow> nat \<Rightarrow> rstr \<Rightarrow> probe_result \<times> nat" where
  "fail_with e cfg kind t msg = (result_failure (pe_now e) (pc_name cfg) kind (pc_target cfg) (elapsed_ms t) msg, t)"

section \<open>TCP, SMTP and IMAP\<close>

definition tcp_probe :: "probe_env \<Rightarrow> probe_config \<Rightarrow> probe_result \<times> nat" where
  "tcp_probe e cfg =
     (let (r, t) = with_probe_timeout (probe_timeout cfg) (timeout_text cfg) (pe_connect e (pc_target cfg))
      in case r of
           Inr _ \<Rightarrow> succeed e cfg (lit ''tcp'') t None
         | Inl msg \<Rightarrow> fail_with e cfg (lit ''tcp'') t msg)"

definition connect_and_greet :: "probe_env \<Rightarrow> rstr \<Rightarrow> rstr future" where
  "connect_and_greet e target =
     future_then (pe_connect e target) (\<lambda>_. read_greeting_line (pe_reads e target))"

definition smtp_probe :: "probe_env \<Rightarrow> probe_config \<Rightarrow> probe_result \<times> nat" where
  "smtp_probe e cfg =
     (let (outcome, t) = with_probe_timeout (probe_timeout cfg) (timeout_text cfg)
                           (connect_and_greet e (pc_target cfg));
          fail = fail_with e cfg (lit ''smtp'') t
      in case outcome of
           Inr banner \<Rightarrow>
             if starts_with banner (lit ''220'') then succeed e cfg (lit ''smtp'') t None
             else if banner = [] then fail (lit ''empty banner'')
             else fail (lit ''unexpected banner: '' @ trim banner)
         | Inl msg \<Rightarrow> fail msg)"

definition imap_probe :: "probe_env \<Rightarrow> probe_config \<Rightarrow> probe_result \<times> nat" where
  "imap_probe e cfg =
     (let (outcome, t) = with_probe_timeout (probe_timeout cfg) (timeout_text cfg)
                           (connect_and_greet e (pc_target cfg));
          fail = fail_with e cfg (lit ''imap'') t
      in case outcome of
           Inr greeting \<Rightarrow>
             if starts_with greeting (lit ''* OK'') then succeed e cfg (lit ''imap'') t None
             else if greeting = [] then fail (lit ''empty greeting'')
             else fail (lit ''unexpected greeting: '' @ trim greeting)
         | Inl msg \<Rightarrow> fail msg)"

section \<open>UDP\<close>

definition udp_query :: "u8 list" where
  "udp_query = [0xAA, 0xBB, 0x01, 0x00, 0x00, 0x01, 0x00, 0x00, 0x00, 0x00, 0x00, 0x00, 0x00, 0x00, 0x01, 0x00, 0x01]"

definition udp_bind_addr :: "socket_addr \<Rightarrow> rstr" where
  "udp_bind_addr addr = (if is_ipv6 (fst addr) then lit ''[::]:0'' else lit ''0.0.0.0:0'')"

text \<open>From the resolved address on; \<open>t\<close> is the time spent so far.\<close>

definition udp_exchange :: "probe_env \<Rightarrow> probe_config \<Rightarrow> nat \<Rightarrow> socket_addr \<Rightarrow> probe_result \<times> nat" where
  "udp_exchange e cfg t addr =
     (let fail = fail_with e cfg (lit ''udp'');
          (dt, bound) = pe_udp_bind e (udp_bind_addr addr); t = t + dt
      in case bound of Inl msg \<Rightarrow> fail t msg
       | Inr _ \<Rightarrow>
         let (dt, connected) = pe_udp_connect e addr; t = t + dt
         in case connected of Inl msg \<Rightarrow> fail t msg
          | Inr _ \<Rightarrow>
            let (dt, sent) = pe_udp_send e udp_query; t = t + dt
            in case sent of Inl msg \<Rightarrow> fail t msg
             | Inr _ \<Rightarrow>
               let (recv, dt) = with_probe_timeout (probe_timeout cfg) (timeout_text cfg) (pe_udp_recv e);
                   t = t + dt
               in case recv of
                    Inr n \<Rightarrow> if 0 < n then succeed e cfg (lit ''udp'') t None else fail t (lit ''empty response'')
                  | Inl msg \<Rightarrow> fail t msg)"

definition udp_probe :: "probe_env \<Rightarrow> probe_config \<Rightarrow> probe_result \<times> nat" where
  "udp_probe e cfg =
     (let (r, t) = with_probe_timeout (probe_timeout cfg) (timeout_text cfg) (pe_lookup_host e (pc_target cfg))
      in case r of
           Inl msg \<Rightarrow> fail_with e cfg (lit ''udp'') t msg
         | Inr [] \<Rightarrow> fail_with e cfg (lit ''udp'') t (lit ''no address resolved'')
         | Inr (addr # _) \<Rightarrow> udp_exchange e cfg t addr)"

section \<open>DNS\<close>

definition debug_ip_list :: "ip_addr list \<Rightarrow> rstr" where
  "debug_ip_list ips = [91] @ join (lit '', '') (map show_ip ips) @ [93]"

definition dns_verdict :: "probe_env \<Rightarrow> probe_config \<Rightarrow> nat \<Rightarrow> ip_addr list \<Rightarrow> probe_result \<times> nat" where
  "dns_verdict e cfg t resolved =
     (case pc_dns_expected_ip cfg of
        None \<Rightarrow> succeed e cfg (lit ''dns'') t None
      | Some expected \<Rightarrow>
          (case parse_ip expected of
             None \<Rightarrow> fail_with e cfg (lit ''dns'') t (lit ''invalid dns_expected_ip: '' @ expected)
           | Some ip \<Rightarrow>
               if ip \<notin> set resolved
               then fail_with e cfg (lit ''dns'') t
                      (lit ''expected IP '' @ show_ip ip @ lit '' not in response: '' @ debug_ip_list resolved)
               else succeed e cfg (lit ''dns'') t None))"

definition fail_at_once :: "probe_env \<Rightarrow> probe_config \<Rightarrow> rstr \<Rightarrow> rstr \<Rightarrow> probe_result \<times> nat" where
  "fail_at_once e cfg kind msg =
     (result_failure (pe_now e) (pc_name cfg) kind (pc_target cfg) f64_zero msg, 0)"

definition dns_probe :: "probe_env \<Rightarrow> probe_config \<Rightarrow> probe_result \<times> nat" where
  "dns_probe e cfg =
     (let query = unwrap_or (pc_dns_query cfg) (lit ''example.com'')
      in case parse_socket_addr (pc_target cfg) of
           None \<Rightarrow> fail_at_once e cfg (lit ''dns'') (lit ''invalid target address: '' @ pe_socket_addr_error e)
         | Some nameserver \<Rightarrow>
             (case build_resolver (pe_libs e) nameserver (pc_timeout_secs cfg) of
                Inl msg \<Rightarrow> fail_at_once e cfg (lit ''dns'') (lit ''resolver setup failed: '' @ msg)
              | Inr resolver \<Rightarrow>
                  (let (r, t) = with_probe_timeout (probe_timeout cfg) (timeout_text cfg)
                                  (pe_lookup_ip e resolver query)
                   in case r of
                        Inl msg \<Rightarrow> fail_with e cfg (lit ''dns'') t msg
                      | Inr resolved \<Rightarrow> dns_verdict e cfg t resolved)))"

section \<open>HTTP\<close>

definition http_get_probe :: "probe_env \<Rightarrow> probe_config \<Rightarrow> http_client \<Rightarrow> probe_result \<times> nat" where
  "http_get_probe e cfg client =
     (let expected = unwrap_or (pc_expected_status cfg) 200;
          kind = show_probe_type (pc_probe_type cfg);
          (r, t) = with_probe_timeout (probe_timeout cfg) (timeout_text cfg) (pe_http_get e client (pc_target cfg))
      in case r of
           Inr status \<Rightarrow>
             if status = expected then succeed e cfg kind t (Some status)
             else fail_with e cfg kind t
                    (lit ''unexpected status '' @ show_nat (unat status) @ lit '', expected '' @
                     show_nat (unat expected))
         | Inl msg \<Rightarrow> fail_with e cfg kind t msg)"

text \<open>\<open>HttpProbe\<close> owns its client, or why there is none.\<close>

type_synonym http_probe_state = "rstr + http_client"

definition http_probe_new :: "client_libs \<Rightarrow> http_probe_state" where
  "http_probe_new libs = map_err (\<lambda>m. lit ''could not build an HTTP client: '' @ m) (build_client libs)"

definition http_probe :: "http_probe_state \<Rightarrow> probe_env \<Rightarrow> probe_config \<Rightarrow> probe_result \<times> nat" where
  "http_probe self e cfg =
     (case self of
        Inr client \<Rightarrow> http_get_probe e cfg client
      | Inl msg \<Rightarrow> fail_at_once e cfg (show_probe_type (pc_probe_type cfg)) msg)"

section \<open>TLS\<close>

definition expiry_verdict :: "f64 \<Rightarrow> f64 \<Rightarrow> rstr option" where
  "expiry_verdict days threshold =
     (if days < 0 then
        Some (lit ''certificate expired '' @ fmt_fixed 1 (- days) @ lit '' days ago'')
      else if days < threshold then
        Some (lit ''certificate expires in '' @ fmt_fixed 1 days @ lit '' days (tls_expiry_fail_days: '' @
              show_f64 threshold @ lit '')'')
      else None)"

definition cert_expiry_days :: "(u8 list \<Rightarrow> rstr + int) \<Rightarrow> u8 list \<Rightarrow> datetime \<Rightarrow> rstr + f64" where
  "cert_expiry_days not_after_of der now =
     and_then (map_err (\<lambda>m. lit ''could not parse certificate: '' @ m) (not_after_of der)) (\<lambda>not_after.
       Inr (f64_div (f64_of_int (not_after - dt_timestamp now)) (f64_of_nat 86400)))"

definition split_host_port :: "rstr \<Rightarrow> (rstr \<times> u16) option" where
  "split_host_port target =
     (case rsplit_once 58 target of
        None \<Rightarrow> None
      | Some (host, port) \<Rightarrow>
          (let host = unwrap_or (strip_prefix_char host 91) host;
               host = unwrap_or (strip_suffix_char host 93) host
           in if host = [] then None else map_option (\<lambda>p. (host, p)) (parse_u16 port)))"

definition leaf_certificate :: "u8 list list option \<Rightarrow> rstr + u8 list" where
  "leaf_certificate chain =
     ok_or (lit ''TLS handshake completed but the peer presented no certificate'')
       (case chain of Some (leaf # _) \<Rightarrow> Some leaf | _ \<Rightarrow> None)"

definition fetch_peer_certificate :: "probe_env \<Rightarrow> tls_config \<Rightarrow> rstr \<Rightarrow> certificate future" where
  "fetch_peer_certificate e config target =
     (case split_host_port target of
        None \<Rightarrow> ready_at 0 (Inl (lit ''target '' @ quoted target @ lit '' must be host:port''))
      | Some (host, _) \<Rightarrow>
          (if \<not> pe_server_name_ok e host
           then ready_at 0 (Inl (quoted host @ lit '' is not a valid TLS server name''))
           else
             future_then (pe_connect e target) (\<lambda>_.
             future_then (pe_handshake e config target host) (\<lambda>chain. ready_at 0 (leaf_certificate chain)))))"

definition tls_verdict :: "probe_env \<Rightarrow> probe_config \<Rightarrow> nat \<Rightarrow> u8 list \<Rightarrow> probe_result \<times> nat" where
  "tls_verdict e cfg t der =
     (case cert_expiry_days (pe_not_after e) der (pe_cert_now e) of
        Inl msg \<Rightarrow> fail_with e cfg (lit ''tls'') t msg
      | Inr days \<Rightarrow>
          (let threshold = unwrap_or (pc_tls_expiry_fail_days cfg) f64_zero;
               (r, t) = (case expiry_verdict days threshold of
                           None \<Rightarrow> succeed e cfg (lit ''tls'') t None
                         | Some why \<Rightarrow> fail_with e cfg (lit ''tls'') t why)
           in (with_metric r tls_cert_expiry_days_key days, t)))"

definition tls_handshake_probe :: "probe_env \<Rightarrow> probe_config \<Rightarrow> tls_config \<Rightarrow> probe_result \<times> nat" where
  "tls_handshake_probe e cfg config =
     (let (r, t) = with_probe_timeout (probe_timeout cfg) (timeout_text cfg)
                     (fetch_peer_certificate e config (pc_target cfg))
      in case r of
           Inr der \<Rightarrow> tls_verdict e cfg t der
         | Inl msg \<Rightarrow> fail_with e cfg (lit ''tls'') t msg)"

type_synonym tls_probe_state = "rstr + tls_config"

definition tls_probe_new :: "client_libs \<Rightarrow> tls_probe_state" where
  "tls_probe_new libs = map_err (\<lambda>m. lit ''could not build a TLS client: '' @ m) (build_tls_config libs)"

definition tls_probe :: "tls_probe_state \<Rightarrow> probe_env \<Rightarrow> probe_config \<Rightarrow> probe_result \<times> nat" where
  "tls_probe self e cfg =
     (case self of
        Inr config \<Rightarrow> tls_handshake_probe e cfg config
      | Inl msg \<Rightarrow> fail_at_once e cfg (lit ''tls'') msg)"

section \<open>The registry\<close>

text \<open>Only two of the probes hold anything; the others are unit structs.\<close>

record probe_registry =
  rg_http :: http_probe_state
  rg_tls :: tls_probe_state

definition registry_new :: "client_libs \<Rightarrow> probe_registry" where
  "registry_new libs = \<lparr>rg_http = http_probe_new libs, rg_tls = tls_probe_new libs\<rparr>"

definition registry_get :: "probe_registry \<Rightarrow> probe_type \<Rightarrow> probe_env \<Rightarrow> probe_config \<Rightarrow> probe_result \<times> nat" where
  "registry_get reg kind =
     (case kind of
        Tcp \<Rightarrow> tcp_probe
      | Http \<Rightarrow> http_probe (rg_http reg)
      | Https \<Rightarrow> http_probe (rg_http reg)
      | Smtp \<Rightarrow> smtp_probe
      | Imap \<Rightarrow> imap_probe
      | Udp \<Rightarrow> udp_probe
      | Dns \<Rightarrow> dns_probe
      | Tls \<Rightarrow> tls_probe (rg_tls reg))"

definition run_probe :: "probe_env \<Rightarrow> probe_config \<Rightarrow> probe_result \<times> nat" where
  "run_probe e cfg = registry_get (registry_new (pe_libs e)) (pc_probe_type cfg) e cfg"

lemmas dispatch_simps = run_probe_def registry_get_def registry_new_def probe_registry.simps

section \<open>A failed probe is data\<close>

definition reports :: "probe_config \<Rightarrow> rstr \<Rightarrow> probe_result \<times> nat \<Rightarrow> bool" where
  "reports cfg kind rt \<longleftrightarrow>
     result_wf (fst rt) \<and> pr_probe_name (fst rt) = pc_name cfg \<and> pr_target (fst rt) = pc_target cfg \<and>
     pr_probe_type (fst rt) = kind"

named_theorems report_intros \<open>the results a probe can build\<close>

lemma succeed_reports [report_intros]: "reports cfg kind (succeed e cfg kind t c)"
  by (simp add: reports_def succeed_def success_wf)

lemma fail_reports [report_intros]: "reports cfg kind (fail_with e cfg kind t m)"
  by (simp add: reports_def fail_with_def failure_wf)

lemma fail_at_once_reports [report_intros]: "reports cfg kind (fail_at_once e cfg kind m)"
  by (simp add: reports_def fail_at_once_def failure_wf)

lemma with_metric_reports [report_intros]:
  "reports cfg kind rt \<Longrightarrow> reports cfg kind (with_metric (fst rt) k v, snd rt)"
  by (simp add: reports_def with_metric_wf)

lemma tcp_reports: "reports cfg (lit ''tcp'') (tcp_probe e cfg)"
  by (auto simp: tcp_probe_def Let_def split: prod.split sum.split intro: report_intros)

lemma smtp_reports: "reports cfg (lit ''smtp'') (smtp_probe e cfg)"
  by (auto simp: smtp_probe_def Let_def split: prod.split sum.split intro: report_intros)

lemma imap_reports: "reports cfg (lit ''imap'') (imap_probe e cfg)"
  by (auto simp: imap_probe_def Let_def split: prod.split sum.split intro: report_intros)

lemma udp_reports: "reports cfg (lit ''udp'') (udp_probe e cfg)"
  by (auto simp: udp_probe_def udp_exchange_def Let_def split: prod.split sum.split list.split
      intro: report_intros)

lemma dns_reports: "reports cfg (lit ''dns'') (dns_probe e cfg)"
  by (auto simp: dns_probe_def dns_verdict_def Let_def split: prod.split sum.split option.split
      intro: report_intros)

lemma http_reports: "reports cfg (show_probe_type (pc_probe_type cfg)) (http_probe self e cfg)"
  by (auto simp: http_probe_def http_get_probe_def Let_def split: prod.split sum.split intro: report_intros)

lemma tls_verdict_reports: "reports cfg (lit ''tls'') (tls_verdict e cfg t der)"
proof -
  have "reports cfg (lit ''tls'') (case v of None \<Rightarrow> succeed e cfg (lit ''tls'') t None
      | Some why \<Rightarrow> fail_with e cfg (lit ''tls'') t why)" for v
    by (auto split: option.split intro: report_intros)
  from with_metric_reports [OF this] show ?thesis
    by (auto simp: tls_verdict_def Let_def case_prod_unfold split: sum.split intro: report_intros)
qed

lemma tls_reports: "reports cfg (lit ''tls'') (tls_probe self e cfg)"
  by (auto simp: tls_probe_def tls_handshake_probe_def Let_def split: prod.split sum.split
      intro: report_intros tls_verdict_reports)

lemma run_probe_reports: "reports cfg (show_probe_type (pc_probe_type cfg)) (run_probe e cfg)"
  using tcp_reports smtp_reports imap_reports udp_reports dns_reports tls_reports http_reports [of cfg _ e]
  by (cases "pc_probe_type cfg") (simp_all add: dispatch_simps show_probe_type_def)

text \<open>The only metric a probe ever attaches.\<close>

lemma plain_metrics [simp]:
  "pr_metrics (fst (succeed e cfg kind t c)) = []" "pr_metrics (fst (fail_with e cfg kind t m)) = []"
  "pr_metrics (fst (fail_at_once e cfg kind m)) = []"
  by (simp_all add: succeed_def fail_with_def fail_at_once_def result_success_def result_failure_def)

lemma tls_verdict_metrics: "fst ` set (pr_metrics (fst (tls_verdict e cfg t der))) \<subseteq> {tls_cert_expiry_days_key}"
  by (simp add: tls_verdict_def Let_def case_prod_unfold with_metric_def split: sum.split option.split)

lemma run_probe_metrics: "fst ` set (pr_metrics (fst (run_probe e cfg))) \<subseteq> {tls_cert_expiry_days_key}"
proof -
  have "pr_metrics (fst (tcp_probe e cfg)) = []" "pr_metrics (fst (smtp_probe e cfg)) = []"
    "pr_metrics (fst (imap_probe e cfg)) = []" "pr_metrics (fst (udp_probe e cfg)) = []"
    by (simp_all add: tcp_probe_def smtp_probe_def imap_probe_def udp_probe_def udp_exchange_def Let_def case_prod_unfold
        split: sum.split list.split)
  moreover have "pr_metrics (fst (dns_probe e cfg)) = []"
    by (simp add: dns_probe_def dns_verdict_def Let_def case_prod_unfold split: sum.split option.split)
  moreover have "pr_metrics (fst (http_probe self e cfg)) = []" for self
    by (simp add: http_probe_def http_get_probe_def Let_def case_prod_unfold split: sum.split)
  moreover have "fst ` set (pr_metrics (fst (tls_probe self e cfg))) \<subseteq> {tls_cert_expiry_days_key}" for self
    using tls_verdict_metrics [of e cfg]
    by (simp add: tls_probe_def tls_handshake_probe_def Let_def case_prod_unfold split: sum.split)
  ultimately show ?thesis by (cases "pc_probe_type cfg") (simp_all add: dispatch_simps)
qed

text \<open>C22: whatever the network, the resolver, the TLS stack or the peer do, a probe reports about its own
  configuration and never fails otherwise than by its result: UP without an error, or DOWN with an error
  that is free of control characters and without a status code; metrics are in key order.\<close>

theorem every_probe_reports_data:
  "result_wf (fst (run_probe e cfg)) \<and>
   pr_probe_name (fst (run_probe e cfg)) = pc_name cfg \<and>
   pr_target (fst (run_probe e cfg)) = pc_target cfg \<and>
   pr_probe_type (fst (run_probe e cfg)) = show_probe_type (pc_probe_type cfg)"
  using run_probe_reports [of cfg e] by (simp add: reports_def)

section \<open>Deadlines\<close>

lemma report_time [simp]:
  "snd (succeed e cfg kind t c) = t" "snd (fail_with e cfg kind t m) = t" "snd (fail_at_once e cfg kind m) = 0"
  by (simp_all add: succeed_def fail_with_def fail_at_once_def)

lemma tcp_time: "snd (tcp_probe e cfg) \<le> probe_timeout cfg"
  using timeout_bounds_time [of "probe_timeout cfg" "timeout_text cfg" "pe_connect e (pc_target cfg)"]
  by (auto simp: tcp_probe_def split: prod.split sum.split)

lemma greet_time: "snd (smtp_probe e cfg) \<le> probe_timeout cfg" "snd (imap_probe e cfg) \<le> probe_timeout cfg"
  using timeout_bounds_time [of "probe_timeout cfg" "timeout_text cfg" "connect_and_greet e (pc_target cfg)"]
  by (auto simp: smtp_probe_def imap_probe_def Let_def split: prod.split sum.split)

lemma dns_verdict_time [simp]: "snd (dns_verdict e cfg t ips) = t"
  by (auto simp: dns_verdict_def split: option.split)

lemma dns_time: "snd (dns_probe e cfg) \<le> probe_timeout cfg"
  using timeout_bounds_time [of "probe_timeout cfg" "timeout_text cfg"]
  by (auto simp: dns_probe_def Let_def case_prod_unfold split: sum.split option.split)

lemma http_time: "snd (http_probe self e cfg) \<le> probe_timeout cfg"
  using timeout_bounds_time [of "probe_timeout cfg" "timeout_text cfg"]
  by (auto simp: http_probe_def http_get_probe_def Let_def case_prod_unfold split: sum.split)

lemma tls_verdict_time [simp]: "snd (tls_verdict e cfg t der) = t"
  by (auto simp: tls_verdict_def Let_def case_prod_unfold split: sum.split option.split)

lemma tls_time: "snd (tls_probe self e cfg) \<le> probe_timeout cfg"
  using timeout_bounds_time [of "probe_timeout cfg" "timeout_text cfg"]
  by (auto simp: tls_probe_def tls_handshake_probe_def Let_def case_prod_unfold split: sum.split)

text \<open>An environment in which nothing ever answers but name resolution, which takes its time.\<close>

definition silent_env :: "nat \<Rightarrow> probe_env" where
  "silent_env lookup_time =
     \<lparr>pe_now = \<lparr>dt_timestamp = 0, dt_timestamp_millis = 0\<rparr>,
      pe_cert_now = \<lparr>dt_timestamp = 0, dt_timestamp_millis = 0\<rparr>,
      pe_connect = (\<lambda>_. never), pe_reads = (\<lambda>_. []),
      pe_lookup_host = (\<lambda>_. ready_at lookup_time (Inr [(V4 192 0 2 1, 53)])),
      pe_udp_bind = (\<lambda>_. (0, Inr ())), pe_udp_connect = (\<lambda>_. (0, Inr ())), pe_udp_send = (\<lambda>_. (0, Inr ())),
      pe_udp_recv = never, pe_socket_addr_error = lit ''invalid socket address syntax'',
      pe_libs = plain_libs, pe_lookup_ip = (\<lambda>_ _. never),
      pe_http_get = (\<lambda>_ _. never), pe_server_name_ok = (\<lambda>_. True),
      pe_handshake = (\<lambda>_ _ _. never), pe_not_after = (\<lambda>_. Inl [])\<rparr>"

text \<open>
  The UDP probe gives resolution and answer a full timeout each. Apart from the socket calls, which the code
  does not put under a timeout, that is all the time it takes.
\<close>

definition socket_calls_at_once :: "probe_env \<Rightarrow> bool" where
  "socket_calls_at_once e \<longleftrightarrow>
     (\<forall>a. fst (pe_udp_bind e a) = 0) \<and> (\<forall>a. fst (pe_udp_connect e a) = 0) \<and> (\<forall>q. fst (pe_udp_send e q) = 0)"

lemma udp_time:
  assumes "socket_calls_at_once e"
  shows "snd (udp_probe e cfg) \<le> 2 * probe_timeout cfg"
proof -
  let ?lookup = "with_probe_timeout (probe_timeout cfg) (timeout_text cfg) (pe_lookup_host e (pc_target cfg))"
  let ?recv = "with_probe_timeout (probe_timeout cfg) (timeout_text cfg) (pe_udp_recv e)"
  have t: "snd ?lookup \<le> probe_timeout cfg" "snd ?recv \<le> probe_timeout cfg" by (rule timeout_bounds_time)+
  have "snd (udp_exchange e cfg s addr) \<le> s + probe_timeout cfg" for s addr
  proof -
    have "fst (pe_udp_bind e (udp_bind_addr addr)) = 0" "fst (pe_udp_connect e addr) = 0"
      "fst (pe_udp_send e udp_query) = 0" using assms unfolding socket_calls_at_once_def by blast+
    then show ?thesis using t(2) unfolding udp_exchange_def Let_def case_prod_unfold
      by (simp split: sum.split)
  qed
  then have "snd (udp_exchange e cfg (snd ?lookup) addr) \<le> 2 * probe_timeout cfg" for addr
    using t(1) by (metis add_mono_thms_linordered_semiring(3) le_trans mult_2)
  then show ?thesis
    using t(1) unfolding udp_probe_def Let_def case_prod_unfold
    by (auto split: sum.split list.split)
qed

lemma udp_time_reached: "snd (udp_probe (silent_env (probe_timeout cfg)) cfg) = 2 * probe_timeout cfg"
  by (simp add: udp_probe_def udp_exchange_def with_probe_timeout_def silent_env_def ready_at_def never_def)

lemma silent_socket_calls [simp]: "socket_calls_at_once (silent_env t)"
  by (simp add: socket_calls_at_once_def silent_env_def)

text \<open>C23: \<open>timeout_secs\<close> bounds the whole of a probe, connection and answer together, for every type but
  UDP. A UDP probe whose socket calls return at once takes at most twice as long, and there is an environment
  in which it takes exactly that.\<close>

theorem probe_keeps_its_deadline:
  assumes "pc_probe_type cfg = Udp \<longrightarrow> socket_calls_at_once e"
  shows "snd (run_probe e cfg) \<le> (if pc_probe_type cfg = Udp then 2 else 1) * (unat (pc_timeout_secs cfg) * 1000000000) \<and>
         (\<exists>e'. socket_calls_at_once e' \<and> snd (udp_probe e' cfg) = 2 * (unat (pc_timeout_secs cfg) * 1000000000))"
proof
  have limit: "unat (pc_timeout_secs cfg) * 1000000000 = probe_timeout cfg"
    by (simp add: probe_timeout_def duration_from_secs_def)
  show "snd (run_probe e cfg) \<le> (if pc_probe_type cfg = Udp then 2 else 1) * (unat (pc_timeout_secs cfg) * 1000000000)"
    using assms tcp_time greet_time dns_time http_time tls_time udp_time unfolding limit
    by (cases "pc_probe_type cfg") (simp_all add: dispatch_simps)
  show "\<exists>e'. socket_calls_at_once e' \<and> snd (udp_probe e' cfg) = 2 * (unat (pc_timeout_secs cfg) * 1000000000)"
    unfolding limit using silent_socket_calls udp_time_reached by blast
qed

theorem probe_keeps_its_deadline_witness:
  "snd (run_probe (silent_env 0) default_probe) \<le> 5 * 1000000000"
proof -
  have "pc_probe_type default_probe \<noteq> Udp" "unat (pc_timeout_secs default_probe) = 5"
    by (simp_all add: default_probe_def)
  then show ?thesis using probe_keeps_its_deadline [of default_probe "silent_env 0"] by simp
qed

section \<open>When a probe is UP\<close>

lemma report_up [simp]:
  "pr_up (fst (succeed e cfg kind t c))" "\<not> pr_up (fst (fail_with e cfg kind t m))"
  "\<not> pr_up (fst (fail_at_once e cfg kind m))"
  by (simp_all add: succeed_def fail_with_def fail_at_once_def)

definition greets :: "probe_env \<Rightarrow> probe_config \<Rightarrow> rstr \<Rightarrow> bool" where
  "greets e cfg p \<longleftrightarrow>
     in_time (probe_timeout cfg) (connect_and_greet e (pc_target cfg)) \<and>
     (\<exists>line. ft_result (connect_and_greet e (pc_target cfg)) = Inr line) \<and>
     take (length p) (map unat (sent (pe_reads e (pc_target cfg)))) = p"

definition expected_ip_ok :: "probe_config \<Rightarrow> ip_addr list \<Rightarrow> bool" where
  "expected_ip_ok cfg ips \<longleftrightarrow>
     (case pc_dns_expected_ip cfg of None \<Rightarrow> True | Some s \<Rightarrow> \<exists>ip. parse_ip s = Some ip \<and> ip \<in> set ips)"

definition certificate_ok :: "probe_env \<Rightarrow> probe_config \<Rightarrow> u8 list \<Rightarrow> bool" where
  "certificate_ok e cfg der \<longleftrightarrow>
     (\<exists>days. cert_expiry_days (pe_not_after e) der (pe_cert_now e) = Inr days \<and> \<not> f64_lt days f64_zero \<and>
        (case pc_tls_expiry_fail_days cfg of None \<Rightarrow> True | Some threshold \<Rightarrow> \<not> f64_lt days threshold))"

definition up_condition :: "probe_env \<Rightarrow> probe_config \<Rightarrow> bool" where
  "up_condition e cfg \<longleftrightarrow>
     (let target = pc_target cfg; limit = probe_timeout cfg
      in case pc_probe_type cfg of
           Tcp \<Rightarrow> in_time limit (pe_connect e target) \<and> ft_result (pe_connect e target) = Inr ()
         | Smtp \<Rightarrow> greets e cfg (lit ''220'')
         | Imap \<Rightarrow> greets e cfg (lit ''* OK'')
         | Dns \<Rightarrow>
             (\<exists>ns resolver ips. parse_socket_addr target = Some ns \<and>
                build_resolver (pe_libs e) ns (pc_timeout_secs cfg) = Inr resolver \<and>
                in_time limit (pe_lookup_ip e resolver (unwrap_or (pc_dns_query cfg) (lit ''example.com''))) \<and>
                ft_result (pe_lookup_ip e resolver (unwrap_or (pc_dns_query cfg) (lit ''example.com''))) = Inr ips \<and>
                expected_ip_ok cfg ips)
         | Tls \<Rightarrow>
             (\<exists>config der. build_tls_config (pe_libs e) = Inr config \<and>
                in_time limit (fetch_peer_certificate e config target) \<and>
                ft_result (fetch_peer_certificate e config target) = Inr der \<and> certificate_ok e cfg der)
         | Udp \<Rightarrow>
             (\<exists>addr rest n. in_time limit (pe_lookup_host e target) \<and>
                ft_result (pe_lookup_host e target) = Inr (addr # rest) \<and>
                snd (pe_udp_bind e (udp_bind_addr addr)) = Inr () \<and> snd (pe_udp_connect e addr) = Inr () \<and>
                snd (pe_udp_send e udp_query) = Inr () \<and>
                in_time limit (pe_udp_recv e) \<and> ft_result (pe_udp_recv e) = Inr n \<and> 0 < n)
         | _ \<Rightarrow>
             (\<exists>client. build_client (pe_libs e) = Inr client \<and> in_time limit (pe_http_get e client target) \<and>
                ft_result (pe_http_get e client target) = Inr (unwrap_or (pc_expected_status cfg) 200)))"

lemma tcp_up_iff:
  "pr_up (fst (tcp_probe e cfg)) \<longleftrightarrow>
     in_time (probe_timeout cfg) (pe_connect e (pc_target cfg)) \<and> ft_result (pe_connect e (pc_target cfg)) = Inr ()"
  unfolding tcp_probe_def case_prod_unfold Let_def
  by (cases rule: with_timeout_cases [of "probe_timeout cfg" "timeout_text cfg" "pe_connect e (pc_target cfg)"])
     (auto simp del: split_paired_Ex)

lemma future_then_Inr:
  assumes "in_time d (future_then f k)" "ft_result (future_then f k) = Inr b"
  obtains a t where "ft_result f = Inr a" "ft_ready (k a) = Some t" "ft_result (k a) = Inr b"
  using assms
  by (auto simp: future_then_def in_time_def never_def ready_at_def delayed_def split: option.splits sum.splits)

lemma greets_iff:
  assumes "list_all (\<lambda>c. c < 0x80) p" "length p \<le> max_greeting_bytes" "10 \<notin> set p"
  shows "(\<exists>line. fst (with_probe_timeout (probe_timeout cfg) msg (connect_and_greet e (pc_target cfg))) = Inr line \<and>
            starts_with line p) \<longleftrightarrow> greets e cfg p"
proof -
  have prefix: "starts_with line p \<longleftrightarrow> take (length p) (map unat (sent (pe_reads e (pc_target cfg)))) = p"
    if "in_time (probe_timeout cfg) (connect_and_greet e (pc_target cfg))"
      "ft_result (connect_and_greet e (pc_target cfg)) = Inr line" for line
  proof (rule future_then_Inr [OF that [unfolded connect_and_greet_def]])
    fix a t
    assume "ft_ready (read_greeting_line (pe_reads e (pc_target cfg))) = Some t"
      "ft_result (read_greeting_line (pe_reads e (pc_target cfg))) = Inr line"
    then show ?thesis by (rule read_greeting_prefix [OF assms])
  qed
  show ?thesis unfolding with_timeout_Inr_iff greets_def using prefix by blast
qed

lemma smtp_up_iff: "pr_up (fst (smtp_probe e cfg)) \<longleftrightarrow> greets e cfg (lit ''220'')"
proof -
  have "pr_up (fst (smtp_probe e cfg)) \<longleftrightarrow>
      (\<exists>line. fst (with_probe_timeout (probe_timeout cfg) (timeout_text cfg) (connect_and_greet e (pc_target cfg))) = Inr line \<and>
            starts_with line (lit ''220''))"
    unfolding smtp_probe_def case_prod_unfold Let_def by (auto split: sum.split)
  then show ?thesis by (simp add: greets_iff max_greeting_bytes_def lit_simps)
qed

lemma imap_up_iff: "pr_up (fst (imap_probe e cfg)) \<longleftrightarrow> greets e cfg (lit ''* OK'')"
proof -
  have "pr_up (fst (imap_probe e cfg)) \<longleftrightarrow>
      (\<exists>line. fst (with_probe_timeout (probe_timeout cfg) (timeout_text cfg) (connect_and_greet e (pc_target cfg))) = Inr line \<and>
            starts_with line (lit ''* OK''))"
    unfolding imap_probe_def case_prod_unfold Let_def by (auto split: sum.split)
  then show ?thesis by (simp add: greets_iff max_greeting_bytes_def lit_simps)
qed

lemma http_up_iff:
  "pr_up (fst (http_probe (http_probe_new (pe_libs e)) e cfg)) \<longleftrightarrow>
     (\<exists>client. build_client (pe_libs e) = Inr client \<and>
        in_time (probe_timeout cfg) (pe_http_get e client (pc_target cfg)) \<and>
        ft_result (pe_http_get e client (pc_target cfg)) = Inr (unwrap_or (pc_expected_status cfg) 200))"
proof (cases "build_client (pe_libs e)")
  case (Inr client)
  then have "pr_up (fst (http_probe (http_probe_new (pe_libs e)) e cfg)) \<longleftrightarrow>
      fst (with_probe_timeout (probe_timeout cfg) (timeout_text cfg) (pe_http_get e client (pc_target cfg))) =
        Inr (unwrap_or (pc_expected_status cfg) 200)"
    unfolding http_probe_def http_probe_new_def http_get_probe_def case_prod_unfold Let_def
    by (auto split: sum.split)
  with Inr show ?thesis by (simp add: with_timeout_Inr_iff)
qed (simp add: http_probe_def http_probe_new_def)

lemma udp_exchange_up_iff:
  "pr_up (fst (udp_exchange e cfg t addr)) \<longleftrightarrow>
     snd (pe_udp_bind e (udp_bind_addr addr)) = Inr () \<and> snd (pe_udp_connect e addr) = Inr () \<and>
     snd (pe_udp_send e udp_query) = Inr () \<and>
     (\<exists>n. fst (with_probe_timeout (probe_timeout cfg) (timeout_text cfg) (pe_udp_recv e)) = Inr n \<and> 0 < n)"
  unfolding udp_exchange_def case_prod_unfold Let_def by (simp split: sum.split)

lemma udp_up_iff:
  "pr_up (fst (udp_probe e cfg)) \<longleftrightarrow>
     (\<exists>addr rest. fst (with_probe_timeout (probe_timeout cfg) (timeout_text cfg) (pe_lookup_host e (pc_target cfg))) =
          Inr (addr # rest) \<and> pr_up (fst (udp_exchange e cfg
            (snd (with_probe_timeout (probe_timeout cfg) (timeout_text cfg) (pe_lookup_host e (pc_target cfg)))) addr)))"
  unfolding udp_probe_def case_prod_unfold Let_def
  by (simp split: sum.split list.split del: split_paired_Ex)

lemma dns_verdict_up_iff: "pr_up (fst (dns_verdict e cfg t ips)) \<longleftrightarrow> expected_ip_ok cfg ips"
  by (simp add: dns_verdict_def expected_ip_ok_def split: option.split)

lemma dns_up_iff:
  "pr_up (fst (dns_probe e cfg)) \<longleftrightarrow>
     (\<exists>ns resolver ips. parse_socket_addr (pc_target cfg) = Some ns \<and>
        build_resolver (pe_libs e) ns (pc_timeout_secs cfg) = Inr resolver \<and>
        fst (with_probe_timeout (probe_timeout cfg) (timeout_text cfg)
          (pe_lookup_ip e resolver (unwrap_or (pc_dns_query cfg) (lit ''example.com'')))) = Inr ips \<and> expected_ip_ok cfg ips)"
  unfolding dns_probe_def case_prod_unfold Let_def
  by (simp add: dns_verdict_up_iff split: sum.split option.split del: split_paired_Ex)

lemma expiry_verdict_None_iff:
  "expiry_verdict days threshold = None \<longleftrightarrow> \<not> f64_lt days f64_zero \<and> \<not> f64_lt days threshold"
  by (simp add: expiry_verdict_def)

lemma tls_verdict_up_iff: "pr_up (fst (tls_verdict e cfg t der)) \<longleftrightarrow> certificate_ok e cfg der"
proof (cases "cert_expiry_days (pe_not_after e) der (pe_cert_now e)")
  case (Inr days)
  let ?v = "expiry_verdict days (unwrap_or (pc_tls_expiry_fail_days cfg) f64_zero)"
  have "pr_up (fst (tls_verdict e cfg t der)) \<longleftrightarrow> ?v = None"
    using Inr by (cases ?v) (simp_all add: tls_verdict_def Let_def case_prod_unfold)
  with Inr show ?thesis
    by (cases "pc_tls_expiry_fail_days cfg") (auto simp: certificate_ok_def expiry_verdict_None_iff)
qed (simp add: tls_verdict_def certificate_ok_def)

lemma tls_up_iff:
  "pr_up (fst (tls_probe (tls_probe_new (pe_libs e)) e cfg)) \<longleftrightarrow>
     (\<exists>config der. build_tls_config (pe_libs e) = Inr config \<and>
        fst (with_probe_timeout (probe_timeout cfg) (timeout_text cfg)
          (fetch_peer_certificate e config (pc_target cfg))) = Inr der \<and> certificate_ok e cfg der)"
  by (cases "build_tls_config (pe_libs e)")
     (auto simp: tls_probe_def tls_probe_new_def tls_handshake_probe_def Let_def case_prod_unfold
       tls_verdict_up_iff split: sum.split)


section \<open>Days to expiry\<close>

text \<open>The sign of the number of days is the sign of the difference in seconds, whatever the rounding.\<close>

lemma f64_round_positive:
  assumes "pow2 (- 1022) \<le> r" "r < 2 ^ 1023"
  obtains m where "f64_round s r = Fin s m" "r / 2 \<le> m" "m \<le> 2 * r"
proof -
  have pos: "0 < r" using assms(1) pow2_pos [of "- 1022"] by linarith
  obtain m where m: "f64_round s r = Fin s m" "pow2 (binade r) \<le> m" "m \<le> 2 * r"
    using f64_round_normal [OF assms] by blast
  have "r < 2 * pow2 (binade r)" using binade_bounds(2) [OF pos] by (simp add: pow2_succ)
  with m show thesis by (intro that [of m]) simp_all
qed

lemma pow2_tiny: "pow2 (- 1022) \<le> 1 / 2 ^ 20"
proof -
  have "pow2 (- 1022) \<le> pow2 (- 20)" by (intro pow2_mono) simp
  then show ?thesis by (simp add: pow2_def)
qed

lemma days_of_seconds:
  assumes "\<bar>d\<bar> < 2 ^ 64"
  obtains s m where "f64_div (f64_of_int d) (f64_of_nat 86400) = Fin s m" "d = 0 \<Longrightarrow> m = 0"
    "d \<noteq> 0 \<Longrightarrow> s = (d < 0) \<and> 0 < m"
proof (cases "d = 0")
  case True
  then have "f64_div (f64_of_int d) (f64_of_nat 86400) = Fin False 0"
    by (simp add: f64_of_int_def f64_round_def f64_of_nat_exact)
  with True show thesis by (intro that [of False 0]) simp_all
next
  case False
  let ?a = "of_int \<bar>d\<bar> :: rat"
  have a: "1 \<le> ?a" using False by (metis int_one_le_iff_zero_less of_int_1_le_iff zero_less_abs_iff)
  have b: "?a < 2 ^ 64" using assms by (metis of_int_less_iff of_int_numeral of_int_power)
  have small: "pow2 (- 1022) \<le> ?a" "?a < 2 ^ 1023"
  proof -
    show "pow2 (- 1022) \<le> ?a" using a pow2_tiny by simp
    have "(2 :: rat) ^ 64 \<le> 2 ^ 1023" by (rule power_increasing) simp_all
    with b show "?a < 2 ^ 1023" by linarith
  qed
  from f64_round_positive [OF small, of "d < 0"] obtain m where
    m: "f64_of_int d = Fin (d < 0) m" "?a / 2 \<le> m" "m \<le> 2 * ?a" by (auto simp: f64_of_int_def)
  have q: "1 / 2 / 86400 \<le> m / 86400" "m / 86400 \<le> 2 * 2 ^ 64"
    using m(2,3) a b by simp_all
  have small': "pow2 (- 1022) \<le> m / 86400" "m / 86400 < 2 ^ 1023"
  proof -
    have "pow2 (- 1022) \<le> 1 / 2 ^ 20" by (rule pow2_tiny)
    also have "\<dots> \<le> 1 / 2 / 86400" by simp
    finally show "pow2 (- 1022) \<le> m / 86400" using q(1) by linarith
    have "2 * (2 :: rat) ^ 64 < 2 ^ 1023"
    proof -
      have "2 * (2 :: rat) ^ 64 = 2 ^ 65" by simp
      also have "(2 :: rat) ^ 65 < 2 ^ 1023" by (rule power_strict_increasing) simp_all
      finally show ?thesis .
    qed
    with q(2) show "m / 86400 < 2 ^ 1023" by linarith
  qed
  from f64_round_positive [OF small', of "d < 0"] obtain n where
    n: "f64_round (d < 0) (m / 86400) = Fin (d < 0) n" "m / 86400 / 2 \<le> n" by blast
  have "f64_div (f64_of_int d) (f64_of_nat 86400) = Fin (d < 0) n"
    by (simp add: m(1) f64_of_nat_exact n(1))
  moreover have "0 < n" using n(2) q(1) by simp
  ultimately show thesis using False by (intro that) simp_all
qed

lemma expiry_days_sign:
  assumes "\<bar>d\<bar> < 2 ^ 64"
  shows "is_finite (f64_div (f64_of_int d) (f64_of_nat 86400))"
    and "f64_lt (f64_div (f64_of_int d) (f64_of_nat 86400)) f64_zero \<longleftrightarrow> d < 0"
proof -
  obtain s m where f: "f64_div (f64_of_int d) (f64_of_nat 86400) = Fin s m" "d = 0 \<Longrightarrow> m = 0"
    "d \<noteq> 0 \<Longrightarrow> s = (d < 0) \<and> 0 < m"
    using days_of_seconds [OF assms] by blast
  show "is_finite (f64_div (f64_of_int d) (f64_of_nat 86400))" by (simp add: f(1))
  show "f64_lt (f64_div (f64_of_int d) (f64_of_nat 86400)) f64_zero \<longleftrightarrow> d < 0"
    unfolding f(1) using f(2,3) by (cases "d = 0") (auto simp: f64_zero_def f64_val_def)
qed



section \<open>What the probes judge\<close>

text \<open>
  rustls runs the handshake with what the peer presents to a client of these signature schemes, and asks
  the configured verifier; reqwest, told to follow no redirects, returns the first answer.
\<close>

definition handshake_law :: "probe_env \<Rightarrow> rstr \<Rightarrow> (signature_scheme list \<Rightarrow> rstr \<Rightarrow> rstr \<Rightarrow> presented future) \<Rightarrow> bool" where
  "handshake_law e no_cert peer \<longleftrightarrow>
     (\<forall>config target host. pe_handshake e config target host =
        future_then (peer (cv_schemes (tc_verifier config)) target host)
          (\<lambda>p. ready_at 0 (judge_presented (tc_verifier config) no_cert host p)))"

definition redirect_law :: "probe_env \<Rightarrow> (rstr \<Rightarrow> (u16 \<times> rstr option) future) \<Rightarrow> bool" where
  "redirect_law e web \<longleftrightarrow>
     (\<forall>client url. hcl_redirect client = No_Redirects \<longrightarrow>
        pe_http_get e client url = future_then (web url) (\<lambda>answer. ready_at 0 (Inr (fst answer))))"

lemma future_then_ready:
  "in_time d (future_then f (\<lambda>a. ready_at 0 (g a))) \<longleftrightarrow> in_time d f"
  "ft_ready f \<noteq> None \<Longrightarrow>
     ft_result (future_then f (\<lambda>a. ready_at 0 (g a))) = Inr b \<longleftrightarrow> (\<exists>a. ft_result f = Inr a \<and> g a = Inr b)"
  by (auto simp: future_then_def in_time_def never_def ready_at_def delayed_def split: option.splits sum.splits)

lemma in_time_ready: "in_time d f \<Longrightarrow> ft_ready f \<noteq> None"
  by (auto simp: in_time_def)

lemma future_then_assoc:
  "future_then f (\<lambda>a. future_then (g a) h) = future_then (future_then f g) h"
  by (auto simp: future_then_def never_def ready_at_def delayed_def add.assoc option.map_comp comp_def
      split: option.splits sum.splits)

lemma http_judges_the_first_answer:
  assumes "redirect_law e web" "build_client (pe_libs e) = Inr client" "pc_probe_type cfg \<in> {Http, Https}"
  shows "pr_up (fst (run_probe e cfg)) \<longleftrightarrow>
     in_time (probe_timeout cfg) (web (pc_target cfg)) \<and>
     (\<exists>location. ft_result (web (pc_target cfg)) = Inr (unwrap_or (pc_expected_status cfg) 200, location))"
proof -
  have get: "pe_http_get e client (pc_target cfg) =
      future_then (web (pc_target cfg)) (\<lambda>answer. ready_at 0 (Inr (fst answer)))"
    using assms(1) build_client_Inr [OF assms(2)] by (simp add: redirect_law_def)
  have "pr_up (fst (run_probe e cfg)) \<longleftrightarrow> pr_up (fst (http_probe (http_probe_new (pe_libs e)) e cfg))"
    using assms(3) by (auto simp: dispatch_simps)
  also have "\<dots> \<longleftrightarrow> in_time (probe_timeout cfg) (pe_http_get e client (pc_target cfg)) \<and>
      ft_result (pe_http_get e client (pc_target cfg)) = Inr (unwrap_or (pc_expected_status cfg) 200)"
    using assms(2) by (simp add: http_up_iff)
  finally show ?thesis unfolding get future_then_ready(1)
    using future_then_ready(2) [of "web (pc_target cfg)" "\<lambda>answer. Inr (fst answer)"] in_time_ready by fastforce
qed

lemma fetched_certificate_iff:
  assumes "handshake_law e no_cert peer" "build_tls_config (pe_libs e) = Inr config"
    and "split_host_port target = Some (host, port)" "pe_server_name_ok e host"
    and F: "F = future_then (pe_connect e target) (\<lambda>_. peer (cv_schemes (tc_verifier config)) target host)"
  shows "in_time d (fetch_peer_certificate e config target) \<and> ft_result (fetch_peer_certificate e config target) = Inr der \<longleftrightarrow>
         in_time d F \<and> (\<exists>p rest. ft_result F = Inr p \<and> pt_chain p = der # rest)"
proof -
  let ?judge = "judge_presented (tc_verifier config) no_cert host"
  let ?G = "future_then F (\<lambda>p. ready_at 0 (?judge p))"
  have fetch: "fetch_peer_certificate e config target = future_then ?G (\<lambda>chain. ready_at 0 (leaf_certificate chain))"
    using assms(1,3,4) by (simp add: fetch_peer_certificate_def handshake_law_def future_then_assoc F)
  have leaf: "(\<exists>chain. ?judge p = Inr chain \<and> leaf_certificate chain = Inr der) \<longleftrightarrow> (\<exists>rest. pt_chain p = der # rest)" for p
    unfolding build_tls_config_Inr [OF assms(2)] read_only_verifier_accepts
    by (cases "pt_chain p") (auto simp: leaf_certificate_def ok_or_def)
  show ?thesis
  proof (cases "in_time d F")
    case True
    have ready: "ft_ready ?G \<noteq> None" "ft_ready F \<noteq> None"
      using in_time_ready [of d] True future_then_ready(1) [of d F ?judge] by blast+
    show ?thesis
      unfolding fetch future_then_ready(1) future_then_ready(2) [OF ready(1)] future_then_ready(2) [OF ready(2)]
      using leaf by blast
  qed (simp add: fetch future_then_ready(1))
qed

text \<open>C34: the TLS probe reads certificates, it does not trust them. Under rustls' documented handshake its verdict
  is about whatever leaf certificate the peer presents in time, expired, self-signed or issued for another
  name: it is UP exactly if that certificate has enough days left, and no check of chain, name or
  signature stands in between.\<close>

theorem tls_probe_reads_untrusted_certificates:
  assumes "handshake_law e no_cert peer" and "build_tls_config (pe_libs e) = Inr config"
    and "pc_probe_type cfg = Tls" and "split_host_port (pc_target cfg) = Some (host, port)"
    and "pe_server_name_ok e host"
    and "F = future_then (pe_connect e (pc_target cfg))
               (\<lambda>_. peer (cv_schemes (tc_verifier config)) (pc_target cfg) host)"
  shows "pr_up (fst (run_probe e cfg)) \<longleftrightarrow>
     in_time (probe_timeout cfg) F \<and>
     (\<exists>p leaf rest. ft_result F = Inr p \<and> pt_chain p = leaf # rest \<and> certificate_ok e cfg leaf)"
proof -
  note fetched = fetched_certificate_iff [OF assms(1,2,4,5,6), of "probe_timeout cfg"]
  have "pr_up (fst (run_probe e cfg)) \<longleftrightarrow>
      (\<exists>der. in_time (probe_timeout cfg) (fetch_peer_certificate e config (pc_target cfg)) \<and>
         ft_result (fetch_peer_certificate e config (pc_target cfg)) = Inr der \<and> certificate_ok e cfg der)"
    using assms(2,3) by (simp add: dispatch_simps tls_up_iff with_timeout_Inr_iff)
  then show ?thesis using fetched by blast
qed

text \<open>A peer with a certificate nobody signed, ten days before its end.\<close>

definition self_signed :: presented where
  "self_signed =
     \<lparr>pt_chain = [[48, 3]], pt_ocsp = [], pt_time = 0, pt_tls13 = True, pt_message = [1],
      pt_signed = \<lparr>ds_scheme = 0x0804, ds_signature = []\<rparr>\<rparr>"

definition self_signed_env :: probe_env where
  "self_signed_env = (silent_env 0)
     \<lparr>pe_connect := (\<lambda>_. ready_at 0 (Inr ())), pe_not_after := (\<lambda>_. Inr 864000),
      pe_handshake := (\<lambda>config _ host. future_then (ready_at 1 (Inr self_signed))
        (\<lambda>p. ready_at 0 (judge_presented (tc_verifier config) [] host p)))\<rparr>"

theorem tls_probe_reads_untrusted_certificates_witness:
  "pr_up (fst (run_probe self_signed_env (sample_probe\<lparr>pc_probe_type := Tls\<rparr>)))"
proof -
  let ?e = self_signed_env and ?cfg = "sample_probe\<lparr>pc_probe_type := Tls\<rparr>"
  have law: "handshake_law ?e [] (\<lambda>_ _ _. ready_at 1 (Inr self_signed))"
    by (simp add: handshake_law_def self_signed_env_def)
  have "pe_libs ?e = plain_libs" by (simp add: self_signed_env_def silent_env_def)
  then obtain config where config: "build_tls_config (pe_libs ?e) = Inr config"
    using plain_libs_build(2) by metis
  have split: "split_host_port (pc_target ?cfg) = Some (lit ''db'', 5432)"
    by (simp add: sample_probe_def default_probe_def split_host_port_def rsplit_once_def lit_simps Let_def
        strip_prefix_char_def strip_suffix_char_def parse_u16_def parse_uint_def digits_value_def is_digit_def)
  have name: "pe_server_name_ok ?e (lit ''db'')" by (simp add: self_signed_env_def silent_env_def)
  have "certificate_ok ?e ?cfg [48, 3]"
    using expiry_days_sign(2) [of 864000]
    by (simp add: certificate_ok_def cert_expiry_days_def self_signed_env_def silent_env_def sample_probe_def
        default_probe_def)
  then show ?thesis
    unfolding tls_probe_reads_untrusted_certificates [OF law config _ split name refl, simplified]
    by (simp add: in_time_def future_then_def ready_at_def delayed_def self_signed_env_def silent_env_def self_signed_def
        probe_timeout_def duration_from_secs_def sample_probe_def default_probe_def)
qed

section \<open>Validated targets\<close>

lemma target_ok_split:
  assumes "target_ok p" "pc_probe_type p = Tls" "\<exists>c. c \<noteq> 91 \<and> c \<noteq> 93 \<and> c \<in> set (takeWhile (\<lambda>c. c \<noteq> 58) (pc_target p))"
  shows "split_host_port (pc_target p) \<noteq> None"
proof -
  obtain host port where t: "pc_target p = host @ 58 # port" "parse_u16 port \<noteq> None"
    using assms(1,2) by (auto simp: target_ok_def)
  obtain c where c: "c \<noteq> 91" "c \<noteq> 93" "c \<in> set (takeWhile (\<lambda>c. c \<noteq> 58) (pc_target p))"
    using assms(3) by blast
  have "set (takeWhile (\<lambda>c. c \<noteq> 58) (host @ 58 # port)) \<subseteq> set host"
    by (induction host) auto
  with c(3) have ch: "c \<in> set host" by (auto simp: t(1))
  define h where "h = unwrap_or (strip_prefix_char host 91) host"
  define h' where "h' = unwrap_or (strip_suffix_char h 93) h"
  have "c \<in> set h" using ch c(1) by (cases host) (auto simp: h_def strip_prefix_char_def)
  then have "c \<in> set h'"
    using c(2) by (auto simp: h'_def strip_suffix_char_def) (metis append_butlast_last_id in_set_butlastD set_ConsD rotate1.simps(2) set_rotate1)
  then have "h' \<noteq> []" by auto
  moreover have "rsplit_once 58 (pc_target p) = Some (host, port)"
    using t parse_u16_no_colon by (simp add: rsplit_once_append)
  ultimately show ?thesis
    using t(2) by (auto simp: split_host_port_def Let_def simp flip: h_def h'_def)
qed



end
