(* ===== verification/Web_State.thy ===== *)
theory Web_State
  imports Probe_Result Write_Stats
begin

text \<open>
  The shared state of the HTTP listeners, from \<open>huginn-web/src/state.rs\<close>, the push stream of
  \<open>sse.rs\<close> and the response headers of \<open>headers.rs\<close>. The map of the latest results is a hash map: a
  list of entries with distinct keys whose order nobody may rely on. JSON rendering is an argument.
\<close>

section \<open>Latest results\<close>

type_synonym results_map = "(rstr \<times> probe_result) list"

fun hash_insert :: "rstr \<Rightarrow> 'v \<Rightarrow> (rstr \<times> 'v) list \<Rightarrow> (rstr \<times> 'v) list" where
  "hash_insert k v [] = [(k, v)]"
| "hash_insert k v ((l, w) # m) = (if k = l then (k, v) # m else (l, w) # hash_insert k v m)"

record web_state =
  wb_results :: results_map
  wb_sse_sent :: "rstr list"
  wb_write_stats :: write_stats

definition new_web_state :: "write_stats \<Rightarrow> web_state" where
  "new_web_state stats = \<lparr>wb_results = [], wb_sse_sent = [], wb_write_stats = stats\<rparr>"

text \<open>
  What \<open>rx.recv()\<close> yields. The loop of \<open>start_event_loop\<close> stores each result and offers it to the SSE
  clients; a send without clients is ignored, which is why the messages are only recorded here.
\<close>

datatype recv = RecvOk probe_event | RecvLagged u64 | RecvClosed

fun event_loop :: "(probe_result \<Rightarrow> rstr option) \<Rightarrow> web_state \<Rightarrow> recv list \<Rightarrow> web_state" where
  "event_loop to_json s [] = s"
| "event_loop to_json s (RecvOk (ProbeCompleted r) # rest) =
     event_loop to_json
       (let s1 = s\<lparr>wb_results := hash_insert (pr_probe_name r) r (wb_results s)\<rparr>
        in case to_json r of
             Some json \<Rightarrow> s1\<lparr>wb_sse_sent := wb_sse_sent s1 @ [json]\<rparr>
           | None \<Rightarrow> s1)
       rest"
| "event_loop to_json s (RecvLagged n # rest) = event_loop to_json s rest"
| "event_loop to_json s (RecvClosed # rest) = s"

text \<open>The results the loop handles: those before the channel closes.\<close>

fun handled :: "recv list \<Rightarrow> probe_result list" where
  "handled [] = []"
| "handled (RecvOk (ProbeCompleted r) # rest) = r # handled rest"
| "handled (RecvLagged n # rest) = handled rest"
| "handled (RecvClosed # rest) = []"

lemma map_of_hash_insert: "map_of (hash_insert k v m) = (map_of m)(k \<mapsto> v)"
  by (induction k v m rule: hash_insert.induct) (auto simp: fun_eq_iff)

lemma fst_set_hash_insert: "fst ` set (hash_insert k v m) = insert k (fst ` set m)"
  by (induction k v m rule: hash_insert.induct) auto

definition results_wf :: "results_map \<Rightarrow> bool" where
  "results_wf m \<longleftrightarrow> distinct (map fst m) \<and> (\<forall>(k, r) \<in> set m. pr_probe_name r = k)"

lemma distinct_hash_insert: "distinct (map fst m) \<Longrightarrow> distinct (map fst (hash_insert k v m))"
proof (induction k v m rule: hash_insert.induct)
  case (2 k v l w m)
  then have "l \<notin> insert k (fst ` set m)" if "k \<noteq> l" using that by auto
  with 2 show ?case by (auto simp: fst_set_hash_insert simp del: image_insert)
qed simp

lemma set_hash_insert: "set (hash_insert k v m) \<subseteq> insert (k, v) (set m)"
  by (induction k v m rule: hash_insert.induct) auto

lemma results_wf_insert: "results_wf m \<Longrightarrow> results_wf (hash_insert (pr_probe_name r) r m)"
  unfolding results_wf_def
  using distinct_hash_insert set_hash_insert [of "pr_probe_name r" r m] by fastforce

lemma event_loop_fields:
  "map_of (wb_results (event_loop tj s rs)) =
     foldl (\<lambda>m r. m(pr_probe_name r \<mapsto> r)) (map_of (wb_results s)) (handled rs)"
  "results_wf (wb_results s) \<Longrightarrow> results_wf (wb_results (event_loop tj s rs))"
  "wb_sse_sent (event_loop tj s rs) = wb_sse_sent s @ List.map_filter tj (handled rs)"
  "wb_write_stats (event_loop tj s rs) = wb_write_stats s"
  by (induction tj s rs rule: event_loop.induct)
     (simp_all add: Let_def map_of_hash_insert results_wf_insert List.map_filter_simps split: option.split)

lemma foldl_last_wins:
  "foldl (\<lambda>m r. m(pr_probe_name r \<mapsto> r)) m0 rs name =
     (case filter (\<lambda>r. pr_probe_name r = name) rs of
        [] \<Rightarrow> m0 name
      | hits \<Rightarrow> Some (last hits))"
proof (induction rs rule: rev_induct)
  case (snoc r rs)
  then show ?case by (cases "filter (\<lambda>r. pr_probe_name r = name) rs") auto
qed simp

text \<open>The web state holds, for every probe name, the last result the loop received under that name and no
  other entry; each entry is filed under its own name; and the SSE stream carries the results in order.\<close>

lemma web_state_holds_the_latest_results:
  fixes tj rs stats
  defines "s \<equiv> event_loop tj (new_web_state stats) rs"
  shows "map_of (wb_results s) name =
           (case filter (\<lambda>r. pr_probe_name r = name) (handled rs) of [] \<Rightarrow> None | hits \<Rightarrow> Some (last hits)) \<and>
         results_wf (wb_results s) \<and> wb_sse_sent s = List.map_filter tj (handled rs) \<and>
         wb_write_stats s = stats"
proof -
  have "results_wf (wb_results (new_web_state stats))" by (simp add: new_web_state_def results_wf_def)
  from event_loop_fields(2) [OF this] show ?thesis
    unfolding s_def
    by (simp add: event_loop_fields(1,3,4) foldl_last_wins) (simp add: new_web_state_def split: list.split)
qed

section \<open>Server-sent events\<close>

datatype broadcast_item = ItemOk rstr | ItemLagged u64

definition sse_stream :: "broadcast_item list \<Rightarrow> rstr list" where
  "sse_stream items = List.map_filter (\<lambda>i. case i of ItemOk data \<Rightarrow> Some data | ItemLagged n \<Rightarrow> None) items"

section \<open>Security headers\<close>

type_synonym header_map = "(rstr \<times> rstr) list"

definition csp :: rstr where
  "csp = lit ''default-src '' @ quoted (lit ''none'') @ lit ''; script-src '' @ quoted (lit ''self'') @
     lit ''; style-src '' @ quoted (lit ''self'') @ lit ''; connect-src '' @ quoted (lit ''self'') @
     lit ''; img-src '' @ quoted (lit ''none'') @ lit ''; base-uri '' @ quoted (lit ''none'') @
     lit ''; form-action '' @ quoted (lit ''none'') @ lit ''; frame-ancestors '' @ quoted (lit ''none'')"

definition security_headers_table :: header_map where
  "security_headers_table =
     [(lit ''content-security-policy'', csp),
      (lit ''x-content-type-options'', lit ''nosniff''),
      (lit ''x-frame-options'', lit ''DENY''),
      (lit ''referrer-policy'', lit ''no-referrer''),
      (lit ''cache-control'', lit ''no-store'')]"

text \<open>\<open>HeaderMap::insert\<close> replaces every value the name had.\<close>

definition header_insert :: "header_map \<Rightarrow> rstr \<times> rstr \<Rightarrow> header_map" where
  "header_insert hs h = filter (\<lambda>x. fst x \<noteq> fst h) hs @ [h]"

definition apply_security_headers :: "header_map \<Rightarrow> header_map" where
  "apply_security_headers hs = foldl header_insert hs security_headers_table"

record http_reply =
  hp_status :: nat
  hp_headers :: header_map
  hp_body :: rstr

definition security_headers :: "http_reply \<Rightarrow> http_reply" where
  "security_headers r = r\<lparr>hp_headers := apply_security_headers (hp_headers r)\<rparr>"

definition header_values :: "header_map \<Rightarrow> rstr \<Rightarrow> rstr list" where
  "header_values hs n = map snd (filter (\<lambda>h. fst h = n) hs)"

lemma header_values_insert:
  "header_values (header_insert hs h) n = (if fst h = n then [snd h] else header_values hs n)"
  by (auto simp: header_values_def header_insert_def intro!: arg_cong [where f = "map snd"] filter_cong)

lemma header_values_foldl:
  "distinct (map fst xs) \<Longrightarrow>
   header_values (foldl header_insert hs xs) n =
     (case map_of xs n of Some v \<Rightarrow> [v] | None \<Rightarrow> header_values hs n)"
proof (induction xs rule: rev_induct)
  case (snoc x xs)
  have none: "map_of xs (fst x) = None" using snoc.prems by (auto simp: map_of_eq_None_iff)
  show ?case
  proof (cases "fst x = n")
    case True
    with none show ?thesis by (cases x) (simp add: header_values_insert map_add_def)
  next
    case False
    with snoc show ?thesis
      by (cases x; cases "map_of xs n") (auto simp: header_values_insert map_add_def)
  qed
qed simp

text \<open>Every response leaves with each security header exactly once, with the fixed value, whatever value the
  handler had set; all other headers are untouched.\<close>

lemma responses_carry_security_headers_once:
  "header_values (hp_headers (security_headers r)) n =
     (case map_of security_headers_table n of
        Some v \<Rightarrow> [v]
      | None \<Rightarrow> header_values (hp_headers r) n)"
proof -
  have "distinct (map fst security_headers_table)"
    by (simp add: security_headers_table_def lit_simps)
  then show ?thesis by (simp add: security_headers_def apply_security_headers_def header_values_foldl)
qed

end
