(* ===== verification/Scheduler.thy ===== *)
theory Scheduler
  imports Probes Web_State Transition_Systems
begin

text \<open>
  The event hub of \<open>huginn-core/src/event.rs\<close> and the probe loops of \<open>huginn/src/scheduler.rs\<close>: one task
  per probe, each a loop of two \<open>select!\<close>s, between a timer tick or a completed probe on the one side and
  the shutdown signal on the other. The tasks interleave in any order; time is a number of nanoseconds and
  passes only while every task waits, as it does for a runtime whose tasks compute in no time.
\<close>

section \<open>The event hub\<close>

text \<open>
  What was published, in order, each event with the loop and the instant it comes from. \<open>broadcast::channel\<close>
  panics on a capacity of zero or of more than half of \<open>usize::MAX\<close>.
\<close>

type_synonym event_hub = "(nat \<times> nat \<times> probe_event) list"

definition new_event_hub :: "u64 \<Rightarrow> event_hub option" where
  "new_event_hub capacity = (if capacity = 0 \<or> 0x7FFFFFFFFFFFFFFF < capacity then None else Some [])"

definition publish :: "nat \<Rightarrow> nat \<Rightarrow> probe_event \<Rightarrow> event_hub \<Rightarrow> event_hub" where
  "publish i now event hub = hub @ [(i, now, event)]"

section \<open>One probe loop\<close>

datatype probe_log =
    ProbeUp rstr rstr f64
  | ProbeDown rstr rstr "rstr option"

definition log_outcome :: "probe_result \<Rightarrow> probe_log" where
  "log_outcome r =
     (if pr_up r then ProbeUp (pr_probe_name r) (pr_probe_type r) (pr_response_ms r)
      else ProbeDown (pr_probe_name r) (pr_probe_type r) (pr_error r))"

definition execute_probe :: "probe_env \<Rightarrow> probe_config \<Rightarrow> (probe_result \<times> probe_log) \<times> nat" where
  "execute_probe e cfg = (let (result, t) = run_probe e cfg in ((result, log_outcome result), t))"

text \<open>
  Where a loop is: waiting for the tick that is due at an instant; inside a probe, with the next due tick, the
  instant the probe will complete and what it will report; or returned.
\<close>

datatype loop_pc =
    Ticking nat
  | Probing nat nat "probe_result \<times> probe_log"
  | Stopped

text \<open>
  \<open>next_tick period due now\<close> is the instant of the tick after the one that was due at \<open>due\<close> and taken at
  \<open>now\<close>, by the timer's documented \<open>MissedTickBehavior::Skip\<close>: a later multiple of the period, the next one
  unless ticks were missed. The timer is the runtime's, so this is an argument.
\<close>

definition interval_law :: "(duration \<Rightarrow> nat \<Rightarrow> nat \<Rightarrow> nat) \<Rightarrow> bool" where
  "interval_law next_tick \<longleftrightarrow>
     (\<forall>period due now. 1000000000 \<le> period \<longrightarrow> due \<le> now \<longrightarrow> period dvd due \<longrightarrow>
        now < next_tick period due now \<and> next_tick period due now \<le> now + period \<and>
        period dvd next_tick period due now)"

inductive loop_move ::
    "(duration \<Rightarrow> nat \<Rightarrow> nat \<Rightarrow> nat) \<Rightarrow> probe_config \<Rightarrow> nat \<Rightarrow> bool \<Rightarrow>
     loop_pc \<Rightarrow> loop_pc \<Rightarrow> (probe_result \<times> probe_log) option \<Rightarrow> bool"
  for next_tick cfg now signalled where
  tick:
    "due \<le> now \<Longrightarrow> execute_probe e cfg = (out, t) \<Longrightarrow>
     loop_move next_tick cfg now signalled (Ticking due)
       (Probing (next_tick (probe_interval cfg) due now) (now + t) out) None"
| stop_between_probes:
    "signalled \<Longrightarrow> loop_move next_tick cfg now signalled (Ticking due) Stopped None"
| completed:
    "finish \<le> now \<Longrightarrow> loop_move next_tick cfg now signalled (Probing due finish out) (Ticking due) (Some out)"
| stop_mid_probe:
    "signalled \<Longrightarrow> loop_move next_tick cfg now signalled (Probing due finish out) Stopped None"

inductive_cases loop_moveE: "loop_move next_tick cfg now signalled pc pc' out"
inductive_simps stopped_move [simp]: "loop_move next_tick cfg now signalled Stopped pc' out"
inductive_simps ticking_move: "loop_move next_tick cfg now signalled (Ticking due) pc' out"
inductive_simps probing_move: "loop_move next_tick cfg now signalled (Probing due finish r) pc' out"

fun loop_ready :: "nat \<Rightarrow> bool \<Rightarrow> loop_pc \<Rightarrow> bool" where
  "loop_ready now signalled (Ticking due) = (signalled \<or> due \<le> now)"
| "loop_ready now signalled (Probing due finish out) = (signalled \<or> finish \<le> now)"
| "loop_ready now signalled Stopped = False"

lemma loop_ready_iff: "loop_ready now sg pc \<longleftrightarrow> (\<exists>pc' out. loop_move nt cfg now sg pc pc' out)"
proof (cases pc)
  case (Ticking due)
  obtain out t where run: "execute_probe (silent_env 0) cfg = (out, t)" by (cases "execute_probe (silent_env 0) cfg")
  have "\<exists>pc' out. loop_move nt cfg now sg pc pc' out" if "due \<le> now"
    unfolding Ticking using tick [OF that run] by blast
  with Ticking show ?thesis by (auto simp: ticking_move)
qed (auto simp: probing_move)

section \<open>All probe loops\<close>

record scheduler =
  sc_now :: nat
  sc_signal :: "nat option"
  sc_hub :: event_hub
  sc_logs :: "probe_log list"
  sc_loops :: "loop_pc list"

text \<open>\<open>run\<close>: one loop per configured probe, the first tick of each due at once.\<close>

definition scheduler_run :: "app_config \<Rightarrow> scheduler" where
  "scheduler_run cfg =
     \<lparr>sc_now = 0, sc_signal = None, sc_hub = [], sc_logs = [], sc_loops = map (\<lambda>_. Ticking 0) (ac_probes cfg)\<rparr>"

definition emit :: "nat \<Rightarrow> (probe_result \<times> probe_log) option \<Rightarrow> scheduler \<Rightarrow> scheduler" where
  "emit i out s =
     (case out of
        None \<Rightarrow> s
      | Some (result, entry) \<Rightarrow>
          s\<lparr>sc_logs := sc_logs s @ [entry],
            sc_hub := publish i (sc_now s) (ProbeCompleted result) (sc_hub s)\<rparr>)"

inductive sched_move ::
    "(duration \<Rightarrow> nat \<Rightarrow> nat \<Rightarrow> nat) \<Rightarrow> probe_config list \<Rightarrow> scheduler \<Rightarrow> scheduler \<Rightarrow> bool"
  for next_tick cfgs where
  sched_moveI:
    "i < length (sc_loops s) \<Longrightarrow>
     loop_move next_tick (cfgs ! i) (sc_now s) (sc_signal s \<noteq> None) (sc_loops s ! i) pc' out \<Longrightarrow>
     sched_move next_tick cfgs s (emit i out (s\<lparr>sc_loops := (sc_loops s)[i := pc']\<rparr>))"

inductive sched_step ::
    "(duration \<Rightarrow> nat \<Rightarrow> nat \<Rightarrow> nat) \<Rightarrow> probe_config list \<Rightarrow> scheduler \<Rightarrow> scheduler \<Rightarrow> bool"
  for next_tick cfgs where
  sched_moves: "sched_move next_tick cfgs s t \<Longrightarrow> sched_step next_tick cfgs s t"
| time_passes:
    "\<forall>pc \<in> set (sc_loops s). \<not> loop_ready (sc_now s) (sc_signal s \<noteq> None) pc \<Longrightarrow>
     sched_step next_tick cfgs s (s\<lparr>sc_now := Suc (sc_now s)\<rparr>)"
| shutdown_signal:
    "sc_signal s = None \<Longrightarrow> sched_step next_tick cfgs s (s\<lparr>sc_signal := Some (sc_now s)\<rparr>)"

abbreviation sched_reachable ::
    "(duration \<Rightarrow> nat \<Rightarrow> nat \<Rightarrow> nat) \<Rightarrow> app_config \<Rightarrow> scheduler \<Rightarrow> bool" where
  "sched_reachable next_tick cfg \<equiv>
     reachable_from (\<lambda>s. s = scheduler_run cfg) (sched_step next_tick (ac_probes cfg))"

lemma emit_fields [simp]:
  "sc_now (emit i out s) = sc_now s"
  "sc_signal (emit i out s) = sc_signal s"
  "sc_loops (emit i out s) = sc_loops s"
  by (simp_all add: emit_def split: option.split prod.split)

lemma emit_None [simp]: "emit i None s = s"
  by (simp add: emit_def)

lemma emit_Some [simp]:
  "sc_hub (emit i (Some out) s) = sc_hub s @ [(i, sc_now s, ProbeCompleted (fst out))]"
  "sc_logs (emit i (Some out) s) = sc_logs s @ [snd out]"
  by (simp_all add: emit_def publish_def split: prod.split)

section \<open>What the loops publish\<close>

definition publications :: "nat \<Rightarrow> event_hub \<Rightarrow> nat" where
  "publications i hub = length (filter (\<lambda>p. fst p = i) hub)"

definition published_ok :: "app_config \<Rightarrow> nat \<times> nat \<times> probe_event \<Rightarrow> bool" where
  "published_ok cfg p \<longleftrightarrow>
     (case p of (i, t, ProbeCompleted r) \<Rightarrow>
        i < length (ac_probes cfg) \<and> (\<exists>e. r = fst (run_probe e (ac_probes cfg ! i))))"

lemma published_ok_iff:
  "published_ok cfg (i, t, event) \<longleftrightarrow>
     i < length (ac_probes cfg) \<and> (\<exists>e. event = ProbeCompleted (fst (run_probe e (ac_probes cfg ! i))))"
  by (cases event) (simp add: published_ok_def)

text \<open>The results a loop may still publish come from its own probe.\<close>

definition pc_result_ok :: "probe_config \<Rightarrow> loop_pc \<Rightarrow> bool" where
  "pc_result_ok p pc \<longleftrightarrow>
     (\<forall>due finish out. pc = Probing due finish out \<longrightarrow>
        (\<exists>e. fst out = fst (run_probe e p)) \<and> snd out = log_outcome (fst out))"

fun loop_inv :: "duration \<Rightarrow> nat \<Rightarrow> nat \<Rightarrow> loop_pc \<Rightarrow> bool" where
  "loop_inv period now k (Ticking due) \<longleftrightarrow> period dvd due \<and> k \<le> due div period \<and> due \<le> now + period"
| "loop_inv period now k (Probing due finish out) \<longleftrightarrow>
     period dvd due \<and> Suc k \<le> due div period \<and> due \<le> now + period"
| "loop_inv period now k Stopped \<longleftrightarrow> k \<le> now div period + 1"

definition sched_inv :: "app_config \<Rightarrow> scheduler \<Rightarrow> bool" where
  "sched_inv cfg s \<longleftrightarrow>
     length (sc_loops s) = length (ac_probes cfg) \<and>
     (\<forall>p \<in> set (sc_hub s). published_ok cfg p) \<and>
     sc_logs s = map (\<lambda>p. case p of (i, t, ProbeCompleted r) \<Rightarrow> log_outcome r) (sc_hub s) \<and>
     (\<forall>i < length (ac_probes cfg).
        pc_result_ok (ac_probes cfg ! i) (sc_loops s ! i) \<and>
        loop_inv (probe_interval (ac_probes cfg ! i)) (sc_now s) (publications i (sc_hub s)) (sc_loops s ! i))"

lemma publications_simps [simp]:
  "publications i [] = 0"
  "publications i (hub @ [p]) = publications i hub + (if fst p = i then 1 else 0)"
  by (simp_all add: publications_def)

lemma due_div: "0 < (period :: nat) \<Longrightarrow> due \<le> now + period \<Longrightarrow> due div period \<le> now div period + 1"
  using div_le_mono [of due "now + period" period] by simp

lemma execute_probe_result:
  "execute_probe e cfg = (out, t) \<Longrightarrow> fst out = fst (run_probe e cfg) \<and> snd out = log_outcome (fst out)"
  by (auto simp: execute_probe_def split: prod.splits)

lemma loop_inv_publications:
  assumes "0 < period" "loop_inv period now k pc"
  shows "k \<le> now div period + 1"
proof (cases pc)
  case (Ticking due)
  with assms due_div [of period due now] show ?thesis by simp
next
  case (Probing due finish out)
  with assms due_div [of period due now] show ?thesis by simp
qed (use assms in simp)

lemma loop_inv_later: "loop_inv period now k pc \<Longrightarrow> now \<le> now' \<Longrightarrow> loop_inv period now' k pc"
  using div_le_mono [of now now' period] by (cases pc) auto

lemma dvd_div_less:
  assumes "(p :: nat) dvd a" "p dvd b" "a < b"
  shows "a div p < b div p"
  using assms by (cases "p = 0") (auto elim!: dvdE)

lemma loop_move_inv:
  assumes law: "interval_law nt" and period: "1000000000 \<le> probe_interval cfg"
    and move: "loop_move nt cfg now sg pc pc' out"
    and inv: "loop_inv (probe_interval cfg) now k pc" "pc_result_ok cfg pc"
  shows "loop_inv (probe_interval cfg) now (k + (if out = None then 0 else 1)) pc' \<and> pc_result_ok cfg pc' \<and>
         (\<forall>r entry. out = Some (r, entry) \<longrightarrow> (\<exists>e. r = fst (run_probe e cfg)) \<and> entry = log_outcome r)"
  using move
proof cases
  case (tick due e r t)
  let ?due = "nt (probe_interval cfg) due now"
  have later: "now < ?due" "?due \<le> now + probe_interval cfg" "probe_interval cfg dvd ?due"
    using law period tick inv by (simp_all add: interval_law_def)
  then have "due div probe_interval cfg < ?due div probe_interval cfg"
    using tick inv by (intro dvd_div_less) auto
  with tick(1-3) inv later have "loop_inv (probe_interval cfg) now k pc'" by simp
  moreover have "pc_result_ok cfg pc'"
    using execute_probe_result [OF tick(5)] tick(2) unfolding pc_result_ok_def by (metis loop_pc.inject(2))
  ultimately show ?thesis using tick(3) by simp
next
  case stop_between_probes
  with inv period show ?thesis
    using loop_inv_publications [of "probe_interval cfg" now k pc] by (simp add: pc_result_ok_def)
next
  case completed
  with inv show ?thesis by (auto simp: pc_result_ok_def)
next
  case stop_mid_probe
  with inv period show ?thesis
    using loop_inv_publications [of "probe_interval cfg" now k pc] by (simp add: pc_result_ok_def)
qed

definition intervals_ok :: "app_config \<Rightarrow> bool" where
  "intervals_ok cfg \<longleftrightarrow> (\<forall>p \<in> set (ac_probes cfg). 1000000000 \<le> probe_interval p)"

lemma validated_intervals: "validate cfg = Inr () \<Longrightarrow> intervals_ok cfg"
proof -
  assume "validate cfg = Inr ()"
  then have "\<forall>p \<in> set (ac_probes cfg). probe_ok p"
    unfolding validate_iff by (simp add: config_ok_def)
  then show "intervals_ok cfg"
    by (fastforce simp: intervals_ok_def probe_ok_def probe_interval_def duration_from_secs_def
        word_pos_iff unat_gt_0 Suc_le_eq)
qed

lemma sched_inv_init: "sched_inv cfg (scheduler_run cfg)"
  by (simp add: sched_inv_def scheduler_run_def pc_result_ok_def)

lemma sched_move_inv:
  assumes law: "interval_law nt" and ok: "intervals_ok cfg"
    and move: "sched_move nt (ac_probes cfg) s t" and inv: "sched_inv cfg s"
  shows "sched_inv cfg t"
  using move
proof cases
  case (sched_moveI i pc' out)
  let ?p = "ac_probes cfg ! i"
  from sched_moveI inv have i: "i < length (ac_probes cfg)" by (simp add: sched_inv_def)
  then have "1000000000 \<le> probe_interval ?p" using ok by (simp add: intervals_ok_def)
  from loop_move_inv [OF law this sched_moveI(3)] inv i
  have moved: "loop_inv (probe_interval ?p) (sc_now s) (publications i (sc_hub s) + (if out = None then 0 else 1)) pc'"
    "pc_result_ok ?p pc'"
    "\<And>r entry. out = Some (r, entry) \<Longrightarrow> (\<exists>e. r = fst (run_probe e ?p)) \<and> entry = log_outcome r"
    by (auto simp: sched_inv_def)
  have upd: "(sc_loops s)[i := pc'] ! j = (if j = i then pc' else sc_loops s ! j)" for j
    using sched_moveI(2) by (simp add: nth_list_update)
  show ?thesis
  proof (cases out)
    case None
    with moved inv sched_moveI(1) show ?thesis by (auto simp: sched_inv_def upd)
  next
    case (Some o')
    obtain r entry where o': "o' = (r, entry)" by (cases o')
    with moved(3) Some i have "published_ok cfg (i, sc_now s, ProbeCompleted r)" "entry = log_outcome r"
      by (auto simp: published_ok_def)
    with moved(1,2) inv sched_moveI(1) Some o' show ?thesis by (auto simp: sched_inv_def upd)
  qed
qed

lemma sched_step_inv:
  assumes "interval_law nt" "intervals_ok cfg" "sched_step nt (ac_probes cfg) s t" "sched_inv cfg s"
  shows "sched_inv cfg t"
  using assms(3)
proof cases
  case sched_moves
  then show ?thesis using assms by (blast intro: sched_move_inv)
next
  case time_passes
  with assms(4) show ?thesis by (auto simp: sched_inv_def intro: loop_inv_later)
next
  case shutdown_signal
  with assms(4) show ?thesis by (simp add: sched_inv_def)
qed

interpretation probing: invariant_system "\<lambda>s. s = scheduler_run cfg" "sched_step nt (ac_probes cfg)"
  "\<lambda>s. interval_law nt \<longrightarrow> intervals_ok cfg \<longrightarrow> sched_inv cfg s" for nt cfg
  by unfold_locales (auto intro: sched_inv_init sched_step_inv)

text \<open>C19: under a validated configuration, each published result is what a run of one configured probe returned,
  carries that probe's name, target and type, and is logged exactly once, in order; and no probe is reported
  more often than its interval allows, whatever the tasks' interleaving and however late its ticks.\<close>

theorem probe_loops_publish_only_what_they_measured:
  assumes "validate cfg = Inr ()" and "interval_law next_tick" and "sched_reachable next_tick cfg s"
  shows "(\<forall>(i, t, event) \<in> set (sc_hub s). i < length (ac_probes cfg) \<and>
            (\<exists>e. event = ProbeCompleted (fst (run_probe e (ac_probes cfg ! i))))) \<and>
         sc_logs s = map (\<lambda>p. case p of (i, t, ProbeCompleted r) \<Rightarrow> log_outcome r) (sc_hub s) \<and>
         (\<forall>i < length (ac_probes cfg).
            publications i (sc_hub s) \<le> sc_now s div probe_interval (ac_probes cfg ! i) + 1)"
proof -
  have ok: "intervals_ok cfg" by (rule validated_intervals [OF assms(1)])
  have inv: "sched_inv cfg s" using probing.inv_reachable [OF assms(3)] assms(2) ok by blast
  have "publications i (sc_hub s) \<le> sc_now s div probe_interval (ac_probes cfg ! i) + 1"
    if "i < length (ac_probes cfg)" for i
  proof (rule loop_inv_publications [where pc = "sc_loops s ! i"])
    have "1000000000 \<le> probe_interval (ac_probes cfg ! i)" using ok that by (simp add: intervals_ok_def)
    then show "0 < probe_interval (ac_probes cfg ! i)" by linarith
    show "loop_inv (probe_interval (ac_probes cfg ! i)) (sc_now s) (publications i (sc_hub s)) (sc_loops s ! i)"
      using inv that by (simp add: sched_inv_def)
  qed
  moreover have "\<forall>p \<in> set (sc_hub s). published_ok cfg p" using inv unfolding sched_inv_def by blast
  moreover have "sc_logs s = map (\<lambda>p. case p of (i, t, ProbeCompleted r) \<Rightarrow> log_outcome r) (sc_hub s)"
    using inv unfolding sched_inv_def by blast
  ultimately show ?thesis
    by (simp add: Ball_def published_ok_iff split_paired_All)
qed

section \<open>Shutdown\<close>

text \<open>How many more moves a loop can make before time passes.\<close>

fun moves_left :: "nat \<Rightarrow> loop_pc \<Rightarrow> nat" where
  "moves_left now (Ticking due) = (if due \<le> now then 3 else 1)"
| "moves_left now (Probing due finish out) = (if due \<le> now then 4 else 2)"
| "moves_left now Stopped = 0"

lemma loop_move_decreases:
  assumes "interval_law nt" "1000000000 \<le> probe_interval cfg" "loop_inv (probe_interval cfg) now k pc"
    "loop_move nt cfg now sg pc pc' out"
  shows "moves_left now pc' < moves_left now pc"
  using assms(4)
proof cases
  case (tick due e r t)
  have "now < nt (probe_interval cfg) due now"
    using assms(1-3) tick(1,4) by (simp add: interval_law_def)
  with tick show ?thesis by simp
qed simp_all

lemma sum_list_update_less:
  assumes "i < length xs" "f y < (f (xs ! i) :: nat)"
  shows "sum_list (map f (xs[i := y])) < sum_list (map f xs)"
proof -
  have "xs = take i xs @ xs ! i # drop (Suc i) xs" using assms(1) by (rule id_take_nth_drop)
  then have "sum_list (map f xs) = sum_list (map f (take i xs)) + f (xs ! i) + sum_list (map f (drop (Suc i) xs))"
    by (metis (no_types, lifting) add.assoc list.simps(9) map_append sum_list.Cons sum_list.append)
  with assms show ?thesis by (simp add: upd_conv_take_nth_drop)
qed

lemma sched_move_decreases:
  assumes "interval_law nt" "intervals_ok cfg" "sched_inv cfg s" "sched_move nt (ac_probes cfg) s t"
  shows "sc_now t = sc_now s \<and> sc_signal t = sc_signal s \<and>
         sum_list (map (moves_left (sc_now t)) (sc_loops t)) < sum_list (map (moves_left (sc_now s)) (sc_loops s))"
  using assms(4)
proof cases
  case (sched_moveI i pc' out)
  with assms(3) have i: "i < length (ac_probes cfg)" by (simp add: sched_inv_def)
  have "1000000000 \<le> probe_interval (ac_probes cfg ! i)" using assms(2) i by (simp add: intervals_ok_def)
  moreover have "loop_inv (probe_interval (ac_probes cfg ! i)) (sc_now s) (publications i (sc_hub s)) (sc_loops s ! i)"
    using assms(3) i by (simp add: sched_inv_def)
  ultimately have "moves_left (sc_now s) pc' < moves_left (sc_now s) (sc_loops s ! i)"
    using loop_move_decreases assms(1) sched_moveI(3) by blast
  with sched_moveI(1,2) show ?thesis by (simp add: sum_list_update_less)
qed

lemma moves_left_total: "sum_list (map (moves_left now) pcs) \<le> 4 * length pcs"
proof (induction pcs)
  case (Cons pc pcs)
  then show ?case by (cases pc) simp_all
qed simp

text \<open>The states of one instant.\<close>

definition at_instant ::
    "(duration \<Rightarrow> nat \<Rightarrow> nat \<Rightarrow> nat) \<Rightarrow> app_config \<Rightarrow> nat \<Rightarrow> nat option \<Rightarrow> scheduler \<Rightarrow> bool" where
  "at_instant nt cfg now signal s \<longleftrightarrow>
     interval_law nt \<and> intervals_ok cfg \<and> sched_inv cfg s \<and> sc_now s = now \<and> sc_signal s = signal"

interpretation moving: consuming_system "at_instant nt cfg now signal" "sched_move nt (ac_probes cfg)"
  "at_instant nt cfg now signal" "\<lambda>s. sum_list (map (moves_left now) (sc_loops s))" for nt cfg now signal
proof
  fix s t
  assume "sched_move nt (ac_probes cfg) s t" "at_instant nt cfg now signal s"
  with sched_move_decreases [of nt cfg s t] sched_move_inv [of nt cfg s t]
  show "at_instant nt cfg now signal t"
    "sum_list (map (moves_left now) (sc_loops t)) < sum_list (map (moves_left now) (sc_loops s))"
    by (auto simp: at_instant_def)
qed

definition signal_inv :: "scheduler \<Rightarrow> bool" where
  "signal_inv s \<longleftrightarrow>
     (\<forall>p \<in> set (sc_hub s). fst (snd p) \<le> sc_now s) \<and>
     (\<forall>t0. sc_signal s = Some t0 \<longrightarrow>
        t0 \<le> sc_now s \<and> (sc_now s = t0 \<or> set (sc_loops s) \<subseteq> {Stopped}) \<and>
        (\<forall>p \<in> set (sc_hub s). fst (snd p) \<le> t0))"

lemma emit_hub: "set (sc_hub (emit i out s)) \<subseteq> set (sc_hub s) \<union> {p. fst (snd p) = sc_now s}"
  by (cases out) (auto simp: emit_def publish_def split: prod.split)

lemma sched_move_signal_inv:
  assumes "sched_move nt cfgs s t" "signal_inv s"
  shows "signal_inv t"
  using assms(1)
proof cases
  case (sched_moveI i pc' out)
  have "sc_loops s ! i \<noteq> Stopped" using sched_moveI(3) by auto
  then have running: "\<not> set (sc_loops s) \<subseteq> {Stopped}" using sched_moveI(2) nth_mem by fastforce
  have hub: "set (sc_hub t) \<subseteq> set (sc_hub s) \<union> {p. fst (snd p) = sc_now s}"
    unfolding sched_moveI(1) using emit_hub [of i out "s\<lparr>sc_loops := (sc_loops s)[i := pc']\<rparr>"] by simp
  have same: "sc_now t = sc_now s" "sc_signal t = sc_signal s" unfolding sched_moveI(1) by simp_all
  have past: "\<forall>p \<in> set (sc_hub t). fst (snd p) \<le> sc_now t"
    using assms(2) hub same(1) by (auto simp: signal_inv_def)
  have "sc_now t = t0" if "sc_signal t = Some t0" for t0
    using assms(2) running that same by (simp add: signal_inv_def)
  with past show ?thesis by (auto simp: signal_inv_def)
qed

lemma sched_step_signal_inv:
  assumes "sched_step nt cfgs s t" "signal_inv s"
  shows "signal_inv t"
  using assms(1)
proof cases
  case sched_moves
  then show ?thesis using assms(2) by (rule sched_move_signal_inv)
next
  case time_passes
  have "set (sc_loops s) \<subseteq> {Stopped}" if "sc_signal s \<noteq> None"
  proof
    fix pc assume "pc \<in> set (sc_loops s)"
    then have "\<not> loop_ready (sc_now s) True pc" using time_passes(2) that by simp
    then show "pc \<in> {Stopped}" by (cases pc) simp_all
  qed
  with assms(2) time_passes(1) show ?thesis by (auto simp: signal_inv_def le_Suc_eq)
next
  case shutdown_signal
  with assms(2) show ?thesis by (simp add: signal_inv_def)
qed

interpretation signalled: invariant_system "\<lambda>s. s = scheduler_run cfg" "sched_step nt (ac_probes cfg)" signal_inv
  for nt cfg
proof
  show "s = scheduler_run cfg \<Longrightarrow> signal_inv s" for s by (simp add: signal_inv_def scheduler_run_def)
qed (rule sched_step_signal_inv)

lemma running_can_move:
  assumes "length (sc_loops s) = length cfgs" "sc_signal s \<noteq> None" "\<not> set (sc_loops s) \<subseteq> {Stopped}"
  shows "\<exists>t. sched_move nt cfgs s t"
proof -
  from assms(3) obtain i where i: "i < length (sc_loops s)" "sc_loops s ! i \<noteq> Stopped"
    by (metis in_set_conv_nth insertI1 subsetI)
  then have "loop_ready (sc_now s) (sc_signal s \<noteq> None) (sc_loops s ! i)"
    using assms(2) by (cases "sc_loops s ! i") auto
  then obtain pc' out where
    "loop_move nt (cfgs ! i) (sc_now s) (sc_signal s \<noteq> None) (sc_loops s ! i) pc' out"
    unfolding loop_ready_iff [where nt = nt and cfg = "cfgs ! i"] by blast
  from sched_moveI [OF i(1) this] show ?thesis by blast
qed

text \<open>C6: shutdown stops every probe loop at once. From the instant of the signal time does not pass until all
  loops have returned, nothing is published after that instant (an interrupted probe reports nothing), the
  loops cannot keep each other running (at most four moves each, in any order), and as long as one has not
  returned it can move.\<close>

theorem shutdown_stops_probe_loops_at_once:
  assumes "validate cfg = Inr ()" and "interval_law next_tick" and "sched_reachable next_tick cfg s"
    and "sc_signal s = Some t0"
  shows "(sc_now s = t0 \<or> set (sc_loops s) \<subseteq> {Stopped}) \<and>
         (\<forall>(i, t, event) \<in> set (sc_hub s). t \<le> t0) \<and>
         (\<forall>n s'. (sched_move next_tick (ac_probes cfg) ^^ n) s s' \<longrightarrow>
            n \<le> 4 * length (ac_probes cfg) \<and> sc_now s' = sc_now s \<and>
            (set (sc_loops s') \<subseteq> {Stopped} \<or> (\<exists>s''. sched_move next_tick (ac_probes cfg) s' s'')))"
proof (intro conjI allI impI)
  have ok: "intervals_ok cfg" by (rule validated_intervals [OF assms(1)])
  have inv: "sched_inv cfg s" using probing.inv_reachable [OF assms(3)] assms(2) ok by blast
  have signal: "signal_inv s" by (rule signalled.inv_reachable [OF assms(3)])
  then show "sc_now s = t0 \<or> set (sc_loops s) \<subseteq> {Stopped}" using assms(4) by (simp add: signal_inv_def)
  show "\<forall>(i, t, event) \<in> set (sc_hub s). t \<le> t0" using signal assms(4) by (auto simp: signal_inv_def)
  fix n s' assume moves: "(sched_move next_tick (ac_probes cfg) ^^ n) s s'"
  have start: "at_instant next_tick cfg (sc_now s) (sc_signal s) s" using assms(2) ok inv by (simp add: at_instant_def)
  note bounded = moving.run_bounded [OF moves start] moving.inv_run [OF moves start, unfolded at_instant_def]
  have "length (sc_loops s) = length (ac_probes cfg)" using inv by (simp add: sched_inv_def)
  with bounded moves_left_total [of "sc_now s" "sc_loops s"] show "n \<le> 4 * length (ac_probes cfg)" by simp
  from bounded show "sc_now s' = sc_now s" by simp
  have "length (sc_loops s') = length (ac_probes cfg)" using bounded by (simp add: sched_inv_def)
  with running_can_move [of s' "ac_probes cfg" next_tick] bounded assms(4)
  show "set (sc_loops s') \<subseteq> {Stopped} \<or> (\<exists>s''. sched_move next_tick (ac_probes cfg) s' s'')" by auto
qed

text \<open>A timer that keeps the law, and a run with one publication and a signal, for the witnesses.\<close>

definition skip_tick :: "duration \<Rightarrow> nat \<Rightarrow> nat \<Rightarrow> nat" where
  "skip_tick period due now = (now div period + 1) * period"

lemma skip_tick_law: "interval_law skip_tick"
  unfolding interval_law_def
proof (intro allI impI)
  fix period due now :: nat
  assume "1000000000 \<le> period"
  then have "now < now div period * period + period" "now div period * period \<le> now"
    using dividend_less_div_times [of period now] by simp_all
  then show "now < skip_tick period due now \<and> skip_tick period due now \<le> now + period \<and>
      period dvd skip_tick period due now"
    by (simp add: skip_tick_def algebra_simps)
qed

definition open_env :: probe_env where
  "open_env = (silent_env 0)\<lparr>pe_connect := (\<lambda>_. ready_at 0 (Inr ()))\<rparr>"

definition sample_run :: scheduler where
  "sample_run =
     \<lparr>sc_now = 0, sc_signal = None,
      sc_hub = [(0, 0, ProbeCompleted (fst (run_probe open_env sample_probe)))],
      sc_logs = [log_outcome (fst (run_probe open_env sample_probe))],
      sc_loops = [Ticking (skip_tick (probe_interval sample_probe) 0 0)]\<rparr>"

lemma sample_run_reachable: "sched_reachable skip_tick sample_config sample_run"
proof -
  have probes: "ac_probes sample_config = [sample_probe]" by (simp add: sample_config_def)
  let ?out = "(fst (run_probe open_env sample_probe), log_outcome (fst (run_probe open_env sample_probe)))"
  let ?due = "skip_tick (probe_interval sample_probe) 0 0"
  let ?s = "scheduler_run sample_config"
  have "snd (run_probe open_env sample_probe) = 0"
    by (simp add: dispatch_simps sample_probe_def default_probe_def tcp_probe_def open_env_def
        with_probe_timeout_def ready_at_def)
  then have "execute_probe open_env sample_probe = (?out, 0)"
    by (auto simp: execute_probe_def split: prod.split)
  from tick [OF le_refl this, of skip_tick 0 False]
  have "loop_move skip_tick sample_probe 0 False (Ticking 0) (Probing ?due 0 ?out) None" by simp
  then have "sched_move skip_tick [sample_probe] ?s (?s\<lparr>sc_loops := [Probing ?due 0 ?out]\<rparr>)"
    using sched_moveI [of 0 ?s skip_tick "[sample_probe]" "Probing ?due 0 ?out" None]
    by (simp add: scheduler_run_def probes)
  moreover have "sched_move skip_tick [sample_probe] (?s\<lparr>sc_loops := [Probing ?due 0 ?out]\<rparr>) sample_run"
    using sched_moveI [of 0 "?s\<lparr>sc_loops := [Probing ?due 0 ?out]\<rparr>" skip_tick "[sample_probe]" "Ticking ?due" "Some ?out"]
    by (simp add: scheduler_run_def probes sample_run_def emit_def publish_def completed)
  ultimately show ?thesis
    using reach_init [of "\<lambda>s. s = ?s"] by (metis (mono_tags, lifting) probes sched_moves reach_step)
qed

theorem probe_loops_publish_only_what_they_measured_witness:
  "publications 0 (sc_hub sample_run) \<le> sc_now sample_run div probe_interval sample_probe + 1"
  using probe_loops_publish_only_what_they_measured [OF sample_config_ok skip_tick_law sample_run_reachable]
  by (simp add: sample_config_def)

theorem shutdown_stops_probe_loops_at_once_witness:
  "fst (snd (hd (sc_hub sample_run))) \<le> 0"
proof -
  have "sched_reachable skip_tick sample_config (sample_run\<lparr>sc_signal := Some 0\<rparr>)"
    using reach_step [OF sample_run_reachable shutdown_signal] by (simp add: sample_run_def)
  from shutdown_stops_probe_loops_at_once [OF sample_config_ok skip_tick_law this, of 0]
  show ?thesis by (simp add: sample_run_def)
qed

end
