(* ===== verification/Escape_Interface.thy ===== *)
theory Escape_Interface
  imports Rust_Text
begin

text \<open>
  What an escaping routine and a reader of the format it writes for owe each other: the reader takes one
  escaped character off the front as that character, and ends at a delimiter. From this alone: an
  escaped text is read back whole wherever it stands, no text can run into what follows it, and no two
  texts are written alike. The escapes of line protocol and of the metrics exposition are
  interpretations.
\<close>

locale escape_reader =
  fixes esc :: "rchar \<Rightarrow> rstr"
    and reader :: "rstr \<Rightarrow> (rstr \<times> rstr) option"
    and stops :: "rchar \<Rightarrow> bool"
    and left :: "rchar \<Rightarrow> rstr \<Rightarrow> rstr"
  assumes read_stop: "stops d \<Longrightarrow> reader (d # r) = Some ([], left d r)"
    and read_char: "s \<noteq> [] \<Longrightarrow> reader (esc c @ s) = map_option (\<lambda>(t, r). (c # t, r)) (reader s)"
begin

lemma read_escaped: "stops d \<Longrightarrow> reader (concat (map esc s) @ d # r) = Some (s, left d r)"
  by (induction s) (simp_all add: read_stop read_char)

lemma escaped_apart:
  assumes "stops d" "stops d'" "concat (map esc s) @ d # r = concat (map esc s') @ d' # r'"
  shows "s = s' \<and> left d r = left d' r'"
  using read_escaped [OF assms(1), of s r] read_escaped [OF assms(2), of s' r'] assms(3) by simp

lemma escape_injective:
  assumes "stops d"
  shows "concat (map esc s) = concat (map esc s') \<longleftrightarrow> s = s'"
  using escaped_apart [OF assms assms, of s "[]" s' "[]"] by auto

end

text \<open>An escape that also keeps its text on one line.\<close>

locale line_escape = escape_reader +
  assumes esc_newline_free: "10 \<notin> set (esc c)"
begin

lemma escaped_newline_free: "10 \<notin> set (concat (map esc s))"
  using esc_newline_free by auto

end

end
