(* ===== verification/Line_Protocol.thy ===== *)
theory Line_Protocol
  imports Probe_Result Escape_Interface
begin

text \<open>
  The rendering half of \<open>huginn-influx/src/writer.rs\<close>: one point of InfluxDB line protocol per probe
  result, the two escapes, the newline-joined batch, percent-encoding and the write URL. Against the
  renderer stands a reader of the format (\<open>read_tag\<close>, \<open>read_field\<close>, \<open>read_line\<close>, \<open>split_lines\<close>) and one of
  percent-encoding; the lemmas are round trips through them. The two escapes are interpretations of
  \<open>escape_reader\<close>.
\<close>

section \<open>Escapes\<close>

definition escape_tag :: "rstr \<Rightarrow> rstr" where
  "escape_tag s =
     replace_char 32 [92, 32]
       (replace_char 61 [92, 61] (replace_char 44 [92, 44] (replace_char 92 [92, 92] s)))"

definition escape_field_str :: "rstr \<Rightarrow> rstr" where
  "escape_field_str s =
     replace_char 13 [92, 114]
       (replace_char 10 [92, 110] (replace_char 34 [92, 34] (replace_char 92 [92, 92] s)))"

text \<open>The chains of replacements are single passes.\<close>

definition tag_special :: "rchar \<Rightarrow> bool" where
  "tag_special c \<longleftrightarrow> c = 92 \<or> c = 44 \<or> c = 61 \<or> c = 32"

definition tag_char :: "rchar \<Rightarrow> rstr" where
  "tag_char c = (if tag_special c then [92, c] else [c])"

lemma escape_tag_chars: "escape_tag s = concat (map tag_char s)"
  by (induction s) (auto simp: escape_tag_def tag_char_def tag_special_def)

definition field_char :: "rchar \<Rightarrow> rstr" where
  "field_char c =
     (if c = 92 then [92, 92] else if c = 34 then [92, 34]
      else if c = 10 then [92, 110] else if c = 13 then [92, 114] else [c])"

lemma escape_field_chars: "escape_field_str s = concat (map field_char s)"
  by (induction s) (auto simp: escape_field_str_def field_char_def)

text \<open>A reader of tag values: up to the first delimiter that no backslash protects.\<close>

fun read_tag :: "rstr \<Rightarrow> rstr \<times> rstr" where
  "read_tag [] = ([], [])"
| "read_tag [c] = (if c = 44 \<or> c = 61 \<or> c = 32 then ([], [c]) else ([c], []))"
| "read_tag (c # d # s) =
     (if c = 92 then (let (t, r) = read_tag s in (d # t, r))
      else if c = 44 \<or> c = 61 \<or> c = 32 then ([], c # d # s)
      else (let (t, r) = read_tag (d # s) in (c # t, r)))"

definition delimiter :: "rchar \<Rightarrow> bool" where
  "delimiter c \<longleftrightarrow> c = 44 \<or> c = 61 \<or> c = 32"

lemma read_tag_delimiter: "delimiter d \<Longrightarrow> read_tag (d # r) = ([], d # r)"
  by (cases r) (auto simp: delimiter_def)

lemma read_tag_char:
  "s \<noteq> [] \<Longrightarrow> read_tag (tag_char c @ s) = (let (t, r) = read_tag s in (c # t, r))"
  by (cases s) (auto simp: tag_char_def tag_special_def)

interpretation tag_value: escape_reader tag_char "\<lambda>s. Some (read_tag s)" delimiter "\<lambda>d r. d # r"
  by unfold_locales (simp_all add: read_tag_delimiter read_tag_char split: prod.split)

lemma read_tag_escape: "delimiter d \<Longrightarrow> read_tag (escape_tag s @ d # r) = (s, d # r)"
  using tag_value.read_escaped [of d s r] by (simp add: escape_tag_chars)

text \<open>A reader of quoted field values: up to the first quote that no backslash protects.\<close>

definition unescape_field_char :: "rchar \<Rightarrow> rchar" where
  "unescape_field_char c = (if c = 110 then 10 else if c = 114 then 13 else c)"

fun read_field :: "rstr \<Rightarrow> (rstr \<times> rstr) option" where
  "read_field [] = None"
| "read_field [c] = (if c = 34 then Some ([], []) else None)"
| "read_field (c # d # s) =
     (if c = 92 then map_option (\<lambda>(t, r). (unescape_field_char d # t, r)) (read_field s)
      else if c = 34 then Some ([], d # s)
      else map_option (\<lambda>(t, r). (c # t, r)) (read_field (d # s)))"

lemma read_field_char:
  "s \<noteq> [] \<Longrightarrow> read_field (field_char c @ s) = map_option (\<lambda>(t, r). (c # t, r)) (read_field s)"
  by (cases s) (auto simp: field_char_def unescape_field_char_def)

lemma read_field_quote: "read_field (34 # r) = Some ([], r)"
  by (cases r) simp_all

interpretation field_value: line_escape field_char read_field "\<lambda>d. d = 34" "\<lambda>d r. r"
proof
  show "10 \<notin> set (field_char c)" for c by (simp add: field_char_def)
qed (simp_all add: read_field_quote read_field_char)

lemma read_field_escape: "read_field (escape_field_str s @ 34 # r) = Some (s, r)"
  by (simp add: escape_field_chars field_value.read_escaped)

section \<open>Points and batches\<close>

definition metric_field :: "rstr \<times> f64 \<Rightarrow> rstr" where
  "metric_field kv = [44] @ escape_tag (fst kv) @ [61] @ show_f64 (snd kv)"

definition field_section :: "probe_result \<Rightarrow> rstr" where
  "field_section r =
     lit ''up='' @ show_int (if pr_up r then 1 else 0) @ lit ''i,response_ms='' @ fmt_fixed 3 (pr_response_ms r) @
     (case pr_status_code r of
        Some code \<Rightarrow> lit '',status_code='' @ show_nat (unat code) @ lit ''i''
      | None \<Rightarrow> []) @
     (case pr_error r of
        Some err \<Rightarrow> lit '',error='' @ [34] @ escape_field_str err @ [34]
      | None \<Rightarrow> []) @
     concat (map metric_field (pr_metrics r)) @
     [32] @ show_int (dt_timestamp_millis (pr_timestamp r))"

definition to_line_protocol :: "probe_result \<Rightarrow> rstr" where
  "to_line_protocol r =
     lit ''probe_result,probe_name='' @ escape_tag (pr_probe_name r) @
     lit '',probe_type='' @ escape_tag (pr_probe_type r) @
     lit '',target='' @ escape_tag (pr_target r) @ [32] @ field_section r"

text \<open>What \<open>enqueue\<close> renders from its buffer.\<close>

definition render_batch :: "probe_result list \<Rightarrow> rstr" where
  "render_batch rs = join [10] (map to_line_protocol rs)"

fun split_lines :: "rstr \<Rightarrow> rstr list" where
  "split_lines [] = [[]]"
| "split_lines (c # s) =
     (if c = 10 then [] # split_lines s
      else case split_lines s of [] \<Rightarrow> [[c]] | l # ls \<Rightarrow> (c # l) # ls)"

section \<open>Reading a point\<close>

text \<open>
  The grammar of a line: a measurement, its tags, its fields and the timestamp. A pair is a key, an
  equals sign and a value; the value of a tag is read like a key, that of a field is a quoted text or
  whatever stands before the next comma or space. The fuel is the length of the line.
\<close>

datatype field_value = Quoted rstr | Bare rstr

definition bare_char :: "rchar \<Rightarrow> bool" where
  "bare_char c \<longleftrightarrow> c \<noteq> 44 \<and> c \<noteq> 32"

definition read_value :: "rstr \<Rightarrow> (field_value \<times> rstr) option" where
  "read_value s =
     (case strip_prefix_char s 34 of
        Some t \<Rightarrow> map_option (\<lambda>(v, r). (Quoted v, r)) (read_field t)
      | None \<Rightarrow> Some (Bare (takeWhile bare_char s), dropWhile bare_char s))"

definition read_pair :: "(rstr \<Rightarrow> ('v \<times> rstr) option) \<Rightarrow> rstr \<Rightarrow> ((rstr \<times> 'v) \<times> rstr) option" where
  "read_pair value s =
     (let (k, s1) = read_tag s
      in Option.bind (strip_prefix_char s1 61) (\<lambda>t. map_option (\<lambda>(v, r). ((k, v), r)) (value t)))"

fun read_pairs ::
    "nat \<Rightarrow> (rstr \<Rightarrow> ('v \<times> rstr) option) \<Rightarrow> rstr \<Rightarrow> ((rstr \<times> 'v) list \<times> rstr) option" where
  "read_pairs 0 value s = None"
| "read_pairs (Suc fuel) value s =
     Option.bind (read_pair value s) (\<lambda>(kv, r).
       case strip_prefix_char r 44 of
         Some r' \<Rightarrow> map_option (\<lambda>(kvs, r''). (kv # kvs, r'')) (read_pairs fuel value r')
       | None \<Rightarrow> Some ([kv], r))"

record point =
  po_measurement :: rstr
  po_tags :: "(rstr \<times> rstr) list"
  po_fields :: "(rstr \<times> field_value) list"
  po_timestamp :: rstr

definition read_line :: "rstr \<Rightarrow> point option" where
  "read_line s =
     (let (m, s1) = read_tag s
      in Option.bind (strip_prefix_char s1 44) (\<lambda>s1.
         Option.bind (read_pairs (length s) (\<lambda>t. Some (read_tag t)) s1) (\<lambda>(tags, s2).
         Option.bind (strip_prefix_char s2 32) (\<lambda>s2.
         Option.bind (read_pairs (length s) read_value s2) (\<lambda>(fields, s3).
         map_option (\<lambda>ts. \<lparr>po_measurement = m, po_tags = tags, po_fields = fields, po_timestamp = ts\<rparr>)
           (strip_prefix_char s3 32))))))"

text \<open>What a line should read as.\<close>

definition point_of :: "probe_result \<Rightarrow> point" where
  "point_of r =
     \<lparr>po_measurement = lit ''probe_result'',
      po_tags = [(lit ''probe_name'', pr_probe_name r), (lit ''probe_type'', pr_probe_type r),
                 (lit ''target'', pr_target r)],
      po_fields =
        [(lit ''up'', Bare (if pr_up r then lit ''1i'' else lit ''0i'')),
         (lit ''response_ms'', Bare (fmt_fixed 3 (pr_response_ms r)))] @
        (case pr_status_code r of
           Some code \<Rightarrow> [(lit ''status_code'', Bare (show_nat (unat code) @ lit ''i''))] | None \<Rightarrow> []) @
        (case pr_error r of Some err \<Rightarrow> [(lit ''error'', Quoted err)] | None \<Rightarrow> []) @
        map (\<lambda>(k, v). (k, Bare (show_f64 v))) (pr_metrics r),
      po_timestamp = show_int (dt_timestamp_millis (pr_timestamp r))\<rparr>"

text \<open>The writing side of the grammar.\<close>

definition pair_text :: "('v \<Rightarrow> rstr) \<Rightarrow> rstr \<times> 'v \<Rightarrow> rstr" where
  "pair_text value kv = escape_tag (fst kv) @ [61] @ value (snd kv)"

fun value_text :: "field_value \<Rightarrow> rstr" where
  "value_text (Quoted s) = [34] @ escape_field_str s @ [34]"
| "value_text (Bare s) = s"

fun value_ok :: "field_value \<Rightarrow> bool" where
  "value_ok (Quoted s) = True"
| "value_ok (Bare s) = list_all (\<lambda>c. bare_char c \<and> c \<noteq> 34) s"

lemma read_value_text:
  assumes "value_ok v" "d = 44 \<or> d = 32"
  shows "read_value (value_text v @ d # r) = Some (v, d # r)"
proof (cases v)
  case (Bare s)
  have "\<not> bare_char d" using assms(2) by (auto simp: bare_char_def)
  then have "takeWhile bare_char (s @ d # r) = s" "dropWhile bare_char (s @ d # r) = d # r"
    using assms(1) Bare by (auto simp: list_all_iff)
  moreover have "strip_prefix_char (s @ d # r) 34 = None"
    using assms Bare by (cases s) (auto simp: strip_prefix_char_def)
  ultimately show ?thesis using Bare by (simp add: read_value_def)
qed (simp add: read_value_def read_field_escape strip_prefix_char_def)

lemma read_pair_text:
  assumes "value (w v @ d # r) = Some (v, d # r)"
  shows "read_pair value (pair_text w (k, v) @ d # r) = Some ((k, v), d # r)"
  using read_tag_escape [of 61 k "w v @ d # r"] assms
  by (simp add: read_pair_def pair_text_def delimiter_def strip_prefix_char_def)

lemma read_pairs_text:
  assumes "kvs \<noteq> []" "length kvs \<le> fuel"
    and "\<And>k v d r. (k, v) \<in> set kvs \<Longrightarrow> d = 44 \<or> d = 32 \<Longrightarrow> value (w v @ d # r) = Some (v, d # r)"
  shows "read_pairs fuel value (join [44] (map (pair_text w) kvs) @ 32 # rest) = Some (kvs, 32 # rest)"
  using assms
proof (induction kvs arbitrary: fuel)
  case (Cons kv kvs)
  obtain k v where kv: "kv = (k, v)" by (cases kv)
  obtain n where fuel: "fuel = Suc n" using Cons.prems(2) by (cases fuel) auto
  have one: "read_pair value (pair_text w kv @ d # r) = Some (kv, d # r)" if "d = 44 \<or> d = 32" for d r
    unfolding kv using Cons.prems(3) [of k v] that kv by (intro read_pair_text) simp
  show ?case
  proof (cases kvs)
    case Nil
    then show ?thesis using one [of 32] by (simp add: fuel strip_prefix_char_def)
  next
    case (Cons kv' kvs')
    have "read_pairs n value (join [44] (map (pair_text w) kvs) @ 32 # rest) = Some (kvs, 32 # rest)"
    proof (rule Cons.IH)
      show "kvs \<noteq> []" "length kvs \<le> n" using Cons.prems(2) Cons by (simp_all add: fuel)
      fix k' v and d :: rchar and r :: rstr
      assume "(k', v) \<in> set kvs" "d = 44 \<or> d = 32"
      then show "value (w v @ d # r) = Some (v, d # r)" by (intro Cons.prems(3) [of k']) simp_all
    qed
    then show ?thesis using one [of 44] Cons by (simp add: fuel strip_prefix_char_def)
  qed
qed simp

text \<open>The characters of a printed number: digits, sign, point, and those of \<open>NaN\<close> and \<open>inf\<close>.\<close>

definition number_char :: "rchar \<Rightarrow> bool" where
  "number_char c \<longleftrightarrow> is_digit c \<or> c \<in> {45, 46, 78, 97, 105, 110, 102}"

lemma number_show_uint: "list_all number_char (show_uint i)"
  using show_uint_digits [of i] by (auto simp: list_all_iff number_char_def)

lemma number_pad: "list_all number_char s \<Longrightarrow> list_all number_char (pad_zeros w s)"
  by (auto simp: pad_zeros_def list_all_iff number_char_def is_digit_def)

lemma number_words:
  "list_all number_char (lit ''NaN'')" "list_all number_char (lit ''inf'')" "list_all number_char (sign_text b)"
  "list_all number_char [46]" "list_all number_char [45]" "list_all number_char [48]"
  by (simp_all add: lit_simps sign_text_def number_char_def is_digit_def)

lemma number_text:
  "list_all number_char (show_nat n)" "list_all number_char (show_int i)"
  "list_all number_char (fmt_fixed k x)" "list_all number_char (show_f64 x)"
proof -
  note parts = number_show_uint number_pad number_words
  have decimal: "list_all number_char (show_decimal m e)" for m e
    unfolding show_decimal_def Let_def using parts by simp
  show "list_all number_char (show_nat n)" by (simp add: show_nat_def parts)
  show "list_all number_char (show_int i)" unfolding show_int_def using parts by simp
  show "list_all number_char (fmt_fixed k x)" unfolding fmt_fixed_def Let_def using parts by (simp split: f64.split)
  show "list_all number_char (show_f64 x)"
    unfolding show_f64_def Let_def using parts decimal by (simp split: f64.split prod.split)
qed

lemma number_value_ok: "list_all number_char s \<Longrightarrow> value_ok (Bare s)"
  by (auto simp: list_all_iff number_char_def is_digit_def bare_char_def)

text \<open>The rendered line, in the grammar's terms.\<close>

lemma join_Cons: "join sep (x # xs) = x @ concat (map (\<lambda>y. sep @ y) xs)"
  by (induction xs arbitrary: x) simp_all

lemma label_texts:
  "lit ''probe_result,probe_name='' = escape_tag (lit ''probe_result'') @ [44] @ escape_tag (lit ''probe_name'') @ [61]"
  "lit '',probe_type='' = [44] @ escape_tag (lit ''probe_type'') @ [61]"
  "lit '',target='' = [44] @ escape_tag (lit ''target'') @ [61]"
  "lit ''up='' = escape_tag (lit ''up'') @ [61]"
  "lit ''i,response_ms='' = lit ''i'' @ [44] @ escape_tag (lit ''response_ms'') @ [61]"
  "lit '',status_code='' = [44] @ escape_tag (lit ''status_code'') @ [61]"
  "lit '',error='' = [44] @ escape_tag (lit ''error'') @ [61]"
  by (simp_all add: escape_tag_chars tag_char_def tag_special_def lit_simps)

lemma up_text: "show_int (if b then 1 else 0) @ lit ''i'' = (if b then lit ''1i'' else lit ''0i'')"
  by (simp add: show_int_def show_uint.simps lit_simps)

lemma line_of_point:
  "to_line_protocol r =
     escape_tag (po_measurement (point_of r)) @ [44] @
     join [44] (map (pair_text escape_tag) (po_tags (point_of r))) @ [32] @
     join [44] (map (pair_text value_text) (po_fields (point_of r))) @ [32] @ po_timestamp (point_of r)"
proof -
  have metrics: "concat (map metric_field ms) =
      concat (map (\<lambda>y. [44] @ y) (map (pair_text value_text) (map (\<lambda>(k, v). (k, Bare (show_f64 v))) ms)))" for ms
    by (induction ms) (auto simp: metric_field_def pair_text_def)
  have up: "show_int (if pr_up r then 1 else 0) @ lit ''i'' @ s = (if pr_up r then lit ''1i'' else lit ''0i'') @ s" for s
    unfolding append_assoc [symmetric] up_text ..
  show ?thesis
    unfolding to_line_protocol_def field_section_def label_texts metrics point_of_def point.simps append_assoc up
    by (simp only: list.map append_Cons append_Nil join_Cons concat.simps map_append concat_append append_assoc
        pair_text_def fst_conv snd_conv value_text.simps append_Nil2)
       (auto split: option.split simp: pair_text_def comp_def)
qed

lemma length_join: "length kvs \<le> length (join [44] (map (pair_text w) kvs))"
proof (cases kvs)
  case (Cons kv kvs')
  have "length xs \<le> length (concat (map (\<lambda>y. [44] @ y) (map (pair_text w) xs)))" for xs
    by (induction xs) simp_all
  from this [of kvs'] show ?thesis by (simp add: Cons join_Cons pair_text_def)
qed simp

lemma read_line_point: "read_line (to_line_protocol r) = Some (point_of r)"
proof -
  let ?p = "point_of r" and ?s = "to_line_protocol r"
  let ?tags = "join [44] (map (pair_text escape_tag) (po_tags ?p))"
  let ?fields = "join [44] (map (pair_text value_text) (po_fields ?p))"
  have "length (po_tags ?p) \<le> length ?s" "length (po_fields ?p) \<le> length ?s"
    using length_join [of "po_tags ?p" escape_tag] length_join [of "po_fields ?p" value_text]
    by (simp_all add: line_of_point)
  moreover have "po_tags ?p \<noteq> []" "po_fields ?p \<noteq> []" by (simp_all add: point_of_def)
  moreover have "read_value (value_text v @ d # x) = Some (v, d # x)"
    if "(k, v) \<in> set (po_fields ?p)" "d = 44 \<or> d = 32" for k v d x
  proof (rule read_value_text [OF _ that(2)])
    have "value_ok (Bare (if pr_up r then lit ''1i'' else lit ''0i''))" "value_ok (Bare (lit ''i''))"
      by (simp_all add: lit_simps bare_char_def)
    with that(1) number_value_ok number_text show "value_ok v"
      by (auto simp: point_of_def split: option.splits)
  qed
  moreover have "Some (read_tag (escape_tag v @ d # x)) = Some (v, d # x)" if "d = 44 \<or> d = 32" for v d x
    using that read_tag_escape [of d v x] by (auto simp: delimiter_def)
  ultimately have tags: "read_pairs (length ?s) (\<lambda>t. Some (read_tag t)) (?tags @ 32 # x) = Some (po_tags ?p, 32 # x)"
    and fields: "read_pairs (length ?s) read_value (?fields @ 32 # x) = Some (po_fields ?p, 32 # x)" for x
    by (intro read_pairs_text; blast)+
  have "read_tag ?s = (po_measurement ?p, 44 # ?tags @ 32 # ?fields @ 32 # po_timestamp ?p)"
    unfolding line_of_point by (simp add: read_tag_escape delimiter_def)
  then show ?thesis by (simp add: read_line_def strip_prefix_char_def tags fields)
qed

section \<open>No point breaks out of its line\<close>

lemma newline_free_escape_tag [simp]: "10 \<in> set (escape_tag s) \<longleftrightarrow> 10 \<in> set s"
  by (induction s) (auto simp: escape_tag_chars tag_char_def tag_special_def)

lemma newline_free_field [simp]: "10 \<notin> set (escape_field_str s)"
  unfolding escape_field_chars by (rule field_value.escaped_newline_free)

lemma newline_free_number [simp]:
  "10 \<notin> set (show_nat n)" "10 \<notin> set (show_int i)" "10 \<notin> set (fmt_fixed k x)" "10 \<notin> set (show_f64 x)"
  using number_text(1) [of n] number_text(2) [of i] number_text(3) [of k x] number_text(4) [of x]
  by (auto simp: list_all_iff number_char_def is_digit_def)

lemma newline_free_labels:
  "10 \<notin> set (lit ''probe_result,probe_name='')" "10 \<notin> set (lit '',probe_type='')"
  "10 \<notin> set (lit '',target='')" "10 \<notin> set (lit ''up='')" "10 \<notin> set (lit ''i,response_ms='')"
  "10 \<notin> set (lit '',status_code='')" "10 \<notin> set (lit ''i'')" "10 \<notin> set (lit '',error='')"
  by (simp_all add: lit_simps)

lemma newline_free_field_section:
  assumes "\<forall>k \<in> fst ` set (pr_metrics r). 10 \<notin> set k"
  shows "10 \<notin> set (field_section r)"
  using assms
  by (auto simp: field_section_def newline_free_labels metric_field_def split: option.splits)

definition point_safe :: "probe_result \<Rightarrow> bool" where
  "point_safe r \<longleftrightarrow> 10 \<notin> set (pr_probe_name r) \<and> 10 \<notin> set (pr_probe_type r) \<and> 10 \<notin> set (pr_target r) \<and>
     (\<forall>k \<in> fst ` set (pr_metrics r). 10 \<notin> set k)"

lemma newline_free_line: "point_safe r \<Longrightarrow> 10 \<notin> set (to_line_protocol r)"
  using newline_free_field_section [of r]
  by (simp add: to_line_protocol_def point_safe_def newline_free_labels)

lemma split_lines_plain: "10 \<notin> set s \<Longrightarrow> split_lines s = [s]"
  by (induction s) auto

lemma split_lines_append: "10 \<notin> set s \<Longrightarrow> split_lines (s @ 10 # t) = s # split_lines t"
  by (induction s) auto

lemma split_lines_join:
  "\<forall>s \<in> set ss. 10 \<notin> set s \<Longrightarrow> ss \<noteq> [] \<Longrightarrow> split_lines (join [10] ss) = ss"
proof (induction "[10 :: rchar]" ss rule: join.induct)
  case (3 s s' ss)
  then show ?case by (simp add: split_lines_append)
qed (simp_all add: split_lines_plain)

section \<open>The write URL\<close>

definition unreserved :: "u8 \<Rightarrow> bool" where
  "unreserved b \<longleftrightarrow> is_ascii_alphanumeric (unat b) \<or> b = 45 \<or> b = 95 \<or> b = 46 \<or> b = 126"

definition urlencode_byte :: "u8 \<Rightarrow> rstr" where
  "urlencode_byte b =
     (if unreserved b then [unat b]
      else [37, hex_digit_upper (unat b div 16), hex_digit_upper (unat b mod 16)])"

definition urlencode :: "rstr \<Rightarrow> rstr" where
  "urlencode s = concat (map urlencode_byte (utf8 s))"

definition write_url :: "rstr \<Rightarrow> rstr \<Rightarrow> rstr \<Rightarrow> rstr" where
  "write_url url org bucket =
     trim_end_matches 47 url @ lit ''/api/v2/write?org='' @ urlencode org @
     lit ''&bucket='' @ urlencode bucket @ lit ''&precision=ms''"

definition hex_value :: "rchar \<Rightarrow> nat" where
  "hex_value c = (if c \<le> 57 then c - 48 else c - 55)"

fun percent_decode :: "rstr \<Rightarrow> u8 list" where
  "percent_decode [] = []"
| "percent_decode (c # s) =
     (if c = 37 then
        (case s of a # b # t \<Rightarrow> of_nat (16 * hex_value a + hex_value b) # percent_decode t | _ \<Rightarrow> [])
      else of_nat c # percent_decode s)"

lemma hex_value_digit [simp]: "d < 16 \<Longrightarrow> hex_value (hex_digit_upper d) = d"
  by (auto simp: hex_value_def hex_digit_upper_def)

lemma percent_decode_byte: "percent_decode (urlencode_byte b @ s) = b # percent_decode s"
proof (cases "unreserved b")
  case True
  then have "unat b \<noteq> 37"
    by (auto simp: unreserved_def is_ascii_alphanumeric_def is_digit_def)
  then show ?thesis using True by (simp add: urlencode_byte_def)
next
  case False
  have "unat b div 16 < 16" using unat_u8_less [of b] by linarith
  moreover have "of_nat (16 * (unat b div 16) + unat b mod 16) = b" by (metis mult_div_mod_eq of_nat_unat ucast_id)
  ultimately show ?thesis using False by (simp add: urlencode_byte_def del: of_nat_add of_nat_mult)
qed

lemma percent_decode_concat: "percent_decode (concat (map urlencode_byte bs) @ s) = bs @ percent_decode s"
  by (induction bs) (simp_all add: percent_decode_byte)

lemma percent_decode_urlencode: "percent_decode (urlencode s) = utf8 s"
  using percent_decode_concat [of "utf8 s" "[]"] by (simp add: urlencode_def)

definition url_safe_char :: "rchar \<Rightarrow> bool" where
  "url_safe_char c \<longleftrightarrow> is_ascii_alphanumeric c \<or> c = 45 \<or> c = 95 \<or> c = 46 \<or> c = 126 \<or> c = 37"

lemma hex_digit_upper_safe: "d < 16 \<Longrightarrow> url_safe_char (hex_digit_upper d)"
  by (auto simp: hex_digit_upper_def url_safe_char_def is_ascii_alphanumeric_def is_digit_def)

lemma urlencode_byte_safe: "list_all url_safe_char (urlencode_byte b)"
proof -
  have "unat b div 16 < 16" using unat_u8_less [of b] by linarith
  then have "url_safe_char (hex_digit_upper (unat b div 16))" "url_safe_char (hex_digit_upper (unat b mod 16))"
    by (simp_all add: hex_digit_upper_safe)
  moreover have "url_safe_char (unat b)" if "unreserved b"
    using that by (auto simp: unreserved_def url_safe_char_def)
  moreover have "url_safe_char 37" by (simp add: url_safe_char_def)
  ultimately show ?thesis by (simp add: urlencode_byte_def)
qed

lemma urlencode_safe: "list_all url_safe_char (urlencode s)"
  using urlencode_byte_safe by (auto simp: urlencode_def list_all_concat)

lemma urlencode_inject: "valid_text s \<Longrightarrow> valid_text t \<Longrightarrow> urlencode s = urlencode t \<longleftrightarrow> s = t"
  by (metis percent_decode_urlencode utf8_inject)

section \<open>Properties\<close>


text \<open>A batch holds one line per result: splitting the rendered batch at line feeds gives back
  exactly the rendered points, even if an error text contains line feeds, provided names, types,
  targets and metric keys do not (which loading the configuration guarantees).\<close>

lemma batch_has_one_line_per_result:
  assumes "rs \<noteq> []" "\<forall>r \<in> set rs. point_safe r"
  shows "split_lines (render_batch rs) = map to_line_protocol rs"
  unfolding render_batch_def
  using assms by (intro split_lines_join) (auto simp: newline_free_line)

definition sample_result :: probe_result where
  "sample_result =
     result_failure \<lparr>dt_timestamp = 0, dt_timestamp_millis = 0\<rparr> (lit ''db'') (lit ''tcp'') (lit ''h:1'')
       f64_zero [97, 10, 98]"

text \<open>C38: Percent-encoding works on UTF-8 bytes and is lossless and safe: decoding gives exactly the
  bytes back, and every character of the result is unreserved or belongs to a \<open>%XX\<close> triple.\<close>

theorem urlencode_lossless_and_safe:
  "percent_decode (urlencode s) = utf8 s \<and> list_all url_safe_char (urlencode s)"
  by (simp add: percent_decode_urlencode urlencode_safe)

text \<open>For texts of Unicode scalar values the write URL determines organisation and bucket: neither
  can inject a query parameter.\<close>

lemma write_url_determines_org_and_bucket:
  assumes "valid_text org" "valid_text org'" "valid_text bucket" "valid_text bucket'"
    and "write_url url org bucket = write_url url org' bucket'"
  shows "org = org' \<and> bucket = bucket'"
proof -
  have amp: "38 \<notin> set (urlencode s)" for s
    using urlencode_safe [of s]
    by (auto simp: list_all_iff url_safe_char_def is_ascii_alphanumeric_def is_digit_def)
  have tail: "lit ''&bucket='' @ s = 38 # (lit ''bucket='' @ s)" for s by (simp add: lit_simps)
  have "urlencode org @ 38 # (lit ''bucket='' @ urlencode bucket @ 38 # lit ''precision=ms'') =
      urlencode org' @ 38 # (lit ''bucket='' @ urlencode bucket' @ 38 # lit ''precision=ms'')"
    using assms(5) unfolding write_url_def tail by (simp add: lit_simps)
  then have "urlencode org = urlencode org'" "urlencode bucket = urlencode bucket'"
    by (simp_all add: append_delimiter_unique amp)
  then show ?thesis using urlencode_inject assms(1-4) by blast
qed

end
