(* ===== verification/Config_Load.thy ===== *)
theory Config_Load
  imports App_Config
begin

text \<open>
  The loading of the configuration, from \<open>huginn-core/src/config.rs\<close>: the environment overrides, the
  normalisation of probe names and targets, \<open>load_with_warnings\<close> which puts them in front of
  \<open>validate\<close>, and the reading of the two secret files. Reading a file, stating it, the environment and
  the YAML parser are arguments; a failing one carries the message of its error. A variable the
  environment does not hold as Unicode text counts as unset, as \<open>std::env::var\<close> has it.
\<close>

section \<open>Environment overrides\<close>

type_synonym env = "rstr \<Rightarrow> rstr option"

text \<open>
  What one \<open>if let Ok(v) = std::env::var(..)\<close> does with the value: a new configuration, or a warning
  and the configuration unchanged.
\<close>

type_synonym override = "rstr \<Rightarrow> app_config \<Rightarrow> rstr + app_config"

definition show_bool :: "bool \<Rightarrow> rstr" where
  "show_bool b = (if b then lit ''true'' else lit ''false'')"

definition debug_log_format :: "log_format \<Rightarrow> rstr" where
  "debug_log_format f = (case f of Pretty \<Rightarrow> lit ''Pretty'' | Json \<Rightarrow> lit ''Json'')"

definition parse_flag :: "rstr \<Rightarrow> bool option" where
  "parse_flag v =
     (let w = to_lowercase v
      in if w = lit ''true'' \<or> w = lit ''1'' then Some True
         else if w = lit ''false'' \<or> w = lit ''0'' then Some False else None)"

definition parse_format :: "rstr \<Rightarrow> log_format option" where
  "parse_format v =
     (let w = to_lowercase v
      in if w = lit ''json'' then Some Json else if w = lit ''pretty'' then Some Pretty else None)"

definition unusable :: "string \<Rightarrow> rstr \<Rightarrow> rstr \<Rightarrow> string \<Rightarrow> rstr \<Rightarrow> rstr" where
  "unusable var v problem key kept =
     lit var @ [61] @ quoted v @ lit '' is not a '' @ problem @ [32] @ em_dash @ lit '' keeping '' @
     lit key @ [61] @ kept"

definition bool_problem :: rstr where
  "bool_problem = lit ''boolean (expected true/false/1/0)''"

definition set_influx_url :: override where
  "set_influx_url v c = Inr (c\<lparr>ac_influx := (ac_influx c)\<lparr>ic_url := v\<rparr>\<rparr>)"

definition set_influx_org :: override where
  "set_influx_org v c = Inr (c\<lparr>ac_influx := (ac_influx c)\<lparr>ic_org := v\<rparr>\<rparr>)"

definition set_influx_bucket :: override where
  "set_influx_bucket v c = Inr (c\<lparr>ac_influx := (ac_influx c)\<lparr>ic_bucket := v\<rparr>\<rparr>)"

definition set_influx_token_file :: override where
  "set_influx_token_file v c = Inr (c\<lparr>ac_influx := (ac_influx c)\<lparr>ic_token_file := v\<rparr>\<rparr>)"

definition set_ui_enabled :: override where
  "set_ui_enabled v c =
     (case parse_flag v of
        Some b \<Rightarrow> Inr (c\<lparr>ac_ui := (ac_ui c)\<lparr>uc_enabled := b\<rparr>\<rparr>)
      | None \<Rightarrow> Inl (unusable ''HUGINN_UI_ENABLED'' v bool_problem ''ui.enabled''
                   (show_bool (uc_enabled (ac_ui c)))))"

definition set_ui_bind :: override where
  "set_ui_bind v c =
     (case parse_ip v of
        Some _ \<Rightarrow> Inr (c\<lparr>ac_ui := (ac_ui c)\<lparr>uc_bind := v\<rparr>\<rparr>)
      | None \<Rightarrow> Inl (unusable ''HUGINN_UI_BIND'' v (lit ''valid IP address'') ''ui.bind'' (uc_bind (ac_ui c))))"

definition set_ui_port :: override where
  "set_ui_port v c =
     (case parse_u16 v of
        Some p \<Rightarrow> Inr (c\<lparr>ac_ui := (ac_ui c)\<lparr>uc_port := p\<rparr>\<rparr>)
      | None \<Rightarrow> Inl (unusable ''HUGINN_UI_PORT'' v (lit ''valid port'') ''ui.port''
                   (show_nat (unat (uc_port (ac_ui c))))))"

definition set_metrics_enabled :: override where
  "set_metrics_enabled v c =
     (case parse_flag v of
        Some b \<Rightarrow> Inr (c\<lparr>ac_metrics := (ac_metrics c)\<lparr>mc_enabled := b\<rparr>\<rparr>)
      | None \<Rightarrow> Inl (unusable ''HUGINN_METRICS_ENABLED'' v bool_problem ''metrics.enabled''
                   (show_bool (mc_enabled (ac_metrics c)))))"

definition set_metrics_bind :: override where
  "set_metrics_bind v c =
     (case parse_ip v of
        Some _ \<Rightarrow> Inr (c\<lparr>ac_metrics := (ac_metrics c)\<lparr>mc_bind := v\<rparr>\<rparr>)
      | None \<Rightarrow> Inl (unusable ''HUGINN_METRICS_BIND'' v (lit ''valid IP address'') ''metrics.bind''
                   (mc_bind (ac_metrics c))))"

definition set_metrics_port :: override where
  "set_metrics_port v c =
     (case parse_u16 v of
        Some p \<Rightarrow> Inr (c\<lparr>ac_metrics := (ac_metrics c)\<lparr>mc_port := p\<rparr>\<rparr>)
      | None \<Rightarrow> Inl (unusable ''HUGINN_METRICS_PORT'' v (lit ''valid port'') ''metrics.port''
                   (show_nat (unat (mc_port (ac_metrics c))))))"

definition set_metrics_api_key_file :: override where
  "set_metrics_api_key_file v c = Inr (c\<lparr>ac_metrics := (ac_metrics c)\<lparr>mc_api_key_file := Some v\<rparr>\<rparr>)"

definition set_log_format :: override where
  "set_log_format v c =
     (case parse_format v of
        Some f \<Rightarrow> Inr (c\<lparr>ac_log := (ac_log c)\<lparr>lc_format := f\<rparr>\<rparr>)
      | None \<Rightarrow> Inl (unusable ''HUGINN_LOG_FORMAT'' v (lit ''known format (expected json/pretty)'') ''log.format''
                   (debug_log_format (lc_format (ac_log c)))))"

definition set_log_level :: override where
  "set_log_level v c = Inr (c\<lparr>ac_log := (ac_log c)\<lparr>lc_level := v\<rparr>\<rparr>)"

definition env_table :: "(string \<times> override) list" where
  "env_table =
     [(''INFLUX_URL'', set_influx_url),
      (''INFLUX_ORG'', set_influx_org),
      (''INFLUX_BUCKET'', set_influx_bucket),
      (''INFLUX_TOKEN_FILE'', set_influx_token_file),
      (''HUGINN_UI_ENABLED'', set_ui_enabled),
      (''HUGINN_UI_BIND'', set_ui_bind),
      (''HUGINN_UI_PORT'', set_ui_port),
      (''HUGINN_METRICS_ENABLED'', set_metrics_enabled),
      (''HUGINN_METRICS_BIND'', set_metrics_bind),
      (''HUGINN_METRICS_PORT'', set_metrics_port),
      (''HUGINN_METRICS_API_KEY_FILE'', set_metrics_api_key_file),
      (''HUGINN_LOG_FORMAT'', set_log_format),
      (''HUGINN_LOG_LEVEL'', set_log_level)]"

definition apply_override ::
    "env \<Rightarrow> app_config \<times> rstr list \<Rightarrow> string \<times> override \<Rightarrow> app_config \<times> rstr list" where
  "apply_override env s e =
     (case env (lit (fst e)) of
        None \<Rightarrow> s
      | Some v \<Rightarrow>
          (case snd e v (fst s) of
             Inl w \<Rightarrow> (fst s, snd s @ [w])
           | Inr c \<Rightarrow> (c, snd s)))"

definition apply_env_overrides :: "env \<Rightarrow> app_config \<Rightarrow> app_config \<times> rstr list" where
  "apply_env_overrides env c = foldl (apply_override env) (c, []) env_table"

text \<open>
  The declarative counterpart: every field is decided by its own variable alone, and every warning
  shows the value the configuration file gave.
\<close>

definition from_env :: "env \<Rightarrow> string \<Rightarrow> (rstr \<Rightarrow> 'a option) \<Rightarrow> 'a \<Rightarrow> 'a" where
  "from_env env var parse old =
     (case env (lit var) of None \<Rightarrow> old | Some v \<Rightarrow> unwrap_or (parse v) old)"

definition env_warning ::
    "env \<Rightarrow> string \<Rightarrow> (rstr \<Rightarrow> 'a option) \<Rightarrow> rstr \<Rightarrow> string \<Rightarrow> rstr \<Rightarrow> rstr list" where
  "env_warning env var parse problem key kept =
     (case env (lit var) of
        None \<Rightarrow> []
      | Some v \<Rightarrow> if parse v = None then [unusable var v problem key kept] else [])"

definition checked_ip :: "rstr \<Rightarrow> rstr option" where
  "checked_ip v = map_option (\<lambda>_. v) (parse_ip v)"

definition overridden :: "env \<Rightarrow> app_config \<Rightarrow> app_config" where
  "overridden env c = c
     \<lparr>ac_influx := (ac_influx c)
        \<lparr>ic_url := from_env env ''INFLUX_URL'' Some (ic_url (ac_influx c)),
         ic_org := from_env env ''INFLUX_ORG'' Some (ic_org (ac_influx c)),
         ic_bucket := from_env env ''INFLUX_BUCKET'' Some (ic_bucket (ac_influx c)),
         ic_token_file := from_env env ''INFLUX_TOKEN_FILE'' Some (ic_token_file (ac_influx c))\<rparr>,
      ac_ui := (ac_ui c)
        \<lparr>uc_enabled := from_env env ''HUGINN_UI_ENABLED'' parse_flag (uc_enabled (ac_ui c)),
         uc_bind := from_env env ''HUGINN_UI_BIND'' checked_ip (uc_bind (ac_ui c)),
         uc_port := from_env env ''HUGINN_UI_PORT'' parse_u16 (uc_port (ac_ui c))\<rparr>,
      ac_metrics := (ac_metrics c)
        \<lparr>mc_enabled := from_env env ''HUGINN_METRICS_ENABLED'' parse_flag (mc_enabled (ac_metrics c)),
         mc_bind := from_env env ''HUGINN_METRICS_BIND'' checked_ip (mc_bind (ac_metrics c)),
         mc_port := from_env env ''HUGINN_METRICS_PORT'' parse_u16 (mc_port (ac_metrics c)),
         mc_api_key_file :=
           from_env env ''HUGINN_METRICS_API_KEY_FILE'' (\<lambda>v. Some (Some v)) (mc_api_key_file (ac_metrics c))\<rparr>,
      ac_log := (ac_log c)
        \<lparr>lc_format := from_env env ''HUGINN_LOG_FORMAT'' parse_format (lc_format (ac_log c)),
         lc_level := from_env env ''HUGINN_LOG_LEVEL'' Some (lc_level (ac_log c))\<rparr>\<rparr>"

definition env_warnings :: "env \<Rightarrow> app_config \<Rightarrow> rstr list" where
  "env_warnings env c =
     env_warning env ''HUGINN_UI_ENABLED'' parse_flag bool_problem ''ui.enabled''
       (show_bool (uc_enabled (ac_ui c))) @
     env_warning env ''HUGINN_UI_BIND'' parse_ip (lit ''valid IP address'') ''ui.bind'' (uc_bind (ac_ui c)) @
     env_warning env ''HUGINN_UI_PORT'' parse_u16 (lit ''valid port'') ''ui.port''
       (show_nat (unat (uc_port (ac_ui c)))) @
     env_warning env ''HUGINN_METRICS_ENABLED'' parse_flag bool_problem ''metrics.enabled''
       (show_bool (mc_enabled (ac_metrics c))) @
     env_warning env ''HUGINN_METRICS_BIND'' parse_ip (lit ''valid IP address'') ''metrics.bind''
       (mc_bind (ac_metrics c)) @
     env_warning env ''HUGINN_METRICS_PORT'' parse_u16 (lit ''valid port'') ''metrics.port''
       (show_nat (unat (mc_port (ac_metrics c)))) @
     env_warning env ''HUGINN_LOG_FORMAT'' parse_format (lit ''known format (expected json/pretty)'')
       ''log.format'' (debug_log_format (lc_format (ac_log c)))"

lemma apply_set_influx:
  "apply_override env (c, ws) (var, set_influx_url) =
     (c\<lparr>ac_influx := (ac_influx c)\<lparr>ic_url := from_env env var Some (ic_url (ac_influx c))\<rparr>\<rparr>, ws)"
  "apply_override env (c, ws) (var, set_influx_org) =
     (c\<lparr>ac_influx := (ac_influx c)\<lparr>ic_org := from_env env var Some (ic_org (ac_influx c))\<rparr>\<rparr>, ws)"
  "apply_override env (c, ws) (var, set_influx_bucket) =
     (c\<lparr>ac_influx := (ac_influx c)\<lparr>ic_bucket := from_env env var Some (ic_bucket (ac_influx c))\<rparr>\<rparr>, ws)"
  "apply_override env (c, ws) (var, set_influx_token_file) =
     (c\<lparr>ac_influx := (ac_influx c)\<lparr>ic_token_file := from_env env var Some (ic_token_file (ac_influx c))\<rparr>\<rparr>, ws)"
  by (simp_all add: apply_override_def from_env_def set_influx_url_def set_influx_org_def
      set_influx_bucket_def set_influx_token_file_def split: option.split)

lemma apply_set_ui:
  "apply_override env (c, ws) (''HUGINN_UI_ENABLED'', set_ui_enabled) =
     (c\<lparr>ac_ui := (ac_ui c)\<lparr>uc_enabled := from_env env ''HUGINN_UI_ENABLED'' parse_flag (uc_enabled (ac_ui c))\<rparr>\<rparr>,
      ws @ env_warning env ''HUGINN_UI_ENABLED'' parse_flag bool_problem ''ui.enabled''
        (show_bool (uc_enabled (ac_ui c))))"
  "apply_override env (c, ws) (''HUGINN_UI_BIND'', set_ui_bind) =
     (c\<lparr>ac_ui := (ac_ui c)\<lparr>uc_bind := from_env env ''HUGINN_UI_BIND'' checked_ip (uc_bind (ac_ui c))\<rparr>\<rparr>,
      ws @ env_warning env ''HUGINN_UI_BIND'' parse_ip (lit ''valid IP address'') ''ui.bind'' (uc_bind (ac_ui c)))"
  "apply_override env (c, ws) (''HUGINN_UI_PORT'', set_ui_port) =
     (c\<lparr>ac_ui := (ac_ui c)\<lparr>uc_port := from_env env ''HUGINN_UI_PORT'' parse_u16 (uc_port (ac_ui c))\<rparr>\<rparr>,
      ws @ env_warning env ''HUGINN_UI_PORT'' parse_u16 (lit ''valid port'') ''ui.port''
        (show_nat (unat (uc_port (ac_ui c)))))"
  by (simp_all add: apply_override_def from_env_def env_warning_def checked_ip_def set_ui_enabled_def
      set_ui_bind_def set_ui_port_def split: option.split)

lemma apply_set_metrics:
  "apply_override env (c, ws) (''HUGINN_METRICS_ENABLED'', set_metrics_enabled) =
     (c\<lparr>ac_metrics := (ac_metrics c)
        \<lparr>mc_enabled := from_env env ''HUGINN_METRICS_ENABLED'' parse_flag (mc_enabled (ac_metrics c))\<rparr>\<rparr>,
      ws @ env_warning env ''HUGINN_METRICS_ENABLED'' parse_flag bool_problem ''metrics.enabled''
        (show_bool (mc_enabled (ac_metrics c))))"
  "apply_override env (c, ws) (''HUGINN_METRICS_BIND'', set_metrics_bind) =
     (c\<lparr>ac_metrics := (ac_metrics c)
        \<lparr>mc_bind := from_env env ''HUGINN_METRICS_BIND'' checked_ip (mc_bind (ac_metrics c))\<rparr>\<rparr>,
      ws @ env_warning env ''HUGINN_METRICS_BIND'' parse_ip (lit ''valid IP address'') ''metrics.bind''
        (mc_bind (ac_metrics c)))"
  "apply_override env (c, ws) (''HUGINN_METRICS_PORT'', set_metrics_port) =
     (c\<lparr>ac_metrics := (ac_metrics c)
        \<lparr>mc_port := from_env env ''HUGINN_METRICS_PORT'' parse_u16 (mc_port (ac_metrics c))\<rparr>\<rparr>,
      ws @ env_warning env ''HUGINN_METRICS_PORT'' parse_u16 (lit ''valid port'') ''metrics.port''
        (show_nat (unat (mc_port (ac_metrics c)))))"
  "apply_override env (c, ws) (var, set_metrics_api_key_file) =
     (c\<lparr>ac_metrics := (ac_metrics c)
        \<lparr>mc_api_key_file := from_env env var (\<lambda>v. Some (Some v)) (mc_api_key_file (ac_metrics c))\<rparr>\<rparr>, ws)"
  by (simp_all add: apply_override_def from_env_def env_warning_def checked_ip_def set_metrics_enabled_def
      set_metrics_bind_def set_metrics_port_def set_metrics_api_key_file_def split: option.split)

lemma apply_set_log:
  "apply_override env (c, ws) (''HUGINN_LOG_FORMAT'', set_log_format) =
     (c\<lparr>ac_log := (ac_log c)\<lparr>lc_format := from_env env ''HUGINN_LOG_FORMAT'' parse_format (lc_format (ac_log c))\<rparr>\<rparr>,
      ws @ env_warning env ''HUGINN_LOG_FORMAT'' parse_format (lit ''known format (expected json/pretty)'')
        ''log.format'' (debug_log_format (lc_format (ac_log c))))"
  "apply_override env (c, ws) (var, set_log_level) =
     (c\<lparr>ac_log := (ac_log c)\<lparr>lc_level := from_env env var Some (lc_level (ac_log c))\<rparr>\<rparr>, ws)"
  by (simp_all add: apply_override_def from_env_def env_warning_def set_log_format_def set_log_level_def
      split: option.split)

lemmas apply_set_simps = apply_set_influx apply_set_ui apply_set_metrics apply_set_log

text \<open>
  The ordered chain of environment overrides is independent of its order: each setting is decided by its own
  variable, and a variable that cannot be used leaves the setting of the file in place and adds exactly one
  warning, which names the variable, its value and the setting that stays.
\<close>

lemma apply_env_overrides_eq: "apply_env_overrides env c = (overridden env c, env_warnings env c)"
  unfolding apply_env_overrides_def env_table_def
  by (simp add: apply_set_simps overridden_def env_warnings_def)

section \<open>Control characters in names and targets\<close>

definition rewritten_warning :: "string \<Rightarrow> rstr \<Rightarrow> rstr" where
  "rewritten_warning field escaped =
     lit ''probe '' @ lit field @ lit '' contains control characters and was rewritten to '' @ quoted escaped @
     [32] @ em_dash @
     lit '' they reach the console, the Prometheus labels and the InfluxDB tags, where a control byte drives the reader'' @
     single_quote @ lit ''s terminal''"

definition escape_field :: "string \<Rightarrow> rstr \<Rightarrow> rstr \<times> rstr list" where
  "escape_field field v =
     (let escaped = escape_control_chars v
      in if escaped \<noteq> v then (escaped, [rewritten_warning field escaped]) else (v, []))"

definition escape_probe :: "probe_config \<Rightarrow> probe_config \<times> rstr list" where
  "escape_probe p =
     (let (n, ws) = escape_field ''name'' (pc_name p);
          (t, us) = escape_field ''target'' (pc_target p)
      in (p\<lparr>pc_name := n, pc_target := t\<rparr>, ws @ us))"

definition escape_control_chars_in_names :: "app_config \<Rightarrow> app_config \<times> rstr list" where
  "escape_control_chars_in_names c =
     (c\<lparr>ac_probes := map (\<lambda>p. fst (escape_probe p)) (ac_probes c)\<rparr>,
      concat (map (\<lambda>p. snd (escape_probe p)) (ac_probes c)))"

lemma escape_field_fst [simp]: "fst (escape_field f v) = escape_control_chars v"
  by (simp add: escape_field_def Let_def)

lemma escape_field_snd: "snd (escape_field f v) = (if control_free v then [] else
    [rewritten_warning f (escape_control_chars v)])"
  by (auto simp: escape_field_def Let_def escape_eq_self_iff)

lemma escape_probe_fields [simp]:
  "pc_name (fst (escape_probe p)) = escape_control_chars (pc_name p)"
  "pc_target (fst (escape_probe p)) = escape_control_chars (pc_target p)"
  "pc_probe_type (fst (escape_probe p)) = pc_probe_type p"
  "snd (escape_probe p) = snd (escape_field ''name'' (pc_name p)) @ snd (escape_field ''target'' (pc_target p))"
  by (simp_all add: escape_probe_def case_prod_unfold)

section \<open>Loading\<close>

text \<open>
  \<open>read_to_string\<close> and \<open>parse_yaml\<close> stand for the standard library's file reading and for the YAML
  deserialiser; each yields the text of its error or its value.
\<close>

definition load_with_warnings ::
    "(rstr \<Rightarrow> rstr + rstr) \<Rightarrow> (rstr \<Rightarrow> rstr + app_config) \<Rightarrow> env \<Rightarrow> rstr \<Rightarrow>
     hugin_error + (app_config \<times> rstr list)" where
  "load_with_warnings read_to_string parse_yaml env path =
     and_then (map_err (\<lambda>e. Config (lit ''Cannot read config file '' @ quoted path @ lit '': '' @ e))
                (read_to_string path)) (\<lambda>content.
     and_then (map_err (\<lambda>e. Config (lit ''YAML parse error: '' @ e)) (parse_yaml content)) (\<lambda>cfg.
       let (cfg1, warnings) = apply_env_overrides env cfg;
           (cfg2, more) = escape_control_chars_in_names cfg1
       in and_then (validate cfg2) (\<lambda>_. Inr (cfg2, warnings @ more))))"

definition load ::
    "(rstr \<Rightarrow> rstr + rstr) \<Rightarrow> (rstr \<Rightarrow> rstr + app_config) \<Rightarrow> env \<Rightarrow> rstr \<Rightarrow> hugin_error + app_config" where
  "load read_to_string parse_yaml env path =
     map_sum id fst (load_with_warnings read_to_string parse_yaml env path)"

text \<open>The configuration a file and an environment give, before it is validated.\<close>

definition normalised :: "env \<Rightarrow> app_config \<Rightarrow> app_config" where
  "normalised env cfg = fst (escape_control_chars_in_names (fst (apply_env_overrides env cfg)))"

lemma overridden_probes [simp]: "ac_probes (fst (apply_env_overrides env c)) = ac_probes c"
  unfolding apply_env_overrides_def env_table_def by (simp add: apply_set_simps)

lemma normalised_probes:
  "ac_probes (normalised env cfg) = map (\<lambda>p. fst (escape_probe p)) (ac_probes cfg)"
  by (simp add: normalised_def escape_control_chars_in_names_def)

lemma normalised_log: "ac_log (normalised env cfg) = ac_log (overridden env cfg)"
  by (simp add: normalised_def escape_control_chars_in_names_def apply_env_overrides_eq)

lemma load_Inr_iff:
  "load_with_warnings rd yaml env path = Inr (c, ws) \<longleftrightarrow>
     (\<exists>content cfg. rd path = Inr content \<and> yaml content = Inr cfg \<and> c = normalised env cfg \<and>
        validate c = Inr () \<and>
        ws = snd (apply_env_overrides env cfg) @
             snd (escape_control_chars_in_names (fst (apply_env_overrides env cfg))))"
  unfolding load_with_warnings_def and_then_Inr_iff map_err_Inr_iff normalised_def case_prod_unfold Let_def
  by auto

lemma validate_distinct_names:
  assumes "validate c = Inr ()" shows "distinct (map pc_name (ac_probes c))"
  using assms unfolding validate_def by (auto simp: and_then_Inr_iff validate_probes_iff)

lemma loaded_probes_printable:
  assumes "load_with_warnings rd yaml env path = Inr (c, ws)" "p \<in> set (ac_probes c)"
  shows "control_free (pc_name p) \<and> control_free (pc_target p)"
  using assms by (auto simp: load_Inr_iff normalised_probes)

text \<open>C11: every name and target of a configuration that loads is free of control characters, and the names
  are distinct as they are after the rewriting, so two names that differ in the file only by a control
  character and its escape are refused rather than merged downstream.\<close>

theorem loaded_names_are_printable_and_distinct:
  assumes "load_with_warnings rd yaml env path = Inr (c, ws)"
  shows "(\<forall>p \<in> set (ac_probes c). control_free (pc_name p) \<and> control_free (pc_target p)) \<and>
         distinct (map pc_name (ac_probes c))"
proof -
  have "validate c = Inr ()" using assms by (auto simp: load_Inr_iff)
  with loaded_probes_printable [OF assms] validate_distinct_names show ?thesis by blast
qed

text \<open>Loading is transparent for a clean configuration: with nothing in the environment and no control
  characters in names and targets, what loads is what the YAML file says, with no warning, and it loads
  exactly when validation accepts it.\<close>

lemma clean_config_loads_unchanged:
  assumes "rd path = Inr content" and "yaml content = Inr cfg" and "\<forall>v. env v = None"
    and "\<forall>p \<in> set (ac_probes cfg). control_free (pc_name p) \<and> control_free (pc_target p)"
  shows "load_with_warnings rd yaml env path =
           and_then (validate cfg) (\<lambda>_. Inr (cfg, []))"
proof -
  have "apply_override env s e = s" for s e using assms(3) by (simp add: apply_override_def)
  then have env: "apply_env_overrides env cfg = (cfg, [])"
    by (simp add: apply_env_overrides_def env_table_def)
  have probe: "escape_probe p = (p, [])" if "p \<in> set (ac_probes cfg)" for p
    using assms(4) that by (simp add: escape_probe_def escape_field_def)
  then have "map (\<lambda>p. fst (escape_probe p)) (ac_probes cfg) = ac_probes cfg"
    "concat (map (\<lambda>p. snd (escape_probe p)) (ac_probes cfg)) = []"
    using assms(4) by (auto simp: escape_field_snd intro: map_idI)
  then have "escape_control_chars_in_names cfg = (cfg, [])"
    by (simp add: escape_control_chars_in_names_def)
  with assms(1,2) env show ?thesis by (simp add: load_with_warnings_def)
qed

lemma sample_config_loads:
  "load_with_warnings (\<lambda>_. Inr []) (\<lambda>_. Inr sample_config) (\<lambda>_. None) [] = Inr (sample_config, [])"
proof -
  have "\<forall>p \<in> set (ac_probes sample_config). control_free (pc_name p) \<and> control_free (pc_target p)"
    by (simp add: sample_config_def sample_probe_def default_probe_def control_free_def is_control_def lit_simps)
  from clean_config_loads_unchanged [OF _ _ _ this, of "\<lambda>_. Inr []" "[]" "[]" "\<lambda>_. Inr sample_config" "\<lambda>_. None"]
  show ?thesis by (simp add: sample_config_ok)
qed

section \<open>Secret files\<close>

text \<open>
  \<open>metadata path\<close> is the mode of the file, if it can be read. A warning is the path and the mode as
  it is printed. \<open>read_token\<close> and \<open>read_api_key\<close> give their result and the warnings logged.
\<close>

definition warn_if_readable_by_others :: "(rstr \<Rightarrow> u32 option) \<Rightarrow> rstr \<Rightarrow> (rstr \<times> rstr) list" where
  "warn_if_readable_by_others metadata path =
     (case metadata path of
        None \<Rightarrow> []
      | Some m \<Rightarrow>
          (let mode = and m 0x1FF
           in if and mode 0x3F \<noteq> 0 then [(path, pad_zeros 4 (show_oct (unat mode)))] else []))"

definition read_secret ::
    "(rstr \<Rightarrow> rstr + rstr) \<Rightarrow> (rstr \<Rightarrow> u32 option) \<Rightarrow> string \<Rightarrow> rstr \<Rightarrow> (hugin_error + rstr) \<times> (rstr \<times> rstr) list" where
  "read_secret read_to_string metadata empty_message path =
     (case map_err (Secret path) (map_sum id trim (read_to_string path)) of
        Inl e \<Rightarrow> (Inl e, [])
      | Inr secret \<Rightarrow>
          (if secret = [] then Inl (Secret path (lit empty_message)) else Inr secret,
           warn_if_readable_by_others metadata path))"

definition read_token ::
    "(rstr \<Rightarrow> rstr + rstr) \<Rightarrow> (rstr \<Rightarrow> u32 option) \<Rightarrow> influx_config \<Rightarrow>
     (hugin_error + rstr) \<times> (rstr \<times> rstr) list" where
  "read_token read_to_string metadata i =
     read_secret read_to_string metadata ''InfluxDB token file is empty'' (ic_token_file i)"

definition read_api_key ::
    "(rstr \<Rightarrow> rstr + rstr) \<Rightarrow> (rstr \<Rightarrow> u32 option) \<Rightarrow> metrics_config \<Rightarrow>
     (hugin_error + rstr option) \<times> (rstr \<times> rstr) list" where
  "read_api_key read_to_string metadata m =
     (case mc_api_key_file m of
        None \<Rightarrow> (Inr None, [])
      | Some path \<Rightarrow>
          (let (r, log) = read_secret read_to_string metadata ''metrics API key file is empty'' path
           in (map_sum id Some r, log)))"

lemma read_secret_Inr_iff:
  "fst (read_secret rd md msg path) = Inr s \<longleftrightarrow> (\<exists>text. rd path = Inr text \<and> s = trim text \<and> trim text \<noteq> [])"
  by (cases "rd path") (auto simp: read_secret_def)

lemma read_api_key_Inr_iff:
  "fst (read_api_key rd md m) = Inr r \<longleftrightarrow>
      (case mc_api_key_file m of None \<Rightarrow> r = None
       | Some path \<Rightarrow> \<exists>s. r = Some s \<and> fst (read_secret rd md ''metrics API key file is empty'' path) = Inr s)"
  by (cases "mc_api_key_file m")
     (auto simp: read_api_key_def case_prod_unfold map_sum_def Let_def split: sum.splits)

lemma trim_nonempty_iff: "trim s \<noteq> [] \<longleftrightarrow> (\<exists>c \<in> set s. \<not> is_whitespace c)"
proof
  show "trim s \<noteq> []" if "\<exists>c \<in> set s. \<not> is_whitespace c"
  proof -
    let ?s = "dropWhile is_whitespace s"
    have "?s \<noteq> []" using that by (simp add: dropWhile_eq_Nil_conv)
    then have "\<not> is_whitespace (hd ?s)" "hd ?s \<in> set (rev ?s)" using hd_dropWhile [of is_whitespace s] by simp_all
    then show ?thesis unfolding trim_def by (metis dropWhile_eq_Nil_conv rev_is_Nil_conv)
  qed
  show "\<exists>c \<in> set s. \<not> is_whitespace c" if "trim s \<noteq> []"
  proof (rule ccontr)
    assume "\<not> (\<exists>c \<in> set s. \<not> is_whitespace c)"
    then have "dropWhile is_whitespace s = []" by (simp add: dropWhile_eq_Nil_conv)
    with that show False by (simp only: trim_def rev.simps dropWhile.simps)
  qed
qed

text \<open>C25: secrets fail closed. A token or key is read exactly when its file can be read and holds something other
  than white space, and it is then what the file holds without the white space around it; a file that is
  unreadable or blank is an error; and the answer that stands for no authentication is given exactly when
  no key file is configured, whatever the files hold.\<close>

theorem secrets_fail_closed:
  "(fst (read_token rd md i) = Inr t \<longleftrightarrow>
      (\<exists>text. rd (ic_token_file i) = Inr text \<and> t = trim text \<and> (\<exists>c \<in> set text. \<not> is_whitespace c))) \<and>
   (fst (read_api_key rd md m) = Inr None \<longleftrightarrow> mc_api_key_file m = None) \<and>
   (fst (read_api_key rd md m) = Inr (Some k) \<longleftrightarrow>
      (\<exists>path text. mc_api_key_file m = Some path \<and> rd path = Inr text \<and> k = trim text \<and>
         (\<exists>c \<in> set text. \<not> is_whitespace c)))"
  unfolding read_api_key_Inr_iff read_token_def read_secret_Inr_iff trim_nonempty_iff
  by (auto split: option.split)

section \<open>The hypotheses can be met\<close>

text \<open>A configuration that loads although a probe is named by an escape sequence.\<close>

definition hostile_probe :: probe_config where
  "hostile_probe = sample_probe\<lparr>pc_name := [27, 91]\<rparr>"

definition hostile_config :: app_config where
  "hostile_config = sample_config\<lparr>ac_probes := [hostile_probe]\<rparr>"

lemma hostile_config_loads:
  "\<exists>c ws. load_with_warnings (\<lambda>_. Inr []) (\<lambda>_. Inr hostile_config) (\<lambda>_. None) [] = Inr (c, ws) \<and>
     ac_probes c = [fst (escape_probe hostile_probe)]"
proof -
  let ?n = "normalised (\<lambda>_. None) hostile_config"
  have probes: "ac_probes ?n = [fst (escape_probe hostile_probe)]"
    by (simp add: normalised_probes hostile_config_def)
  have "apply_override (\<lambda>_. None) s e = s" for s e by (simp add: apply_override_def)
  then have n: "?n = sample_config\<lparr>ac_probes := [fst (escape_probe hostile_probe)]\<rparr>"
    by (simp add: normalised_def escape_control_chars_in_names_def apply_env_overrides_def env_table_def
        hostile_config_def)
  have same: "fst (escape_probe hostile_probe) = sample_probe\<lparr>pc_name := escape_control_chars [27, 91]\<rparr>"
    by (simp add: escape_probe_def escape_field_def hostile_probe_def sample_probe_def default_probe_def lit_simps
        is_control_def Let_def)
  have "validate ?n = Inr ()"
    unfolding n same by (rule sample_config_rename) (simp add: escape_control_chars_def is_control_def
        escape_control_char_def)
  with probes show ?thesis by (auto simp: load_Inr_iff)
qed

theorem loaded_names_are_printable_and_distinct_witness:
  "control_free (pc_name (fst (escape_probe hostile_probe)))"
proof -
  obtain c ws where c: "load_with_warnings (\<lambda>_. Inr []) (\<lambda>_. Inr hostile_config) (\<lambda>_. None) [] = Inr (c, ws)"
    "ac_probes c = [fst (escape_probe hostile_probe)]"
    using hostile_config_loads by blast
  from loaded_names_are_printable_and_distinct [OF c(1)] c(2) show ?thesis by simp
qed

end
