(* ===== verification/Influx_Writer.thy ===== *)
theory Influx_Writer
  imports Retry_Queue Line_Protocol Config_Load Transition_Systems
begin

text \<open>
  The writing side of \<open>huginn-influx/src/writer.rs\<close>: the HTTP request for a batch, the classification
  of the server's answer into success, worth retrying and never acceptable, the retry delay, and the
  writer task as a step function over the shared queue. What the HTTP client returns for a request is
  an argument; the lemmas are about every such client.
\<close>

section \<open>Writing one batch\<close>

datatype write_error =
    Transport rstr
  | Server u16 rstr "u64 option"
  | Client u16 rstr

definition show_write_error :: "write_error \<Rightarrow> rstr" where
  "show_write_error e =
     (case e of
        Transport m \<Rightarrow> lit ''transport error: '' @ m
      | Server status body _ \<Rightarrow> lit ''InfluxDB returned HTTP '' @ show_nat (unat status) @ lit '': '' @ body
      | Client status body \<Rightarrow>
          lit ''InfluxDB rejected the write: HTTP '' @ show_nat (unat status) @ lit '': '' @ body)"

definition is_retryable :: "write_error \<Rightarrow> bool" where
  "is_retryable e = (case e of Client _ _ \<Rightarrow> False | _ \<Rightarrow> True)"

definition retry_after_secs :: "write_error \<Rightarrow> u64 option" where
  "retry_after_secs e = (case e of Server _ _ secs \<Rightarrow> secs | _ \<Rightarrow> None)"

record influx_writer =
  iw_write_url :: rstr
  iw_token :: rstr

text \<open>\<open>build_client\<close> is the outcome of building the HTTP client.\<close>

definition new_writer ::
    "(rstr \<Rightarrow> rstr + rstr) \<Rightarrow> (rstr \<Rightarrow> u32 option) \<Rightarrow> rstr + unit \<Rightarrow> influx_config \<Rightarrow>
     hugin_error + influx_writer" where
  "new_writer read_to_string metadata build_client cfg =
     and_then (fst (read_token read_to_string metadata cfg)) (\<lambda>token.
     and_then (map_err Influx build_client) (\<lambda>_.
       Inr \<lparr>iw_write_url = write_url (ic_url cfg) (ic_org cfg) (ic_bucket cfg), iw_token = token\<rparr>))"

record http_request =
  hq_url :: rstr
  hq_headers :: "(rstr \<times> rstr) list"
  hq_body :: rstr

text \<open>
  An answer: its status, the text of its \<open>Retry-After\<close> header when there is one that is text, and its
  body when that could be read.
\<close>

record http_response =
  hr_status :: u16
  hr_retry_after :: "rstr option"
  hr_body :: "rstr option"

definition write_request :: "influx_writer \<Rightarrow> rstr \<Rightarrow> http_request" where
  "write_request w lines =
     \<lparr>hq_url = iw_write_url w,
      hq_headers = [(lit ''Authorization'', lit ''Token '' @ iw_token w),
                    (lit ''Content-Type'', lit ''text/plain; charset=utf-8'')],
      hq_body = lines\<rparr>"

definition is_success :: "u16 \<Rightarrow> bool" where
  "is_success status \<longleftrightarrow> 200 \<le> status \<and> status < 300"

definition classify_response :: "http_response \<Rightarrow> write_error + unit" where
  "classify_response resp =
     (if is_success (hr_status resp) then Inr ()
      else
        let status = hr_status resp;
            retry_after = Option.bind (hr_retry_after resp) (\<lambda>v. parse_u64 (trim v));
            body = unwrap_or (hr_body resp) []
        in if status \<ge> 500 \<or> status = 429 \<or> status = 408
           then Inl (Server status body retry_after)
           else Inl (Client status body))"

definition write_lines ::
    "(http_request \<Rightarrow> rstr + http_response) \<Rightarrow> influx_writer \<Rightarrow> rstr \<Rightarrow> write_error + unit" where
  "write_lines send w lines =
     and_then (map_err Transport (send (write_request w lines))) classify_response"

text \<open>A write that is over: accepted, or rejected for good.\<close>

definition settled :: "write_error + unit \<Rightarrow> bool" where
  "settled r = (case r of Inr _ \<Rightarrow> True | Inl e \<Rightarrow> \<not> is_retryable e)"

text \<open>C17: a batch is given up only for a verdict no retry can change: a write is final (written or
  rejected) exactly when the server answered with a status that is neither a server fault, nor
  backpressure (429), nor a request timeout (408); every other failure is retried.\<close>

theorem write_is_final_iff_server_decided:
  "settled (write_lines send w lines) \<longleftrightarrow>
   (\<exists>resp. send (write_request w lines) = Inr resp \<and>
      (is_success (hr_status resp) \<or>
       (hr_status resp < 500 \<and> hr_status resp \<noteq> 429 \<and> hr_status resp \<noteq> 408)))"
proof (cases "send (write_request w lines)")
  case (Inl m)
  then show ?thesis by (simp add: write_lines_def settled_def is_retryable_def)
next
  case (Inr resp)
  then show ?thesis
    by (auto simp: write_lines_def settled_def is_retryable_def classify_response_def Let_def not_le)
qed

section \<open>The retry delay\<close>

definition duration_max :: duration where
  "duration_max = 2 ^ 64 * 1000000000 - 1"

definition checked_mul :: "duration \<Rightarrow> u32 \<Rightarrow> duration option" where
  "checked_mul d k = (if d * unat k \<le> duration_max then Some (d * unat k) else None)"

definition checked_shl :: "u32 \<Rightarrow> nat \<Rightarrow> u32 option" where
  "checked_shl w n = (if n < 32 then Some (push_bit n w) else None)"

definition backoff_delay :: "duration \<Rightarrow> duration \<Rightarrow> u32 \<Rightarrow> duration" where
  "backoff_delay initial max_delay attempt =
     min (unwrap_or (checked_mul initial (unwrap_or (checked_shl 1 (unat (min attempt 31))) 0xFFFFFFFF))
            max_delay)
         max_delay"

definition retry_delay :: "duration \<Rightarrow> duration \<Rightarrow> write_error \<Rightarrow> u32 \<Rightarrow> duration" where
  "retry_delay initial max_delay e attempt =
     min (case map_option duration_from_secs (retry_after_secs e) of
            Some d \<Rightarrow> d
          | None \<Rightarrow> backoff_delay initial max_delay attempt)
         max_delay"

lemma shl_in_range: "n < 32 \<Longrightarrow> unat (push_bit n (1 :: u32)) = 2 ^ n"
proof -
  assume "n < 32"
  then have "(2 :: nat) ^ n < 2 ^ 32" by (intro power_strict_increasing) simp_all
  moreover have "push_bit n (1 :: u32) = of_nat (2 ^ n)" by (simp add: push_bit_eq_mult)
  ultimately show ?thesis by (simp only: unat_of_nat) simp
qed

text \<open>The two overflow guards are invisible in the result: the delay is the exact power, capped.\<close>

lemma backoff_delay_eq:
  assumes "max_delay \<le> duration_max"
  shows "backoff_delay initial max_delay attempt = min (initial * 2 ^ min (unat attempt) 31) max_delay"
proof -
  have "unat (min attempt 31) = min (unat attempt) 31"
    by (simp add: min_def word_le_nat_alt)
  moreover have "min (unat attempt) 31 < 32" by linarith
  ultimately have factor: "unat (unwrap_or (checked_shl 1 (unat (min attempt 31))) 0xFFFFFFFF) = 2 ^ min (unat attempt) 31"
    by (simp only: checked_shl_def if_True unwrap_or_simps shl_in_range)
  have guard: "min (unwrap_or (checked_mul initial k) max_delay) max_delay = min (initial * unat k) max_delay" for k
    using assms by (auto simp: checked_mul_def min_def)
  show ?thesis by (simp only: backoff_delay_def guard factor)
qed

lemma backoff_delay_bound: "backoff_delay initial max_delay attempt \<le> max_delay"
  by (simp add: backoff_delay_def)

lemma duration_from_millis_max: "duration_from_millis ms \<le> duration_max"
proof -
  have "unat ms \<le> 0xFFFFFFFFFFFFFFFF" by (rule unat_u64_le)
  then have "unat ms * 1000000 \<le> 0xFFFFFFFFFFFFFFFF * 1000000" by (rule mult_le_mono1)
  also have "\<dots> \<le> duration_max" by (simp add: duration_max_def)
  finally show ?thesis by (simp only: duration_from_millis_def)
qed

text \<open>C18: with the settings of a configuration that validates, the delay doubles from the initial value
  with each attempt and stops at the ceiling, without overflow at any attempt number; it is never zero,
  unless the server itself asked for no delay; and a \<open>Retry-After\<close> of the server is obeyed up to the
  ceiling.\<close>

theorem retry_delay_within_bounds:
  assumes "influx_ok i"
    and "initial = duration_from_millis (ic_retry_initial_backoff_ms i)"
    and "cap = duration_from_millis (ic_retry_max_backoff_ms i)"
  shows "retry_delay initial cap e attempt =
           (case retry_after_secs e of
              Some s \<Rightarrow> min (unat s * 1000000000) cap
            | None \<Rightarrow> min (initial * 2 ^ min (unat attempt) 31) cap) \<and>
         retry_delay initial cap e attempt \<le> cap \<and>
         (retry_delay initial cap e attempt = 0 \<longleftrightarrow> retry_after_secs e = Some 0) \<and>
         (retry_after_secs e = None \<longrightarrow> attempt \<le> attempt' \<longrightarrow>
            initial \<le> retry_delay initial cap e attempt \<and>
            retry_delay initial cap e attempt \<le> retry_delay initial cap e attempt')"
proof -
  have pos: "0 < initial" and le: "initial \<le> cap"
    using assms by (auto simp: influx_ok_def duration_from_millis_def word_le_nat_alt word_pos_iff
        unat_eq_0 intro: Nat.gr0I)
  have max: "cap \<le> duration_max" by (simp add: assms(3) duration_from_millis_max)
  have eq: "retry_delay initial cap e attempt =
      (case retry_after_secs e of Some s \<Rightarrow> min (unat s * 1000000000) cap
       | None \<Rightarrow> min (initial * 2 ^ min (unat attempt) 31) cap)" for attempt
    by (simp add: retry_delay_def backoff_delay_eq [OF max] duration_from_secs_def split: option.split)
  have mono: "initial \<le> min (initial * 2 ^ min (unat attempt) 31) cap"
    "min (initial * 2 ^ min (unat attempt) 31) cap \<le> min (initial * 2 ^ min (unat attempt') 31) cap"
    if "attempt \<le> attempt'"
  proof -
    have "initial * 1 \<le> initial * 2 ^ min (unat attempt) 31"
      by (intro mult_le_mono) simp_all
    with le show "initial \<le> min (initial * 2 ^ min (unat attempt) 31) cap" by simp
    have "(2 :: nat) ^ min (unat attempt) 31 \<le> 2 ^ min (unat attempt') 31"
      using that by (intro power_increasing) (auto simp: word_le_nat_alt)
    then have "initial * 2 ^ min (unat attempt) 31 \<le> initial * 2 ^ min (unat attempt') 31"
      by (intro mult_le_mono) simp_all
    then show "min (initial * 2 ^ min (unat attempt) 31) cap \<le> min (initial * 2 ^ min (unat attempt') 31) cap"
      by (intro min.mono) simp_all
  qed
  have zero: "retry_delay initial cap e attempt = 0 \<longleftrightarrow> retry_after_secs e = Some 0"
    using pos le by (cases "retry_after_secs e") (auto simp: eq min_def unat_eq_0)
  have bound: "retry_delay initial cap e attempt \<le> cap" by (simp add: retry_delay_def)
  show ?thesis using eq zero bound mono by (cases "retry_after_secs e") simp_all
qed

theorem retry_delay_within_bounds_witness:
  "retry_delay (duration_from_millis 500) (duration_from_millis 30000) (Transport []) 3 = 4000 * 1000000"
proof -
  have ok: "influx_ok (ac_influx sample_config)"
    using sample_config_ok by (simp add: validate_def and_then_Inr_iff validate_influx_iff)
  have "ic_retry_initial_backoff_ms (ac_influx sample_config) = 500"
    "ic_retry_max_backoff_ms (ac_influx sample_config) = 30000"
    by (simp_all add: sample_config_def default_influx_def)
  then show ?thesis
    using retry_delay_within_bounds [OF ok refl refl, of "Transport []" 3]
    by (simp add: retry_after_secs_def duration_from_millis_def)
qed

section \<open>The writer task\<close>

text \<open>
  Where \<open>run_writer\<close> is: at \<open>wait_for_batch\<close>, awaiting the answer for a batch, asleep before the
  next attempt, or returned. The queue is shared with the batcher and holds the shared statistics;
  \<open>wr_shutdown\<close> says that \<open>shutdown_rx.recv()\<close> would return.
\<close>

datatype writer_pc =
    AtQueue
  | Sending batch u32
  | BackingOff batch u32 duration
  | Exited

record writer_state =
  wr_queue :: retry_queue
  wr_pc :: writer_pc
  wr_shutdown :: bool

text \<open>
  The events of a run: the writer's own (a poll of the queue, the end of a write with the wall-clock
  reading, the end of the sleep, the shutdown branch of the \<open>select!\<close>) and those of the other tasks.
\<close>

datatype writer_event =
    PollQueue
  | WriteDone "write_error + unit" "u64 option"
  | SleepDone
  | SawShutdown
  | PushBatch batch
  | CloseQueue
  | ShutdownSent

text \<open>\<open>since_epoch\<close> is the outcome of \<open>duration_since(UNIX_EPOCH)\<close> in seconds.\<close>

definition now_unix :: "u64 option \<Rightarrow> u64" where
  "now_unix since_epoch = unwrap_or since_epoch 0"

definition saturating_succ :: "u32 \<Rightarrow> u32" where
  "saturating_succ a = (if a = 0xFFFFFFFF then a else a + 1)"

definition finish_write :: "(write_stats \<Rightarrow> write_stats) \<Rightarrow> batch \<Rightarrow> writer_state \<Rightarrow> writer_state" where
  "finish_write tally b st =
     st\<lparr>wr_queue := fst (pop_if_front ((wr_queue st)\<lparr>rq_stats := tally (rq_stats (wr_queue st))\<rparr>) b),
        wr_pc := AtQueue\<rparr>"

definition write_done ::
    "duration \<Rightarrow> duration \<Rightarrow> write_error + unit \<Rightarrow> u64 option \<Rightarrow> batch \<Rightarrow> u32 \<Rightarrow> writer_state \<Rightarrow> writer_state" where
  "write_done initial max_delay r now b attempt st =
     (case r of
        Inr _ \<Rightarrow> finish_write (record_written (of_nat (batch_len b)) (now_unix now)) b st
      | Inl e \<Rightarrow>
          (if \<not> is_retryable e then finish_write record_rejected b st
           else st\<lparr>wr_pc := BackingOff b (saturating_succ attempt) (retry_delay initial max_delay e attempt)\<rparr>))"

definition writer_step :: "duration \<Rightarrow> duration \<Rightarrow> writer_event \<Rightarrow> writer_state \<Rightarrow> writer_state" where
  "writer_step initial max_delay ev st =
     (case ev of
        PollQueue \<Rightarrow>
          (case wr_pc st of
             AtQueue \<Rightarrow>
               (case poll_for_batch (wr_queue st) of
                  Ready (Some b) \<Rightarrow> st\<lparr>wr_pc := Sending b 0\<rparr>
                | Ready None \<Rightarrow> st\<lparr>wr_pc := Exited\<rparr>
                | Pending \<Rightarrow> st)
           | _ \<Rightarrow> st)
      | WriteDone r now \<Rightarrow>
          (case wr_pc st of Sending b attempt \<Rightarrow> write_done initial max_delay r now b attempt st | _ \<Rightarrow> st)
      | SleepDone \<Rightarrow>
          (case wr_pc st of BackingOff b attempt _ \<Rightarrow> st\<lparr>wr_pc := Sending b attempt\<rparr> | _ \<Rightarrow> st)
      | SawShutdown \<Rightarrow>
          (case wr_pc st of
             BackingOff _ _ _ \<Rightarrow> if wr_shutdown st then st\<lparr>wr_pc := Exited\<rparr> else st
           | _ \<Rightarrow> st)
      | PushBatch b \<Rightarrow> st\<lparr>wr_queue := push (wr_queue st) b\<rparr>
      | CloseQueue \<Rightarrow> st\<lparr>wr_queue := close (wr_queue st)\<rparr>
      | ShutdownSent \<Rightarrow> st\<lparr>wr_shutdown := True\<rparr>)"

text \<open>What the writer reports when its loop ends: nothing, or the evictions there were.\<close>

definition writer_exit_warning :: "retry_queue \<Rightarrow> (u64 \<times> u64) option" where
  "writer_exit_warning q =
     (if 0 < queue_dropped_batches q then Some (queue_dropped_batches q, queue_dropped_bytes q) else None)"

section \<open>What the writer removes\<close>

fun in_flight :: "writer_pc \<Rightarrow> batch option" where
  "in_flight AtQueue = None"
| "in_flight (Sending b a) = Some b"
| "in_flight (BackingOff b a d) = Some b"
| "in_flight Exited = None"

text \<open>A pushed batch is a new allocation: none that is queued, nor the one the writer holds.\<close>

definition fresh_event :: "writer_event \<Rightarrow> writer_state \<Rightarrow> bool" where
  "fresh_event ev st \<longleftrightarrow>
     (case ev of
        PushBatch b \<Rightarrow> fresh_for (wr_queue st) b \<and> (\<forall>c. in_flight (wr_pc st) = Some c \<longrightarrow> bt_ptr c \<noteq> bt_ptr b)
      | _ \<Rightarrow> True)"

definition writer_initial :: "writer_state \<Rightarrow> bool" where
  "writer_initial st \<longleftrightarrow>
     (\<exists>capacity. st = \<lparr>wr_queue = new_queue capacity default_stats, wr_pc = AtQueue, wr_shutdown = False\<rparr>)"

definition writer_move :: "duration \<Rightarrow> duration \<Rightarrow> writer_state \<Rightarrow> writer_state \<Rightarrow> bool" where
  "writer_move initial max_delay st st' \<longleftrightarrow>
     (\<exists>ev. fresh_event ev st \<and> st' = writer_step initial max_delay ev st)"

abbreviation writer_reachable :: "duration \<Rightarrow> duration \<Rightarrow> writer_state \<Rightarrow> bool" where
  "writer_reachable initial max_delay \<equiv> reachable_from writer_initial (writer_move initial max_delay)"

definition writer_inv :: "writer_state \<Rightarrow> bool" where
  "writer_inv st \<longleftrightarrow>
     queue_wf (wr_queue st) \<and>
     (\<forall>b. in_flight (wr_pc st) = Some b \<longrightarrow> bt_ptr b \<in> bt_ptr ` set (rq_batches (wr_queue st)) \<longrightarrow>
        hd (rq_batches (wr_queue st)) = b)"

lemma poll_for_batch_cases:
  obtains (batch) b bs where "rq_batches q = b # bs" "poll_for_batch q = Ready (Some b)"
  | (over) "rq_batches q = []" "rq_closed q" "poll_for_batch q = Ready None"
  | (none) "rq_batches q = []" "\<not> rq_closed q" "poll_for_batch q = Pending"
  by (cases "rq_batches q") (auto simp: poll_for_batch_def peek_def)

lemma queue_wf_count:
  assumes "queue_wf q"
    and "queue_batches s = queue_batches (rq_stats q)" "queue_bytes s = queue_bytes (rq_stats q)"
  shows "queue_wf (q\<lparr>rq_stats := s\<rparr>)"
  using assms unfolding queue_wf_def by auto

lemma writer_inv_pc:
  assumes "writer_inv st"
    and "in_flight p = in_flight (wr_pc st) \<or> in_flight p = None \<or>
         in_flight p = Some (hd (rq_batches (wr_queue st)))"
  shows "writer_inv (st\<lparr>wr_pc := p\<rparr>)"
  using assms unfolding writer_inv_def by auto

lemma finish_write_fields [simp]:
  "wr_pc (finish_write f b st) = AtQueue"
  "wr_shutdown (finish_write f b st) = wr_shutdown st"
  "rq_batches (wr_queue (finish_write f b st)) =
     (case rq_batches (wr_queue st) of [] \<Rightarrow> [] | c # cs \<Rightarrow> if ptr_eq c b then cs else c # cs)"
  "rq_closed (wr_queue (finish_write f b st)) = rq_closed (wr_queue st)"
  by (simp_all add: finish_write_def pop_batches pop_fields)

lemma finish_write_inv:
  assumes "writer_inv st"
    and "\<And>s. queue_batches (f s) = queue_batches s" "\<And>s. queue_bytes (f s) = queue_bytes s"
  shows "writer_inv (finish_write f b st)"
  using assms by (simp add: writer_inv_def finish_write_def pop_wf queue_wf_count)

lemma write_done_inv:
  assumes "writer_inv st" "wr_pc st = Sending b a"
  shows "writer_inv (write_done i m r now b a st)"
proof (cases r)
  case (Inl e)
  have "writer_inv (st\<lparr>wr_pc := BackingOff b (saturating_succ a) (retry_delay i m e a)\<rparr>)"
    using assms by (intro writer_inv_pc) simp_all
  with Inl assms(1) show ?thesis
    by (simp add: write_done_def finish_write_inv)
qed (simp add: assms write_done_def finish_write_inv)

lemma push_inv:
  assumes "writer_inv st" "fresh_event (PushBatch b) st"
  shows "writer_inv (st\<lparr>wr_queue := push (wr_queue st) b\<rparr>)"
proof -
  let ?q = "wr_queue st"
  have wf: "queue_wf ?q" and fresh: "fresh_for ?q b"
    using assms by (simp_all add: writer_inv_def fresh_event_def)
  have batches: "rq_batches (push ?q b) = kept_by ?q b @ [b]"
    by (rule push_fields(1) [OF queue_wf_bytes [OF wf]])
  have dist: "distinct (map bt_ptr (evicted_by ?q b @ kept_by ?q b))"
    using wf by (simp add: evicted_kept queue_wf_def)
  have head: "hd (rq_batches (push ?q b)) = c"
    if c: "in_flight (wr_pc st) = Some c" "bt_ptr c \<in> bt_ptr ` set (rq_batches (push ?q b))" for c
  proof -
    have "bt_ptr c \<noteq> bt_ptr b" using assms(2) c(1) by (simp add: fresh_event_def)
    with c(2) have kept: "bt_ptr c \<in> bt_ptr ` set (kept_by ?q b)" by (auto simp: batches)
    then have "bt_ptr c \<in> bt_ptr ` set (rq_batches ?q)"
      using evicted_kept [of ?q b] by (metis UnCI image_Un set_append)
    with assms(1) c(1) have "hd (rq_batches ?q) = c" by (simp add: writer_inv_def)
    moreover have "evicted_by ?q b = []"
    proof (rule ccontr)
      assume ne: "evicted_by ?q b \<noteq> []"
      then have "hd (evicted_by ?q b) = c"
        using \<open>hd (rq_batches ?q) = c\<close> evicted_kept [of ?q b] by (metis hd_append2)
      with ne have "c \<in> set (evicted_by ?q b)" by (metis hd_in_set)
      with dist kept show False by auto
    qed
    moreover have "kept_by ?q b \<noteq> []" using kept by auto
    ultimately show ?thesis using evicted_kept [of ?q b] by (simp add: batches)
  qed
  show ?thesis using push_wf [OF wf fresh] head by (simp add: writer_inv_def)
qed

lemma writer_poll_inv:
  assumes "writer_inv st" shows "writer_inv (writer_step i m PollQueue st)"
proof (cases "wr_pc st")
  case AtQueue
  show ?thesis
  proof (cases rule: poll_for_batch_cases [of "wr_queue st"])
    case (batch b bs)
    have "writer_inv (st\<lparr>wr_pc := Sending b 0\<rparr>)"
      using assms batch(1) by (intro writer_inv_pc) simp_all
    with AtQueue batch show ?thesis by (simp add: writer_step_def)
  next
    case over
    have "writer_inv (st\<lparr>wr_pc := Exited\<rparr>)" using assms by (intro writer_inv_pc) simp_all
    with AtQueue over show ?thesis by (simp add: writer_step_def)
  next
    case none
    with AtQueue assms show ?thesis by (simp add: writer_step_def)
  qed
qed (simp_all add: assms writer_step_def)

lemma writer_pc_steps_inv:
  assumes "writer_inv st"
  shows "writer_inv (writer_step i m SleepDone st)" "writer_inv (writer_step i m SawShutdown st)"
    "writer_inv (writer_step i m (WriteDone r now) st)"
proof -
  show "writer_inv (writer_step i m SleepDone st)"
    by (cases "wr_pc st") (simp_all add: assms writer_step_def writer_inv_pc)
  show "writer_inv (writer_step i m SawShutdown st)"
    by (cases "wr_pc st") (simp_all add: assms writer_step_def writer_inv_pc)
  show "writer_inv (writer_step i m (WriteDone r now) st)"
    by (cases "wr_pc st") (simp_all add: assms writer_step_def write_done_inv)
qed

lemma writer_step_inv:
  assumes "writer_inv st" "fresh_event ev st"
  shows "writer_inv (writer_step i m ev st)"
proof (cases ev)
  case (PushBatch b)
  with assms show ?thesis by (simp add: writer_step_def push_inv)
next
  case CloseQueue
  have "writer_inv (st\<lparr>wr_queue := close (wr_queue st)\<rparr>)"
    using assms(1) by (simp add: writer_inv_def close_wf)
  with CloseQueue show ?thesis by (simp add: writer_step_def)
next
  case ShutdownSent
  have "writer_inv (st\<lparr>wr_shutdown := True\<rparr>)" using assms(1) by (simp add: writer_inv_def)
  with ShutdownSent show ?thesis by (simp add: writer_step_def)
qed (simp_all add: assms(1) writer_poll_inv writer_pc_steps_inv)

interpretation writing: invariant_system writer_initial "writer_move i m" writer_inv for i m
proof
  show "writer_initial st \<Longrightarrow> writer_inv st" for st by (auto simp: writer_initial_def writer_inv_def new_queue_wf)
  show "writer_move i m st st' \<Longrightarrow> writer_inv st \<Longrightarrow> writer_inv st'" for st st'
    by (auto simp: writer_move_def writer_step_inv)
qed

lemma inv_pop_filter:
  assumes "writer_inv st" "in_flight (wr_pc st) = Some b"
  shows "(case rq_batches (wr_queue st) of [] \<Rightarrow> [] | c # cs \<Rightarrow> if ptr_eq c b then cs else c # cs) =
    filter (\<lambda>c. bt_ptr c \<noteq> bt_ptr b) (rq_batches (wr_queue st))"
proof (cases "rq_batches (wr_queue st)")
  case (Cons c cs)
  have dist: "distinct (map bt_ptr (c # cs))"
    using assms(1) Cons by (simp add: writer_inv_def queue_wf_def)
  show ?thesis
  proof (cases "ptr_eq c b")
    case True
    then have "\<forall>x \<in> set cs. bt_ptr x \<noteq> bt_ptr b" using dist by (auto simp: ptr_eq_def image_iff)
    then show ?thesis using True Cons by (simp add: ptr_eq_def)
  next
    case False
    then have "c \<noteq> b" by (auto simp: ptr_eq_def)
    then have "bt_ptr b \<notin> bt_ptr ` set (c # cs)"
      using assms Cons by (auto simp: writer_inv_def)
    then have "\<forall>x \<in> set (c # cs). bt_ptr x \<noteq> bt_ptr b" by (metis imageI)
    then show ?thesis using False Cons by (simp add: ptr_eq_def)
  qed
qed simp

lemma writer_step_queue:
  assumes "\<nexists>b. ev = PushBatch b" "\<nexists>r now b a. ev = WriteDone r now \<and> wr_pc st = Sending b a"
  shows "rq_batches (wr_queue (writer_step i m ev st)) = rq_batches (wr_queue st)"
  using assms
  by (cases ev; cases "wr_pc st"; cases rule: poll_for_batch_cases [of "wr_queue st"])
     (auto simp: writer_step_def)

text \<open>C9: apart from the queue's own eviction, a batch leaves the queue only when the write of that very
  batch is over, accepted or rejected for good, and then exactly that batch leaves. A failed attempt, a
  sleep, a shutdown or the close of the queue removes nothing, and a batch that was evicted while it was
  being written costs no other batch its place.\<close>

theorem writer_removes_only_the_settled_batch:
  assumes "writer_reachable i m st" and "\<nexists>b. ev = PushBatch b"
  shows "rq_batches (wr_queue (writer_step i m ev st)) =
    (case (ev, wr_pc st) of
       (WriteDone r now, Sending b a) \<Rightarrow>
         if settled r then filter (\<lambda>c. bt_ptr c \<noteq> bt_ptr b) (rq_batches (wr_queue st))
         else rq_batches (wr_queue st)
     | _ \<Rightarrow> rq_batches (wr_queue st))"
proof (cases "\<exists>r now b a. ev = WriteDone r now \<and> wr_pc st = Sending b a")
  case True
  then obtain r now b a where ev: "ev = WriteDone r now" "wr_pc st = Sending b a" by blast
  have inv: "writer_inv st" by (rule writing.inv_reachable [OF assms(1)])
  have "in_flight (wr_pc st) = Some b" using ev by simp
  note filter = inv_pop_filter [OF inv this]
  show ?thesis
    by (cases r) (simp_all add: ev writer_step_def write_done_def settled_def filter)
next
  case False
  then show ?thesis
    using writer_step_queue [OF assms(2) False] by (auto split: writer_event.splits writer_pc.splits)
qed

theorem writer_removes_only_the_settled_batch_witness:
  "rq_batches (wr_queue (writer_step 1 2 CloseQueue
     \<lparr>wr_queue = new_queue 9 default_stats, wr_pc = AtQueue, wr_shutdown = False\<rparr>)) = []"
proof -
  let ?st = "\<lparr>wr_queue = new_queue 9 default_stats, wr_pc = AtQueue, wr_shutdown = False\<rparr>"
  have "writer_reachable 1 2 ?st" by (rule reach_init) (auto simp: writer_initial_def)
  from writer_removes_only_the_settled_batch [OF this, of CloseQueue] show ?thesis by (simp add: new_queue_def)
qed

section \<open>Draining\<close>

text \<open>
  A run in which the environment does nothing but answer: \<open>srv b a\<close> is the outcome of attempt \<open>a\<close> at
  batch \<open>b\<close>, and every sleep ends.
\<close>

definition next_event :: "(batch \<Rightarrow> u32 \<Rightarrow> write_error + unit) \<Rightarrow> u64 option \<Rightarrow> writer_state \<Rightarrow> writer_event" where
  "next_event srv now st =
     (case wr_pc st of
        Sending b a \<Rightarrow> WriteDone (srv b a) now
      | BackingOff _ _ _ \<Rightarrow> SleepDone
      | _ \<Rightarrow> PollQueue)"

fun drain_run ::
    "duration \<Rightarrow> duration \<Rightarrow> (batch \<Rightarrow> u32 \<Rightarrow> write_error + unit) \<Rightarrow> u64 option \<Rightarrow> nat \<Rightarrow> writer_state \<Rightarrow> writer_state" where
  "drain_run i m srv now 0 st = st"
| "drain_run i m srv now (Suc n) st = drain_run i m srv now n (writer_step i m (next_event srv now st) st)"

lemma drain_run_add:
  "drain_run i m srv now (k + n) st = drain_run i m srv now n (drain_run i m srv now k st)"
  by (induction k arbitrary: st) simp_all

text \<open>One batch: the attempts go up one by one, so the first settling one is reached.\<close>

lemma sending_settles:
  assumes "settled (srv b a')" "unat a + k = unat a'" "wr_pc st = Sending b a"
  shows "\<exists>n f. drain_run i m srv now n st = finish_write f b st \<and>
           (f = record_rejected \<or> f = record_written (of_nat (batch_len b)) (now_unix now))"
  using assms(2,3)
proof (induction k arbitrary: a st)
  case 0
  then have "a = a'" by (simp add: word_unat_eq_iff)
  with assms(1) 0(2) show ?case
    by (intro exI [of _ 1])
       (cases "srv b a'", auto simp: next_event_def writer_step_def write_done_def settled_def)
next
  case (Suc k)
  show ?case
  proof (cases "settled (srv b a)")
    case True
    with Suc.prems(2) show ?thesis
      by (intro exI [of _ 1])
         (cases "srv b a", auto simp: next_event_def writer_step_def write_done_def settled_def)
  next
    case False
    then obtain e where e: "srv b a = Inl e" "is_retryable e"
      by (cases "srv b a") (auto simp: settled_def)
    have "unat a' < 2 ^ 32" using unsigned_less [of a', where ?'a = nat] by simp
    then have lt: "unat a + 1 < 2 ^ 32" using Suc.prems(1) by linarith
    then have "a \<noteq> 0xFFFFFFFF" by auto
    then have succ: "saturating_succ a = a + 1" by (simp add: saturating_succ_def)
    have "unat (a + 1) = unat a + 1" using lt by (simp add: unat_word_ariths)
    then have k: "unat (a + 1) + k = unat a'" using Suc.prems(1) by simp
    let ?st = "st\<lparr>wr_pc := Sending b (a + 1)\<rparr>"
    obtain n f where n: "drain_run i m srv now n ?st = finish_write f b ?st"
      "f = record_rejected \<or> f = record_written (of_nat (batch_len b)) (now_unix now)"
      using Suc.IH [OF k, of ?st] by auto
    have "drain_run i m srv now (2 + n) st = drain_run i m srv now n ?st"
      using Suc.prems(2) e succ
      by (simp add: numeral_2_eq_2 next_event_def writer_step_def write_done_def)
    moreover have "finish_write f b ?st = finish_write f b st" by (simp add: finish_write_def)
    ultimately show ?thesis using n by metis
  qed
qed

definition accounted :: "retry_queue \<Rightarrow> u64" where
  "accounted q = written_batches (rq_stats q) + rejected_batches (rq_stats q)"

lemma finish_write_accounted:
  assumes "f = record_rejected \<or> f = record_written n t"
  shows "accounted (wr_queue (finish_write f b st)) = accounted (wr_queue st) + 1"
    and "dropped_batches (rq_stats (wr_queue (finish_write f b st))) = dropped_batches (rq_stats (wr_queue st))"
  using assms by (auto simp: finish_write_def accounted_def pop_fields)

text \<open>From the top of the loop to the top of the loop: the head batch is gone and counted.\<close>

lemma drain_one:
  assumes "wr_pc st = AtQueue" "rq_batches (wr_queue st) = b # bs" "\<exists>a. settled (srv b a)"
  shows "\<exists>n st'. drain_run i m srv now n st = st' \<and> wr_pc st' = AtQueue \<and>
           rq_batches (wr_queue st') = bs \<and> rq_closed (wr_queue st') = rq_closed (wr_queue st) \<and>
           accounted (wr_queue st') = accounted (wr_queue st) + 1 \<and>
           dropped_batches (rq_stats (wr_queue st')) = dropped_batches (rq_stats (wr_queue st))"
proof -
  obtain a where a: "settled (srv b a)" using assms(3) by blast
  let ?st = "st\<lparr>wr_pc := Sending b 0\<rparr>"
  obtain n f where n: "drain_run i m srv now n ?st = finish_write f b ?st"
    "f = record_rejected \<or> f = record_written (of_nat (batch_len b)) (now_unix now)"
    using sending_settles [where srv = srv and b = b, OF a, of 0 "unat a" ?st i m now] by auto
  have step: "drain_run i m srv now (Suc n) st = finish_write f b ?st"
    using assms(1,2) n(1) by (simp add: next_event_def writer_step_def poll_for_batch_def peek_def)
  have "rq_batches (wr_queue (finish_write f b ?st)) = bs"
    using assms(2) by (simp add: ptr_eq_def)
  with step finish_write_accounted [OF n(2), of b ?st] show ?thesis
    by (intro exI [of _ "Suc n"] exI [of _ "finish_write f b ?st"]) simp
qed

text \<open>C3: nothing blocks the head of the queue for ever. If every queued batch is accepted or rejected for
  good at some attempt, then from the top of its loop on a closed queue the writer empties the queue in
  finitely many steps and returns; every batch is counted once, as written or as rejected, and none as
  dropped.\<close>

theorem writer_drains_the_queue:
  assumes "wr_pc st = AtQueue" and "rq_closed (wr_queue st)"
    and "\<forall>b \<in> set (rq_batches (wr_queue st)). \<exists>a. settled (srv b a)"
  shows "\<exists>n. wr_pc (drain_run i m srv now n st) = Exited \<and>
           rq_batches (wr_queue (drain_run i m srv now n st)) = [] \<and>
           accounted (wr_queue (drain_run i m srv now n st)) =
             accounted (wr_queue st) + of_nat (queue_len (wr_queue st)) \<and>
           dropped_batches (rq_stats (wr_queue (drain_run i m srv now n st))) =
             dropped_batches (rq_stats (wr_queue st))"
  using assms
proof (induction "rq_batches (wr_queue st)" arbitrary: st)
  case Nil
  then have "writer_step i m PollQueue st = st\<lparr>wr_pc := Exited\<rparr>"
    by (simp add: writer_step_def poll_for_batch_def peek_def split: list.split)
  with Nil show ?case
    by (intro exI [of _ 1]) (simp add: next_event_def queue_len_def flip: Nil.hyps)
next
  case (Cons b bs)
  have batches: "rq_batches (wr_queue st) = b # bs" using Cons.hyps(2) by simp
  then have "\<exists>a. settled (srv b a)" using Cons.prems(3) by simp
  from drain_one [where srv = srv and b = b, OF Cons.prems(1) batches this, of i m now] obtain n st' where
    n: "drain_run i m srv now n st = st'" "wr_pc st' = AtQueue" "rq_batches (wr_queue st') = bs"
      "rq_closed (wr_queue st')" "accounted (wr_queue st') = accounted (wr_queue st) + 1"
      "dropped_batches (rq_stats (wr_queue st')) = dropped_batches (rq_stats (wr_queue st))"
    using Cons.prems(2) by auto
  have rest: "\<forall>b \<in> set (rq_batches (wr_queue st')). \<exists>a. settled (srv b a)"
    using Cons.prems(3) batches n(3) by simp
  obtain k where k: "wr_pc (drain_run i m srv now k st') = Exited"
    "rq_batches (wr_queue (drain_run i m srv now k st')) = []"
    "accounted (wr_queue (drain_run i m srv now k st')) = accounted (wr_queue st') + of_nat (length bs)"
    "dropped_batches (rq_stats (wr_queue (drain_run i m srv now k st'))) = dropped_batches (rq_stats (wr_queue st'))"
    using Cons.hyps(1) [OF n(3) [symmetric] n(2,4) rest] n(3) by (auto simp: queue_len_def)
  have "drain_run i m srv now (n + k) st = drain_run i m srv now k st'"
    by (simp add: drain_run_add n(1))
  with k n batches show ?case
    by (intro exI [of _ "n + k"]) (simp add: queue_len_def algebra_simps)
qed

definition letter_batch :: "nat \<Rightarrow> batch" where
  "letter_batch k = \<lparr>bt_ptr = k, bt_text = [97 + k]\<rparr>"

text \<open>A server that is unavailable for three attempts and then accepts.\<close>

theorem writer_drains_the_queue_witness:
  "\<exists>n. wr_pc (drain_run 500 30000 (\<lambda>b a. if a < 3 then Inl (Transport []) else Inr ()) None n
      \<lparr>wr_queue = close (push (new_queue 9 default_stats) (letter_batch 0)), wr_pc = AtQueue,
       wr_shutdown = False\<rparr>) = Exited"
proof -
  let ?st = "\<lparr>wr_queue = close (push (new_queue 9 default_stats) (letter_batch 0)), wr_pc = AtQueue,
       wr_shutdown = False\<rparr>"
  let ?srv = "\<lambda>b a :: u32. if a < 3 then Inl (Transport []) else Inr ()"
  have "\<forall>b \<in> set (rq_batches (wr_queue ?st)). \<exists>a. settled (?srv b a)"
    by (intro ballI exI [of _ 3]) (simp add: settled_def)
  from writer_drains_the_queue [of ?st ?srv 500 30000 None, OF _ _ this] show ?thesis by auto
qed

text \<open>What the counters and the depth of the queue add up to.\<close>

definition counted :: "retry_queue \<Rightarrow> u64" where
  "counted q = of_nat (queue_len q) + dropped_batches (rq_stats q) + written_batches (rq_stats q) + rejected_batches (rq_stats q)"

lemma push_evicting_front:
  assumes wf: "queue_wf q" and front: "rq_batches q = b # rest" and fresh: "fresh_for q b'"
    and full: "rq_capacity_bytes q < rq_bytes q + batch_len b'"
  shows "evicted_by q b' \<noteq> []" "\<forall>x \<in> set (rq_batches (push q b')). \<not> ptr_eq x b"
proof -
  have "bytes_of (b # rest) + batch_len b' > rq_capacity_bytes q" using full wf front by (simp add: queue_wf_def)
  then obtain n where n: "evict_count (rq_capacity_bytes q) (batch_len b') (rq_batches q) = Suc n" by (simp add: front)
  then show "evicted_by q b' \<noteq> []" by (simp add: evicted_by_def front)
  have "rq_batches (push q b') = drop n rest @ [b']"
    using push_fields(1) [OF queue_wf_bytes [OF wf]] n by (simp add: kept_by_def front)
  moreover have "bt_ptr x \<noteq> bt_ptr b" if "x \<in> set rest" for x
  proof -
    have "bt_ptr b \<notin> bt_ptr ` set rest" using wf by (simp add: queue_wf_def front)
    with that show ?thesis by (metis imageI)
  qed
  moreover have "bt_ptr b' \<noteq> bt_ptr b" using fresh by (simp add: fresh_for_def front)
  ultimately show "\<forall>x \<in> set (rq_batches (push q b')). \<not> ptr_eq x b"
    using set_drop_subset [of n rest] by (auto simp: ptr_eq_def)
qed

lemma pop_if_front_other: "\<forall>x \<in> set (rq_batches q). \<not> ptr_eq x b \<Longrightarrow> pop_if_front q b = (q, False)"
  by (simp add: pop_if_front_def split: list.split)

lemma evict_loop_written: "written_batches (snd (snd (evict_loop c n bs bytes s))) = written_batches s"
  by (induction c n bs bytes s rule: evict_loop.induct) simp_all

lemma push_written: "written_batches (rq_stats (push q b)) = written_batches (rq_stats q)"
  using evict_loop_written [of "rq_capacity_bytes q" "batch_len b" "rq_batches q" "rq_bytes q" "rq_stats q"]
  by (simp add: push_def publish_depth_def case_prod_unfold Let_def)

lemma exited_writes_nothing:
  "wr_pc st = Exited \<Longrightarrow>
     written_batches (rq_stats (wr_queue (foldl (\<lambda>s ev. writer_step i m ev s) st evs))) = written_batches (rq_stats (wr_queue st))"
proof (induction evs arbitrary: st)
  case (Cons ev evs)
  have "wr_pc (writer_step i m ev st) = Exited"
    "written_batches (rq_stats (wr_queue (writer_step i m ev st))) = written_batches (rq_stats (wr_queue st))"
    using Cons.prems by (cases ev; simp add: writer_step_def push_written close_def)+
  with Cons.IH show ?case by simp
qed simp

text \<open>C39: a batch that is evicted while it is being written, and whose write then succeeds, is counted twice. For
  every well-formed queue: if a push has to evict and the front batch is in flight, then after the push and
  the success of that write the counters and the depth have grown by two for the one batch that was pushed,
  and nothing is removed for the write.\<close>

theorem evicted_in_flight_is_counted_twice:
  fixes st i m b' now
  defines "st' \<equiv> writer_step i m (WriteDone (Inr ()) now) (writer_step i m (PushBatch b') st)"
  assumes "queue_wf (wr_queue st)" and "wr_pc st = Sending b attempt" and "rq_batches (wr_queue st) = b # rest"
    and "fresh_for (wr_queue st) b'" and "rq_capacity_bytes (wr_queue st) < rq_bytes (wr_queue st) + batch_len b'"
  shows "counted (wr_queue st') = counted (wr_queue st) + 2 \<and>
         (\<forall>x \<in> set (rq_batches (wr_queue st')). \<not> ptr_eq x b) \<and>
         written_batches (rq_stats (wr_queue st')) = written_batches (rq_stats (wr_queue st)) + 1"
proof -
  let ?q = "push (wr_queue st) b'"
  note gone = push_evicting_front(2) [OF assms(2,4,5,6)]
  have after: "wr_queue st' = ?q\<lparr>rq_stats := record_written (of_nat (batch_len b)) (now_unix now) (rq_stats ?q)\<rparr>"
    using gone by (simp add: st'_def writer_step_def assms(3) write_done_def finish_write_def pop_if_front_other)
  have "(of_nat (queue_len ?q + length (evicted_by (wr_queue st) b')) :: u64) = of_nat (queue_len (wr_queue st) + 1)"
    using push_length [OF queue_wf_consistent [OF assms(2)], of b'] by (simp add: queue_len_def)
  moreover have "dropped_batches (rq_stats ?q) = dropped_batches (rq_stats (wr_queue st)) + of_nat (length (evicted_by (wr_queue st) b'))"
    "written_batches (rq_stats ?q) = written_batches (rq_stats (wr_queue st))"
    "rejected_batches (rq_stats ?q) = rejected_batches (rq_stats (wr_queue st))"
    using push_fields(5) [OF queue_wf_bytes [OF assms(2)], of b'] by simp_all
  ultimately have "counted (wr_queue st') = counted (wr_queue st) + 2"
    by (simp add: counted_def after queue_len_def algebra_simps)
  then show ?thesis using gone \<open>written_batches (rq_stats ?q) = _\<close> by (simp add: after)
qed

theorem evicted_in_flight_is_counted_twice_witness:
  "let q = push (new_queue 1 default_stats) (letter_batch 0);
       st = \<lparr>wr_queue = q, wr_pc = Sending (letter_batch 0) 0, wr_shutdown = False\<rparr>
   in counted (wr_queue (writer_step 500 30000 (WriteDone (Inr ()) (Some 7))
        (writer_step 500 30000 (PushBatch (letter_batch 1)) st))) = counted q + 2"
proof -
  let ?q = "push (new_queue 1 default_stats) (letter_batch 0)"
  let ?st = "\<lparr>wr_queue = ?q, wr_pc = Sending (letter_batch 0) 0, wr_shutdown = False\<rparr>"
  have len: "batch_len (letter_batch k) = 1" if "k < 10" for k
    using that by (simp add: batch_len_def letter_batch_def byte_len_def utf8_char_def utf8_units_def)
  have wf: "queue_wf ?q"
    by (rule push_wf) (simp_all add: fresh_for_def new_queue_def new_queue_wf [unfolded new_queue_def])
  have q: "rq_batches ?q = [letter_batch 0]" "rq_bytes ?q = 1" "rq_capacity_bytes ?q = 1"
    by (simp_all add: push_def publish_depth_def new_queue_def len)
  have "fresh_for ?q (letter_batch 1)" unfolding fresh_for_def q(1) by (simp add: letter_batch_def)
  with evicted_in_flight_is_counted_twice [of ?st "letter_batch 0" 0 "[]" "letter_batch 1" 500 30000 "Some 7"] wf q len
  show ?thesis unfolding Let_def by simp
qed

end
