(* ===== verification/Batcher.thy ===== *)
theory Batcher
  imports Influx_Writer
begin

text \<open>
  The batcher task of \<open>huginn-influx/src/writer.rs\<close>: it groups results from the event channel into
  batches, on a full buffer or on a deadline, renders each batch once and pushes it. The broadcast
  channel, the timer and the allocator are the environment: an event carries the instant it is handled
  at and the address a new batch gets.
\<close>

section \<open>The task\<close>

datatype batcher_event =
    Received probe_event
  | ChannelLagged u64
  | ChannelClosed
  | DeadlineReached

type_synonym timed_event = "nat \<times> nat \<times> batcher_event"

record batcher =
  bb_buffer :: "probe_result list"
  bb_queue :: retry_queue
  bb_deadline :: nat
  bb_running :: bool

definition enqueue :: "nat \<Rightarrow> retry_queue \<Rightarrow> probe_result list \<Rightarrow> retry_queue \<times> probe_result list" where
  "enqueue address q buffer =
     (if buffer = [] then (q, buffer)
      else (push q \<lparr>bt_ptr = address, bt_text = render_batch buffer\<rparr>, []))"

definition flush :: "nat \<Rightarrow> batcher \<Rightarrow> batcher" where
  "flush address s =
     (let (q, buffer) = enqueue address (bb_queue s) (bb_buffer s)
      in s\<lparr>bb_queue := q, bb_buffer := buffer\<rparr>)"

text \<open>The sleep can only win the \<open>select!\<close> once its deadline has passed.\<close>

definition batcher_step :: "u64 \<Rightarrow> duration \<Rightarrow> batcher \<Rightarrow> timed_event \<Rightarrow> batcher" where
  "batcher_step batch_size timeout s e =
     (case e of (now, address, ev) \<Rightarrow>
        if \<not> bb_running s then s
        else case ev of
          Received (ProbeCompleted result) \<Rightarrow>
            (let s1 = s\<lparr>bb_buffer := bb_buffer s @ [result]\<rparr>
             in if unat batch_size \<le> length (bb_buffer s1)
                then (flush address s1)\<lparr>bb_deadline := now + timeout\<rparr>
                else s1)
        | ChannelLagged n \<Rightarrow> s
        | ChannelClosed \<Rightarrow>
            (let s1 = flush address s in s1\<lparr>bb_queue := close (bb_queue s1), bb_running := False\<rparr>)
        | DeadlineReached \<Rightarrow>
            (if bb_deadline s \<le> now then (flush address s)\<lparr>bb_deadline := now + timeout\<rparr> else s))"

definition batcher_start :: "nat \<Rightarrow> duration \<Rightarrow> retry_queue \<Rightarrow> batcher" where
  "batcher_start now timeout q =
     \<lparr>bb_buffer = [], bb_queue = q, bb_deadline = now + timeout, bb_running = True\<rparr>"

definition run_batcher :: "u64 \<Rightarrow> duration \<Rightarrow> batcher \<Rightarrow> timed_event list \<Rightarrow> batcher" where
  "run_batcher batch_size timeout s evs = foldl (batcher_step batch_size timeout) s evs"

lemma run_batcher_simps [simp]:
  "run_batcher n d s [] = s"
  "run_batcher n d s (e # evs) = run_batcher n d (batcher_step n d s e) evs"
  by (simp_all add: run_batcher_def)

section \<open>What is received is queued\<close>

text \<open>The results the task takes from the channel, with the instant of each.\<close>

fun received :: "timed_event list \<Rightarrow> (nat \<times> probe_result) list" where
  "received [] = []"
| "received ((now, address, Received (ProbeCompleted r)) # evs) = (now, r) # received evs"
| "received ((now, address, ChannelClosed) # evs) = []"
| "received ((now, address, ChannelLagged n) # evs) = received evs"
| "received ((now, address, DeadlineReached) # evs) = received evs"

fun saw_close :: "timed_event list \<Rightarrow> bool" where
  "saw_close [] = False"
| "saw_close ((now, address, ev) # evs) = (ev = ChannelClosed \<or> saw_close evs)"

definition push_all :: "retry_queue \<Rightarrow> batch list \<Rightarrow> retry_queue" where
  "push_all q bs = foldl push q bs"

definition batches_of :: "u64 \<Rightarrow> batch list \<Rightarrow> probe_result list list \<Rightarrow> bool" where
  "batches_of n bs chunks \<longleftrightarrow>
     map bt_text bs = map render_batch chunks \<and> (\<forall>c \<in> set chunks. c \<noteq> [] \<and> length c \<le> unat n)"

lemma batches_of_simps [simp]:
  "batches_of n [] []"
  "batches_of n (b # bs) (c # cs) \<longleftrightarrow>
     bt_text b = render_batch c \<and> c \<noteq> [] \<and> length c \<le> unat n \<and> batches_of n bs cs"
  by (auto simp: batches_of_def)

lemma push_all_simps [simp]:
  "push_all q [] = q"
  "push_all q (b # bs) = push_all (push q b) bs"
  by (simp_all add: push_all_def)

lemma push_all_run_ops: "push_all q bs = run_ops push pop_if_front q (map Push bs)"
  by (induction bs arbitrary: q) simp_all

lemma pushed_map_Push [simp]: "pushed (map Push bs) = bs"
  by (induction bs) simp_all

lemma flush_fields:
  "bb_buffer (flush p s) = []"
  "bb_deadline (flush p s) = bb_deadline s"
  "bb_running (flush p s) = bb_running s"
  "bb_queue (flush p s) =
     (if bb_buffer s = [] then bb_queue s
      else push (bb_queue s) \<lparr>bt_ptr = p, bt_text = render_batch (bb_buffer s)\<rparr>)"
  by (cases "bb_buffer s = []"; simp add: flush_def enqueue_def)+

text \<open>A flush adds at most one batch, which is the whole buffer.\<close>

lemma flush_chunk:
  assumes "length (bb_buffer s) \<le> unat n"
  obtains bs chunks where "bb_queue (flush p s) = push_all (bb_queue s) bs" "batches_of n bs chunks"
    "concat chunks = bb_buffer s"
proof (cases "bb_buffer s = []")
  case True
  then show thesis by (intro that [of "[]" "[]"]) (simp_all add: flush_fields)
next
  case False
  then show thesis
    using assms
    by (intro that [of "[\<lparr>bt_ptr = p, bt_text = render_batch (bb_buffer s)\<rparr>]" "[bb_buffer s]"])
       (simp_all add: flush_fields)
qed

lemma step_stopped: "\<not> bb_running s \<Longrightarrow> run_batcher n d s evs = s"
  by (induction evs) (auto simp: batcher_step_def)

lemma batches_of_append: "batches_of n bs cs \<Longrightarrow> batches_of n bs' cs' \<Longrightarrow> batches_of n (bs @ bs') (cs @ cs')"
  by (auto simp: batches_of_def)

lemma push_all_append: "push_all q (bs @ bs') = push_all (push_all q bs) bs'"
  by (simp add: push_all_def)

text \<open>One event: what was buffered and what came in is in new batches or in the buffer.\<close>

lemma batcher_step_chunks:
  assumes "bb_running s" "length (bb_buffer s) < unat n"
  obtains bs chunks where
    "bb_queue (batcher_step n d s (t, p, ev)) =
       (if ev = ChannelClosed then close (push_all (bb_queue s) bs) else push_all (bb_queue s) bs)"
    "batches_of n bs chunks"
    "concat chunks @ bb_buffer (batcher_step n d s (t, p, ev)) =
       bb_buffer s @ map snd (received [(t, p, ev)])"
    "length (bb_buffer (batcher_step n d s (t, p, ev))) < unat n"
    "bb_running (batcher_step n d s (t, p, ev)) \<longleftrightarrow> ev \<noteq> ChannelClosed"
    "ev = ChannelClosed \<Longrightarrow> bb_buffer (batcher_step n d s (t, p, ev)) = []"
proof (cases ev)
  case (Received pe)
  obtain r where pe: "pe = ProbeCompleted r" by (cases pe)
  let ?s = "s\<lparr>bb_buffer := bb_buffer s @ [r]\<rparr>"
  show thesis
  proof (cases "unat n \<le> length (bb_buffer ?s)")
    case True
    have "length (bb_buffer ?s) \<le> unat n" using assms(2) by simp
    from flush_chunk [OF this, of p] obtain bs chunks where
      c: "bb_queue (flush p ?s) = push_all (bb_queue ?s) bs" "batches_of n bs chunks"
         "concat chunks = bb_buffer ?s" by blast
    show thesis
      using True c assms Received pe
      by (intro that [of bs chunks]) (simp_all add: batcher_step_def flush_fields)
  next
    case False
    then show thesis
      using assms Received pe by (intro that [of "[]" "[]"]) (simp_all add: batcher_step_def)
  qed
next
  case (ChannelLagged k)
  then show thesis
    using assms by (intro that [of "[]" "[]"]) (simp_all add: batcher_step_def)
next
  case ChannelClosed
  from flush_chunk [of s n p] assms(2) obtain bs chunks where
    c: "bb_queue (flush p s) = push_all (bb_queue s) bs" "batches_of n bs chunks"
       "concat chunks = bb_buffer s" by auto
  show thesis
    using c assms ChannelClosed
    by (intro that [of bs chunks]) (simp_all add: batcher_step_def flush_fields)
next
  case DeadlineReached
  from flush_chunk [of s n p] assms(2) obtain bs chunks where
    c: "bb_queue (flush p s) = push_all (bb_queue s) bs" "batches_of n bs chunks"
       "concat chunks = bb_buffer s" by auto
  show thesis
  proof (cases "bb_deadline s \<le> t")
    case True
    then show thesis
      using c assms DeadlineReached
      by (intro that [of bs chunks]) (simp_all add: batcher_step_def flush_fields)
  next
    case False
    then show thesis
      using assms DeadlineReached by (intro that [of "[]" "[]"]) (simp_all add: batcher_step_def)
  qed
qed

lemma received_Cons:
  "received (e # evs) = received [e] @ (if snd (snd e) = ChannelClosed then [] else received evs)"
  by (cases "[e]" rule: received.cases) simp_all

lemma run_batcher_chunks:
  assumes "bb_running s" "length (bb_buffer s) < unat n"
  shows "\<exists>bs chunks.
    batches_of n bs chunks \<and>
    concat chunks @ bb_buffer (run_batcher n d s evs) = bb_buffer s @ map snd (received evs) \<and>
    length (bb_buffer (run_batcher n d s evs)) < unat n \<and>
    bb_queue (run_batcher n d s evs) =
      (if saw_close evs then close (push_all (bb_queue s) bs) else push_all (bb_queue s) bs) \<and>
    (bb_running (run_batcher n d s evs) \<longleftrightarrow> \<not> saw_close evs) \<and>
    (saw_close evs \<longrightarrow> bb_buffer (run_batcher n d s evs) = [])"
  using assms
proof (induction evs arbitrary: s)
  case Nil
  then show ?case by (intro exI [of _ "[]"]) simp
next
  case (Cons e evs)
  obtain t p ev where e: "e = (t, p, ev)" by (cases e)
  let ?s = "batcher_step n d s e"
  obtain bs chunks where step:
    "bb_queue ?s = (if ev = ChannelClosed then close (push_all (bb_queue s) bs) else push_all (bb_queue s) bs)"
    "batches_of n bs chunks" "concat chunks @ bb_buffer ?s = bb_buffer s @ map snd (received [e])"
    "length (bb_buffer ?s) < unat n" "bb_running ?s \<longleftrightarrow> ev \<noteq> ChannelClosed"
    "ev = ChannelClosed \<Longrightarrow> bb_buffer ?s = []"
    using batcher_step_chunks [OF Cons.prems, of d t p ev] unfolding e by blast
  show ?case
  proof (cases "ev = ChannelClosed")
    case True
    with step(5) have "run_batcher n d ?s evs = ?s" by (simp add: step_stopped)
    with step True e show ?thesis
      by (intro exI [of _ bs] exI [of _ chunks]) (simp add: received_Cons [of e evs])
  next
    case False
    with step(5) have "bb_running ?s" by simp
    from Cons.IH [OF this step(4)] obtain bs' chunks' where rest:
      "batches_of n bs' chunks'"
      "concat chunks' @ bb_buffer (run_batcher n d ?s evs) = bb_buffer ?s @ map snd (received evs)"
      "length (bb_buffer (run_batcher n d ?s evs)) < unat n"
      "bb_queue (run_batcher n d ?s evs) =
         (if saw_close evs then close (push_all (bb_queue ?s) bs') else push_all (bb_queue ?s) bs')"
      "bb_running (run_batcher n d ?s evs) \<longleftrightarrow> \<not> saw_close evs"
      "saw_close evs \<longrightarrow> bb_buffer (run_batcher n d ?s evs) = []"
      by blast
    have both: "received (e # evs) = received [e] @ received evs"
      using False e received_Cons [of e evs] by simp
    have "concat (chunks @ chunks') @ bb_buffer (run_batcher n d ?s evs) =
        (concat chunks @ bb_buffer ?s) @ map snd (received evs)"
      using rest(2) by simp
    also have "\<dots> = bb_buffer s @ map snd (received (e # evs))"
      by (simp only: step(3) both map_append append_assoc)
    finally have "concat (chunks @ chunks') @ bb_buffer (run_batcher n d ?s evs) =
        bb_buffer s @ map snd (received (e # evs))" .
    with rest step(1,2) False e show ?thesis
      by (intro exI [of _ "bs @ bs'"] exI [of _ "chunks @ chunks'"])
         (simp add: batches_of_append push_all_append)
  qed
qed

text \<open>The batcher neither loses, duplicates nor reorders a result: the results it received are those of
  the batches it pushed, in order, followed by the buffer. No batch is empty or longer than
  \<open>batch_size\<close>, the buffer always has room, and when the channel closes the buffer is pushed and the
  queue closed. The queue keeps the newest of these batches.\<close>

lemma batcher_conserves_results:
  fixes now timeout capacity stats evs
  assumes "0 < batch_size"
  defines "s \<equiv> run_batcher batch_size timeout (batcher_start now timeout (new_queue capacity stats)) evs"
  shows "\<exists>bs chunks k.
    map bt_text bs = map render_batch chunks \<and>
    (\<forall>c \<in> set chunks. c \<noteq> [] \<and> length c \<le> unat batch_size) \<and>
    concat chunks @ bb_buffer s = map snd (received evs) \<and>
    length (bb_buffer s) < unat batch_size \<and>
    k \<le> length bs \<and> rq_batches (bb_queue s) = drop k bs \<and>
    (saw_close evs \<longrightarrow> bb_buffer s = [] \<and> rq_closed (bb_queue s))"
proof -
  let ?s = "batcher_start now timeout (new_queue capacity stats)"
  have "bb_running ?s" "length (bb_buffer ?s) < unat batch_size"
    using assms(1) by (simp_all add: batcher_start_def word_less_nat_alt)
  moreover have start: "bb_queue ?s = new_queue capacity stats" "bb_buffer ?s = []"
    by (simp_all add: batcher_start_def)
  ultimately obtain bs chunks where r:
    "batches_of batch_size bs chunks" "concat chunks @ bb_buffer s = map snd (received evs)"
    "length (bb_buffer s) < unat batch_size"
    "bb_queue s = (if saw_close evs then close (push_all (new_queue capacity stats) bs)
                   else push_all (new_queue capacity stats) bs)"
    "saw_close evs \<longrightarrow> bb_buffer s = []"
    using run_batcher_chunks [of ?s batch_size timeout evs]
    unfolding s_def [symmetric] start append_Nil by blast
  have "\<exists>k \<le> length bs. rq_batches (push_all (new_queue capacity stats) bs) = drop k bs"
    using rq.run_contents [of "new_queue capacity stats" "map Push bs"]
    by (simp add: push_all_run_ops queue_consistent_def new_queue_def)
  then obtain k where "k \<le> length bs" "rq_batches (bb_queue s) = drop k bs"
    using r(4) by auto
  with r show ?thesis
    unfolding batches_of_def by (intro exI [of _ bs] exI [of _ chunks] exI [of _ k]) auto
qed

section \<open>How long a result waits\<close>

text \<open>The instants at which the results still in the buffer arrived.\<close>

definition waiting_step :: "u64 \<Rightarrow> batcher \<Rightarrow> nat list \<Rightarrow> timed_event \<Rightarrow> nat list" where
  "waiting_step batch_size s ts e =
     (case e of (now, address, ev) \<Rightarrow>
        if \<not> bb_running s then ts
        else case ev of
          Received pe \<Rightarrow> if unat batch_size \<le> length ts + 1 then [] else ts @ [now]
        | ChannelLagged n \<Rightarrow> ts
        | ChannelClosed \<Rightarrow> []
        | DeadlineReached \<Rightarrow> if bb_deadline s \<le> now then [] else ts)"

fun waiting :: "u64 \<Rightarrow> duration \<Rightarrow> batcher \<Rightarrow> nat list \<Rightarrow> timed_event list \<Rightarrow> nat list" where
  "waiting n d s ts [] = ts"
| "waiting n d s ts (e # evs) = waiting n d (batcher_step n d s e) (waiting_step n s ts e) evs"

definition served_by :: "nat \<Rightarrow> duration \<Rightarrow> batcher \<Rightarrow> nat list \<Rightarrow> bool" where
  "served_by now d s ts \<longleftrightarrow>
     length ts = length (bb_buffer s) \<and> (\<forall>t \<in> set ts. bb_deadline s \<le> t + d) \<and> bb_deadline s \<le> now + d"

lemma served_step:
  assumes "served_by t0 d s ts" "t0 \<le> t"
  shows "served_by t d (batcher_step n d s (t, p, ev)) (waiting_step n s ts (t, p, ev))"
proof (cases ev)
  case (Received pe)
  obtain r where "pe = ProbeCompleted r" by (cases pe)
  with Received assms show ?thesis
    by (auto simp: served_by_def batcher_step_def waiting_step_def flush_fields Let_def)
qed (use assms in \<open>auto simp: served_by_def batcher_step_def waiting_step_def flush_fields Let_def\<close>)

lemma served_run:
  assumes "served_by t0 d s ts" "sorted (t0 # map fst evs)"
  shows "\<exists>t. served_by t d (run_batcher n d s evs) (waiting n d s ts evs)"
  using assms
proof (induction evs arbitrary: s ts t0)
  case Nil
  then show ?case by auto
next
  case (Cons e evs)
  obtain t p ev where e: "e = (t, p, ev)" by (cases e)
  have "served_by t d (batcher_step n d s e) (waiting_step n s ts e)"
    using served_step [OF Cons.prems(1), of t n p ev] Cons.prems(2) e by simp
  moreover have "sorted (t # map fst evs)" using Cons.prems(2) e by simp
  ultimately show ?case using Cons.IH by simp
qed

text \<open>C16: no result waits for company longer than \<open>batch_timeout_ms\<close>: at every moment the flush deadline
  lies within the timeout of the arrival of every result in the buffer, and when the deadline is served
  the buffer is pushed and empty.\<close>

theorem batch_timeout_bounds_the_wait:
  fixes start n d q evs
  assumes "sorted (start # map fst evs)"
  defines "s \<equiv> run_batcher n d (batcher_start start d q) evs"
    and "ts \<equiv> waiting n d (batcher_start start d q) [] evs"
  shows "length ts = length (bb_buffer s) \<and> (\<forall>t \<in> set ts. bb_deadline s \<le> t + d) \<and>
         (bb_deadline s \<le> t' \<longrightarrow> bb_running s \<longrightarrow>
            bb_buffer (batcher_step n d s (t', p, DeadlineReached)) = [])"
proof -
  have "served_by start d (batcher_start start d q) []"
    by (simp add: served_by_def batcher_start_def)
  from served_run [OF this assms(1), of n]
  have "length ts = length (bb_buffer s)" "\<forall>t \<in> set ts. bb_deadline s \<le> t + d"
    unfolding s_def ts_def by (auto simp: served_by_def)
  then show ?thesis by (simp add: batcher_step_def flush_fields)
qed

theorem batch_timeout_bounds_the_wait_witness:
  "waiting 10 1000 (batcher_start 0 1000 (new_queue 4096 default_stats)) []
     [(5, 0, Received (ProbeCompleted sample_result))] = [5] \<and>
   (1000 :: nat) \<le> 5 + 1000"
proof -
  let ?s = "batcher_start 0 1000 (new_queue 4096 default_stats)"
  let ?evs = "[(5, 0, Received (ProbeCompleted sample_result))] :: timed_event list"
  have w: "waiting 10 1000 ?s [] ?evs = [5]"
    by (simp add: waiting_step_def batcher_start_def)
  have "bb_deadline (run_batcher 10 1000 ?s ?evs) = 1000"
    by (simp add: batcher_step_def batcher_start_def)
  with w batch_timeout_bounds_the_wait [of 0 ?evs 10 1000 "new_queue 4096 default_stats"]
  show ?thesis by simp
qed

end
