(* ===== verification/Prometheus.thy ===== *)
theory Prometheus
  imports Web_State Line_Protocol
begin

text \<open>
  The metrics endpoint, \<open>huginn-web/src/prometheus.rs\<close>: the text exposition of the latest results and
  the write path's counters, the label and metric name escaping, the bearer check and the handler. The
  lemmas: the output depends only on the set of results, not on the order of the hash map; it is a
  sequence of families each with one header; labels can be read back; the key check accepts exactly the
  key.
\<close>

section \<open>Rendering\<close>

definition escape_label_char :: "rchar \<Rightarrow> rstr" where
  "escape_label_char c =
     (if c = 92 then [92, 92] else if c = 34 then [92, 34] else if c = 10 then [92, 110] else [c])"

definition escape_label :: "rstr \<Rightarrow> rstr" where
  "escape_label s = concat (map escape_label_char s)"

definition sanitize_metric_name :: "rstr \<Rightarrow> rstr" where
  "sanitize_metric_name key =
     map (\<lambda>c. if is_ascii_alphanumeric c \<or> c = 95 \<or> c = 58 then c else 95) key"

definition family_header :: "rstr \<Rightarrow> rstr \<Rightarrow> rstr \<Rightarrow> rstr" where
  "family_header name help kind =
     lit ''# HELP '' @ name @ [32] @ help @ [10] @ lit ''# TYPE '' @ name @ [32] @ kind @ [10]"

definition render_scalar :: "rstr \<Rightarrow> rstr \<Rightarrow> rstr \<Rightarrow> f64 \<Rightarrow> rstr" where
  "render_scalar name help kind v = family_header name help kind @ name @ [32] @ show_f64 v @ [10]"

definition sample_line :: "rstr \<Rightarrow> probe_result \<times> f64 \<Rightarrow> rstr" where
  "sample_line name rv =
     name @ lit ''{probe='' @ [34] @ escape_label (pr_probe_name (fst rv)) @ [34] @
     lit '',type='' @ [34] @ escape_label (pr_probe_type (fst rv)) @ [34] @
     lit '',target='' @ [34] @ escape_label (pr_target (fst rv)) @ [34, 125, 32] @ show_f64 (snd rv)"

definition render_family :: "rstr \<Rightarrow> rstr \<Rightarrow> (probe_result \<times> f64) list \<Rightarrow> rstr" where
  "render_family name help samples =
     (let lines = concat (map (\<lambda>rv. sample_line name rv @ [10]) samples)
      in if lines \<noteq> [] then family_header name help (lit ''gauge'') @ lines else [])"

definition counter :: rstr where "counter = lit ''counter''"
definition gauge :: rstr where "gauge = lit ''gauge''"

definition render_write_path :: "write_stats \<Rightarrow> rstr" where
  "render_write_path s =
     render_scalar (lit ''huginn_influx_queue_batches'')
       (lit ''Batches currently waiting in the retry queue.'') gauge (f64_of_nat (unat (queue_batches s))) @
     render_scalar (lit ''huginn_influx_queue_bytes'')
       (lit ''Bytes of line protocol currently waiting in the retry queue.'') gauge
       (f64_of_nat (unat (queue_bytes s))) @
     render_scalar (lit ''huginn_influx_batches_written_total'')
       (lit ''Batches InfluxDB has accepted since startup.'') counter (f64_of_nat (unat (written_batches s))) @
     render_scalar (lit ''huginn_influx_bytes_written_total'')
       (lit ''Bytes of line protocol InfluxDB has accepted since startup.'') counter
       (f64_of_nat (unat (written_bytes s))) @
     render_scalar (lit ''huginn_influx_batches_dropped_total'')
       (lit ''Batches evicted because the retry queue was full. These measurements are lost.'') counter
       (f64_of_nat (unat (dropped_batches s))) @
     render_scalar (lit ''huginn_influx_bytes_dropped_total'')
       (lit ''Bytes of line protocol evicted because the retry queue was full.'') counter
       (f64_of_nat (unat (dropped_bytes s))) @
     render_scalar (lit ''huginn_influx_batches_rejected_total'')
       (lit ''Batches InfluxDB refused permanently and which were discarded. These measurements are lost.'')
       counter (f64_of_nat (unat (rejected_batches s))) @
     render_scalar (lit ''huginn_influx_last_write_success_timestamp_seconds'')
       (lit ''Unix timestamp of the last write InfluxDB accepted, or 0 if none has since startup.'') gauge
       (f64_of_nat (unat (last_write_success_unix s)))"

text \<open>\<open>extra.entry(k).or_default().push(x)\<close>\<close>

definition entry_push :: "'a list btree_map \<Rightarrow> rstr \<times> 'a \<Rightarrow> 'a list btree_map" where
  "entry_push m kx = btree_insert (fst kx) (unwrap_or (map_of m (fst kx)) [] @ [snd kx]) m"

definition extra_samples :: "probe_result list \<Rightarrow> (rstr \<times> probe_result \<times> f64) list" where
  "extra_samples probes =
     concat (map (\<lambda>r. map (\<lambda>kv. (sanitize_metric_name (fst kv), r, snd kv)) (pr_metrics r)) probes)"

definition extra_families :: "probe_result list \<Rightarrow> (probe_result \<times> f64) list btree_map" where
  "extra_families probes = foldl entry_push [] (extra_samples probes)"

definition success_value :: "probe_result \<Rightarrow> f64" where
  "success_value r = (if pr_up r then f64_of_nat 1 else f64_zero)"

text \<open>\<open>results.values()\<close>, in whatever order the map yields them.\<close>

definition render :: "probe_result list \<Rightarrow> write_stats \<Rightarrow> rstr" where
  "render values stats =
     (let probes = sort_key pr_probe_name values
      in render_family (lit ''huginn_probe_success'')
           (lit ''Whether the last probe run succeeded (1) or failed (0).'')
           (map (\<lambda>r. (r, success_value r)) probes) @
         render_family (lit ''huginn_probe_duration_seconds'')
           (lit ''Duration of the last probe run in seconds.'')
           (map (\<lambda>r. (r, f64_div (pr_response_ms r) (f64_of_nat 1000))) probes) @
         render_family (lit ''huginn_probe_http_status_code'')
           (lit ''HTTP status code of the last probe run (HTTP probes only).'')
           (List.map_filter (\<lambda>r. map_option (\<lambda>c. (r, f64_of_nat (unat c))) (pr_status_code r)) probes) @
         render_family (lit ''huginn_probe_last_run_timestamp_seconds'')
           (lit ''Unix timestamp of the last probe run.'')
           (map (\<lambda>r. (r, f64_of_int (dt_timestamp (pr_timestamp r)))) probes) @
         concat (map (\<lambda>(key, samples).
             render_family (lit ''huginn_probe_'' @ key) (lit ''Probe-specific reading '' @ quoted key @ lit ''.'') samples)
           (extra_families probes)) @
         render_write_path stats)"

section \<open>The order of the hash map does not show\<close>

lemma results_wf_names: "results_wf m \<Longrightarrow> distinct (map pr_probe_name (map snd m))"
proof -
  assume wf: "results_wf m"
  then have "map pr_probe_name (map snd m) = map fst m" by (auto simp: results_wf_def)
  moreover have "distinct (map fst m)" using wf by (simp add: results_wf_def)
  ultimately show ?thesis by (simp only:)
qed

text \<open>A scrape is reproducible: from a well-formed results map, whatever order its iteration takes gives the
  same text.\<close>

lemma exposition_ignores_map_order:
  assumes "results_wf m" and "mset values = mset (map snd m)"
  shows "render values stats = render (map snd m) stats"
proof -
  have "mset (map pr_probe_name values) = mset (map pr_probe_name (map snd m))"
    using assms(2) by (metis mset_map)
  then have "distinct (map pr_probe_name values)"
    using results_wf_names [OF assms(1)] mset_eq_imp_distinct_iff by blast
  from sort_key_mset_cong [OF assms(2) this] show ?thesis by (simp add: render_def)
qed

section \<open>Labels\<close>

text \<open>How a scraper reads a quoted label value.\<close>

fun read_label :: "rstr \<Rightarrow> (rstr \<times> rstr) option" where
  "read_label [] = None"
| "read_label (c # s) =
     (if c = 34 then Some ([], s)
      else if c = 92 then
        (case s of [] \<Rightarrow> None
         | d # s' \<Rightarrow> map_option (\<lambda>(v, r). ((if d = 110 then 10 else d) # v, r)) (read_label s'))
      else map_option (\<lambda>(v, r). (c # v, r)) (read_label s))"

interpretation label_value: line_escape escape_label_char read_label "\<lambda>d. d = 34" "\<lambda>d r. r"
proof
  show "read_label (d # s) = Some ([], s)" if "d = 34" for d s using that by simp
  show "read_label (escape_label_char c @ s) = map_option (\<lambda>(t, r). (c # t, r)) (read_label s)" for c s
    by (simp add: escape_label_char_def)
  show "10 \<notin> set (escape_label_char c)" for c by (simp add: escape_label_char_def)
qed

lemma read_label_escape: "read_label (escape_label s @ 34 # rest) = Some (s, rest)"
  unfolding escape_label_def by (rule label_value.read_escaped) simp

definition metric_name_char :: "rchar \<Rightarrow> bool" where
  "metric_name_char c \<longleftrightarrow> is_ascii_alphanumeric c \<or> c = 95 \<or> c = 58"

lemma sanitize_chars: "list_all metric_name_char (sanitize_metric_name key)"
  by (auto simp: sanitize_metric_name_def metric_name_char_def list_all_iff)

lemma sanitize_id: "list_all metric_name_char key \<Longrightarrow> sanitize_metric_name key = key"
  by (auto simp: sanitize_metric_name_def metric_name_char_def list_all_iff intro: map_idI)

lemma metric_name_not_blank: "list_all metric_name_char s \<Longrightarrow> 10 \<notin> set s \<and> 32 \<notin> set s"
  by (auto simp: metric_name_char_def list_all_iff is_ascii_alphanumeric_def is_digit_def)

section \<open>The output is a sequence of families\<close>

text \<open>A family: its name, help and kind, and its sample lines.\<close>

type_synonym family = "rstr \<times> rstr \<times> rstr \<times> rstr list"

definition unlines :: "rstr list \<Rightarrow> rstr" where
  "unlines ls = concat (map (\<lambda>l. l @ [10]) ls)"

definition family_lines :: "family \<Rightarrow> rstr list" where
  "family_lines f =
     (case f of (name, help, kind, samples) \<Rightarrow>
        if samples = [] then []
        else (lit ''# HELP '' @ name @ [32] @ help) # (lit ''# TYPE '' @ name @ [32] @ kind) # samples)"

definition probe_family :: "rstr \<Rightarrow> rstr \<Rightarrow> (probe_result \<times> f64) list \<Rightarrow> family" where
  "probe_family name help samples = (name, help, gauge, map (sample_line name) samples)"

definition scalar_family :: "rstr \<Rightarrow> rstr \<Rightarrow> rstr \<Rightarrow> f64 \<Rightarrow> family" where
  "scalar_family name help kind v = (name, help, kind, [name @ [32] @ show_f64 v])"

lemma unlines_simps [simp]:
  "unlines [] = []" "unlines (l # ls) = l @ 10 # unlines ls" "unlines (ks @ ls) = unlines ks @ unlines ls"
  by (simp_all add: unlines_def)

lemma unlines_concat: "unlines (concat lss) = concat (map unlines lss)"
  by (induction lss) simp_all

lemma sample_line_nonempty: "concat (map (\<lambda>rv. sample_line name rv @ [10]) samples) = [] \<longleftrightarrow> samples = []"
  by (cases samples) simp_all

lemma render_family_lines: "render_family name help samples = unlines (family_lines (probe_family name help samples))"
  unfolding render_family_def Let_def sample_line_nonempty
  by (simp add: family_lines_def probe_family_def family_header_def gauge_def)
     (simp add: unlines_def comp_def)

lemma render_scalar_lines: "render_scalar name help kind v = unlines (family_lines (scalar_family name help kind v))"
  by (simp add: render_scalar_def family_header_def family_lines_def scalar_family_def)

definition write_path_families :: "write_stats \<Rightarrow> family list" where
  "write_path_families s =
     [scalar_family (lit ''huginn_influx_queue_batches'')
        (lit ''Batches currently waiting in the retry queue.'') gauge (f64_of_nat (unat (queue_batches s))),
      scalar_family (lit ''huginn_influx_queue_bytes'')
        (lit ''Bytes of line protocol currently waiting in the retry queue.'') gauge
        (f64_of_nat (unat (queue_bytes s))),
      scalar_family (lit ''huginn_influx_batches_written_total'')
        (lit ''Batches InfluxDB has accepted since startup.'') counter (f64_of_nat (unat (written_batches s))),
      scalar_family (lit ''huginn_influx_bytes_written_total'')
        (lit ''Bytes of line protocol InfluxDB has accepted since startup.'') counter
        (f64_of_nat (unat (written_bytes s))),
      scalar_family (lit ''huginn_influx_batches_dropped_total'')
        (lit ''Batches evicted because the retry queue was full. These measurements are lost.'') counter
        (f64_of_nat (unat (dropped_batches s))),
      scalar_family (lit ''huginn_influx_bytes_dropped_total'')
        (lit ''Bytes of line protocol evicted because the retry queue was full.'') counter
        (f64_of_nat (unat (dropped_bytes s))),
      scalar_family (lit ''huginn_influx_batches_rejected_total'')
        (lit ''Batches InfluxDB refused permanently and which were discarded. These measurements are lost.'')
        counter (f64_of_nat (unat (rejected_batches s))),
      scalar_family (lit ''huginn_influx_last_write_success_timestamp_seconds'')
        (lit ''Unix timestamp of the last write InfluxDB accepted, or 0 if none has since startup.'') gauge
        (f64_of_nat (unat (last_write_success_unix s)))]"

definition builtin_families :: "probe_result list \<Rightarrow> family list" where
  "builtin_families probes =
     [probe_family (lit ''huginn_probe_success'')
        (lit ''Whether the last probe run succeeded (1) or failed (0).'')
        (map (\<lambda>r. (r, success_value r)) probes),
      probe_family (lit ''huginn_probe_duration_seconds'')
        (lit ''Duration of the last probe run in seconds.'')
        (map (\<lambda>r. (r, f64_div (pr_response_ms r) (f64_of_nat 1000))) probes),
      probe_family (lit ''huginn_probe_http_status_code'')
        (lit ''HTTP status code of the last probe run (HTTP probes only).'')
        (List.map_filter (\<lambda>r. map_option (\<lambda>c. (r, f64_of_nat (unat c))) (pr_status_code r)) probes),
      probe_family (lit ''huginn_probe_last_run_timestamp_seconds'')
        (lit ''Unix timestamp of the last probe run.'')
        (map (\<lambda>r. (r, f64_of_int (dt_timestamp (pr_timestamp r)))) probes)]"

definition extra_family :: "rstr \<times> (probe_result \<times> f64) list \<Rightarrow> family" where
  "extra_family ks =
     probe_family (lit ''huginn_probe_'' @ fst ks) (lit ''Probe-specific reading '' @ quoted (fst ks) @ lit ''.'')
       (snd ks)"

definition all_families :: "probe_result list \<Rightarrow> write_stats \<Rightarrow> family list" where
  "all_families values stats =
     builtin_families (sort_key pr_probe_name values) @
     map extra_family (extra_families (sort_key pr_probe_name values)) @ write_path_families stats"

lemma render_write_path_lines:
  "render_write_path s = unlines (concat (map family_lines (write_path_families s)))"
  unfolding render_write_path_def write_path_families_def render_scalar_lines
  by (simp only: list.map concat.simps append_Nil2 unlines_simps(3))

lemma render_lines: "render values stats = unlines (concat (map family_lines (all_families values stats)))"
  unfolding render_def all_families_def builtin_families_def Let_def render_family_lines render_write_path_lines
  by (simp only: unlines_concat list.map concat.simps map_append concat_append append_assoc append_Nil2
      unlines_simps(3) append_Nil case_prod_unfold extra_family_def map_map comp_def)

text \<open>Every line is free of line feeds, so the text can be cut back into its lines.\<close>

lemma newline_free_escape_label [simp]: "10 \<notin> set (escape_label s)"
  unfolding escape_label_def by (rule label_value.escaped_newline_free)

lemma newline_free_sample: "10 \<notin> set name \<Longrightarrow> 10 \<notin> set (sample_line name rv)"
  by (simp add: sample_line_def lit_simps)

text \<open>How a scraper reads a sample: the name, the labels in braces, the value.\<close>

fun read_labels :: "nat \<Rightarrow> rstr \<Rightarrow> ((rstr \<times> rstr) list \<times> rstr) option" where
  "read_labels 0 s = None"
| "read_labels (Suc fuel) s =
     Option.bind (strip_prefix (dropWhile (\<lambda>c. c \<noteq> 61) s) [61, 34]) (\<lambda>t.
     Option.bind (read_label t) (\<lambda>(v, r).
       let kv = (takeWhile (\<lambda>c. c \<noteq> 61) s, v)
       in case strip_prefix_char r 44 of
            Some r' \<Rightarrow> map_option (\<lambda>(kvs, r''). (kv # kvs, r'')) (read_labels fuel r')
          | None \<Rightarrow> Some ([kv], r)))"

definition read_sample :: "rstr \<Rightarrow> (rstr \<times> (rstr \<times> rstr) list \<times> rstr) option" where
  "read_sample s =
     Option.bind (strip_prefix_char (dropWhile (\<lambda>c. c \<noteq> 123) s) 123) (\<lambda>t.
     Option.bind (read_labels (length t) t) (\<lambda>(labels, r).
     map_option (\<lambda>v. (takeWhile (\<lambda>c. c \<noteq> 123) s, labels, v)) (strip_prefix r [125, 32])))"

text \<open>The labels from one key on, and what follows their closing quote.\<close>

lemma read_labels_step:
  assumes "61 \<notin> set key"
  shows "read_labels (Suc fuel) (key @ [61, 34] @ escape_label v @ 34 # 44 # r) =
           map_option (\<lambda>(kvs, r'). ((key, v) # kvs, r')) (read_labels fuel r)"
    and "read_labels (Suc fuel) (key @ [61, 34] @ escape_label v @ 34 # 125 # r) = Some ([(key, v)], 125 # r)"
proof -
  have "takeWhile (\<lambda>c. c \<noteq> 61) (key @ [61, 34] @ x) = key" "dropWhile (\<lambda>c. c \<noteq> 61) (key @ [61, 34] @ x) = [61, 34] @ x" for x
    using assms by (induction key) auto
  then show "read_labels (Suc fuel) (key @ [61, 34] @ escape_label v @ 34 # 44 # r) =
           map_option (\<lambda>(kvs, r'). ((key, v) # kvs, r')) (read_labels fuel r)"
    "read_labels (Suc fuel) (key @ [61, 34] @ escape_label v @ 34 # 125 # r) = Some ([(key, v)], 125 # r)"
    using strip_prefix_append [of "[61, 34]"] by (simp_all add: read_label_escape strip_prefix_char_def)
qed

lemma read_sample_line:
  assumes "123 \<notin> set name"
  shows "read_sample (sample_line name (r, v)) =
     Some (name, [(lit ''probe'', pr_probe_name r), (lit ''type'', pr_probe_type r), (lit ''target'', pr_target r)],
           show_f64 v)"
proof -
  let ?labels = "lit ''probe'' @ [61, 34] @ escape_label (pr_probe_name r) @ 34 # 44 #
      lit ''type'' @ [61, 34] @ escape_label (pr_probe_type r) @ 34 # 44 #
      lit ''target'' @ [61, 34] @ escape_label (pr_target r) @ 34 # 125 # 32 # show_f64 v"
  have line: "sample_line name (r, v) = name @ 123 # ?labels" by (simp add: sample_line_def lit_simps)
  have name: "takeWhile (\<lambda>c. c \<noteq> 123) (name @ 123 # x) = name"
    "dropWhile (\<lambda>c. c \<noteq> 123) (name @ 123 # x) = 123 # x" for x
    using assms by (induction name) auto
  have keys: "61 \<notin> set (lit ''probe'')" "61 \<notin> set (lit ''type'')" "61 \<notin> set (lit ''target'')"
    by (simp_all add: lit_simps)
  obtain n where n: "length ?labels = Suc (Suc (Suc n))" by (simp add: lit_simps)
  have labels: "read_labels (length ?labels) ?labels =
      Some ([(lit ''probe'', pr_probe_name r), (lit ''type'', pr_probe_type r), (lit ''target'', pr_target r)],
            125 # 32 # show_f64 v)"
    unfolding n read_labels_step(1) [OF keys(1)] read_labels_step(1) [OF keys(2)] read_labels_step(2) [OF keys(3)]
    by simp
  show ?thesis
    unfolding line read_sample_def name strip_prefix_char_def list.case if_True simp_thms Option.bind.simps labels prod.case
    using strip_prefix_append [of "[125, 32]"] by simp
qed

text \<open>C36: a sample is read back as it was written: metric, labels and value, whatever the probe's name, type and
  target contain. They cannot close their quotes early, forge another label or value, or start a new line.\<close>

theorem label_roundtrip:
  "read_sample (sample_line (lit ''huginn_probe_'' @ sanitize_metric_name key) (r, v)) =
     Some (lit ''huginn_probe_'' @ sanitize_metric_name key,
           [(lit ''probe'', pr_probe_name r), (lit ''type'', pr_probe_type r), (lit ''target'', pr_target r)],
           show_f64 v) \<and>
   10 \<notin> set (sample_line (lit ''huginn_probe_'' @ sanitize_metric_name key) (r, v))"
proof -
  have "123 \<notin> set (sanitize_metric_name key)" "10 \<notin> set (sanitize_metric_name key)"
    using sanitize_chars [of key] by (auto simp: list_all_iff metric_name_char_def is_ascii_alphanumeric_def is_digit_def)
  then show ?thesis
    by (intro conjI read_sample_line newline_free_sample) (simp_all add: lit_simps)
qed

definition family_safe :: "family \<Rightarrow> bool" where
  "family_safe f =
     (case f of (name, help, kind, samples) \<Rightarrow>
        10 \<notin> set name \<and> 32 \<notin> set name \<and> 10 \<notin> set help \<and> 10 \<notin> set kind \<and>
        (\<forall>l \<in> set samples. 10 \<notin> set l \<and> \<not> starts_with l (lit ''# '')))"

lemma entry_push_keys: "fst ` set (entry_push m kx) = insert (fst kx) (fst ` set m)"
  by (simp add: entry_push_def set_btree_insert)

lemma entry_push_foldl:
  "btree_wf m \<Longrightarrow> btree_wf (foldl entry_push m xs) \<and>
     fst ` set (foldl entry_push m xs) = fst ` set m \<union> fst ` set xs"
proof (induction xs arbitrary: m)
  case (Cons x xs)
  have "btree_wf (entry_push m x)" using Cons.prems by (simp add: entry_push_def)
  from Cons.IH [OF this] show ?case by (simp add: entry_push_keys)
qed simp

lemma extra_families_wf: "btree_wf (extra_families probes)"
  unfolding extra_families_def using entry_push_foldl [OF btree_wf_empty] by blast

lemma extra_families_keys:
  "fst ` set (extra_families probes) = (\<Union>r \<in> set probes. sanitize_metric_name ` fst ` set (pr_metrics r))"
proof -
  have "fst ` set (extra_families probes) = fst ` set (extra_samples probes)"
    unfolding extra_families_def using entry_push_foldl [OF btree_wf_empty, of "extra_samples probes"] by simp
  also have "\<dots> = (\<Union>r \<in> set probes. sanitize_metric_name ` fst ` set (pr_metrics r))"
    by (simp add: extra_samples_def image_UN image_image)
  finally show ?thesis .
qed

lemma probe_family_safe:
  assumes "list_all metric_name_char name" "10 \<notin> set help" "name \<noteq> []"
  shows "family_safe (probe_family name help samples)"
proof -
  have nb: "10 \<notin> set name" "32 \<notin> set name" using metric_name_not_blank [OF assms(1)] by auto
  have "hd name \<noteq> 35"
    using assms(1,3) by (cases name) (auto simp: metric_name_char_def is_ascii_alphanumeric_def is_digit_def)
  then have "\<not> starts_with (sample_line name rv) (lit ''# '')" for rv
    using assms(3) by (cases name) (simp_all add: sample_line_def starts_with_def lit_simps)
  then show ?thesis
    using nb assms(2) newline_free_sample
    by (auto simp: family_safe_def probe_family_def gauge_def lit_simps)
qed

lemma scalar_family_safe:
  assumes "list_all metric_name_char name" "10 \<notin> set help" "10 \<notin> set kind" "name \<noteq> []"
  shows "family_safe (scalar_family name help kind v)"
proof -
  have nb: "10 \<notin> set name" "32 \<notin> set name" using metric_name_not_blank [OF assms(1)] by auto
  have "hd name \<noteq> 35"
    using assms(1,4) by (cases name) (auto simp: metric_name_char_def is_ascii_alphanumeric_def is_digit_def)
  then have "\<not> starts_with (name @ [32] @ show_f64 v) (lit ''# '')"
    using assms(4) by (cases name) (simp_all add: starts_with_def lit_simps)
  then show ?thesis using nb assms(2,3) by (simp add: family_safe_def scalar_family_def)
qed

lemmas name_char_simps = metric_name_char_def is_ascii_alphanumeric_def is_digit_def lit_simps

lemma builtin_families_safe: "f \<in> set (builtin_families probes) \<Longrightarrow> family_safe f"
  unfolding builtin_families_def by (auto intro!: probe_family_safe simp: name_char_simps)

lemma write_path_families_safe: "f \<in> set (write_path_families s) \<Longrightarrow> family_safe f"
  unfolding write_path_families_def gauge_def counter_def
  by (auto intro!: scalar_family_safe simp: name_char_simps)

lemma extra_family_safe:
  assumes "list_all metric_name_char (fst ks)"
  shows "family_safe (extra_family ks)"
  using assms metric_name_not_blank [OF assms] unfolding extra_family_def
  by (intro probe_family_safe) (simp_all add: name_char_simps quoted_def single_quote_def)

lemma all_families_safe:
  assumes "f \<in> set (all_families values stats)" shows "family_safe f"
proof -
  have "list_all metric_name_char k" if "k \<in> fst ` set (extra_families probes)" for k probes
    using that sanitize_chars unfolding extra_families_keys by blast
  then have "family_safe (extra_family ks)" if "ks \<in> set (extra_families probes)" for ks probes
    using that extra_family_safe by blast
  with assms show ?thesis
    by (auto simp: all_families_def builtin_families_safe write_path_families_safe)
qed

text \<open>How a scraper finds the families: the names on the \<open># TYPE\<close> lines.\<close>

definition exposition_lines :: "rstr \<Rightarrow> rstr list" where
  "exposition_lines out = butlast (split_lines out)"

definition type_name :: "rstr \<Rightarrow> rstr list" where
  "type_name l = (case strip_prefix l (lit ''# TYPE '') of None \<Rightarrow> [] | Some t \<Rightarrow> [takeWhile (\<lambda>c. c \<noteq> 32) t])"

definition declared_families :: "rstr \<Rightarrow> rstr list" where
  "declared_families out = concat (map type_name (exposition_lines out))"

lemma exposition_lines_unlines: "\<forall>l \<in> set ls. 10 \<notin> set l \<Longrightarrow> exposition_lines (unlines ls) = ls"
proof -
  assume "\<forall>l \<in> set ls. 10 \<notin> set l"
  then have "split_lines (unlines ls) = ls @ [[]]"
    by (induction ls) (simp_all add: split_lines_append)
  then show ?thesis by (simp add: exposition_lines_def)
qed

lemma family_lines_newline_free: "family_safe f \<Longrightarrow> l \<in> set (family_lines f) \<Longrightarrow> 10 \<notin> set l"
  by (cases f) (auto simp: family_safe_def family_lines_def lit_simps split: if_splits)

lemma type_name_comment: "\<not> starts_with l (lit ''# '') \<Longrightarrow> type_name l = []"
proof -
  assume "\<not> starts_with l (lit ''# '')"
  moreover have "lit ''# TYPE '' = lit ''# '' @ lit ''TYPE ''" by (simp add: lit_simps)
  ultimately have "\<not> starts_with l (lit ''# TYPE '')" by (auto simp: starts_with_iff)
  then show ?thesis by (simp add: type_name_def strip_prefix_def)
qed

lemma type_name_help: "type_name (lit ''# HELP '' @ t) = []"
  by (simp add: type_name_def strip_prefix_def starts_with_def lit_simps)

lemma type_name_type: "32 \<notin> set name \<Longrightarrow> type_name (lit ''# TYPE '' @ name @ 32 # t) = [name]"
proof -
  assume "32 \<notin> set name"
  then have "takeWhile (\<lambda>c. c \<noteq> 32) (name @ 32 # t) = name"
    by (intro takeWhile_eq_prefix) (auto simp: list_all_iff)
  then show ?thesis by (simp add: type_name_def)
qed

lemma family_types:
  "family_safe f \<Longrightarrow> concat (map type_name (family_lines f)) = (if snd (snd (snd f)) = [] then [] else [fst f])"
  by (cases f)
     (auto simp: family_safe_def family_lines_def type_name_help type_name_type type_name_comment)

lemma families_types:
  "\<forall>f \<in> set fs. family_safe f \<Longrightarrow>
   concat (map type_name (concat (map family_lines fs))) = map fst (filter (\<lambda>f. snd (snd (snd f)) \<noteq> []) fs)"
  by (induction fs) (simp_all add: family_types)

lemma declared_render:
  "declared_families (render values stats) =
     map fst (filter (\<lambda>f. snd (snd (snd f)) \<noteq> []) (all_families values stats))"
proof -
  let ?fs = "all_families values stats"
  have safe: "\<forall>f \<in> set ?fs. family_safe f" using all_families_safe by blast
  then have "\<forall>l \<in> set (concat (map family_lines ?fs)). 10 \<notin> set l"
    using family_lines_newline_free by auto
  then have "declared_families (render values stats) = concat (map type_name (concat (map family_lines ?fs)))"
    by (simp add: declared_families_def render_lines exposition_lines_unlines)
  also have "\<dots> = map fst (filter (\<lambda>f. snd (snd (snd f)) \<noteq> []) ?fs)"
    using safe by (rule families_types)
  finally show ?thesis .
qed

definition reserved_keys :: "rstr set" where
  "reserved_keys =
     {lit ''success'', lit ''duration_seconds'', lit ''http_status_code'', lit ''last_run_timestamp_seconds''}"

lemma builtin_names:
  "map fst (builtin_families probes) =
     map (\<lambda>k. lit ''huginn_probe_'' @ k)
       [lit ''success'', lit ''duration_seconds'', lit ''http_status_code'', lit ''last_run_timestamp_seconds'']"
  by (simp add: builtin_families_def probe_family_def lit_simps)

lemma extra_names: "map fst (map extra_family ks) = map (\<lambda>k. lit ''huginn_probe_'' @ k) (map fst ks)"
  by (simp add: extra_family_def probe_family_def)

lemma write_path_names:
  "distinct (map fst (write_path_families s))"
  "n \<in> set (map fst (write_path_families s)) \<Longrightarrow> n \<noteq> lit ''huginn_probe_'' @ k"
  by (auto simp: write_path_families_def scalar_family_def lit_simps)

lemma all_family_names_distinct:
  assumes "\<forall>r \<in> set values. \<forall>k \<in> fst ` set (pr_metrics r). sanitize_metric_name k \<notin> reserved_keys"
  shows "distinct (map fst (all_families values stats))"
proof -
  let ?probes = "sort_key pr_probe_name values"
  let ?builtin = "[lit ''success'', lit ''duration_seconds'', lit ''http_status_code'', lit ''last_run_timestamp_seconds'']"
  have keys: "set (map fst (extra_families ?probes)) \<inter> reserved_keys = {}"
    using assms extra_families_keys [of ?probes] by auto
  have "distinct (?builtin @ map fst (extra_families ?probes))"
    using keys btree_wf_distinct [OF extra_families_wf] by (auto simp: reserved_keys_def lit_simps)
  then have "distinct (map (\<lambda>k. lit ''huginn_probe_'' @ k) (?builtin @ map fst (extra_families ?probes)))"
    by (subst distinct_map) (simp add: inj_on_def)
  then show ?thesis
    using write_path_names(1) [of stats] write_path_names(2) [of _ stats]
    unfolding all_families_def map_append builtin_names extra_names
    by (auto simp del: list.map(2) simp: map_append [symmetric] distinct_append simp del: map_append)
qed

text \<open>C14: every metric family is declared once: on the lines a scraper reads, no name has two \<open># TYPE\<close> headers,
  as long as no probe invents a metric key that is the name of one of the four built-in readings.\<close>

theorem each_family_is_declared_once:
  assumes "\<forall>r \<in> set values. \<forall>k \<in> fst ` set (pr_metrics r). sanitize_metric_name k \<notin> reserved_keys"
  shows "distinct (declared_families (render values stats))"
  unfolding declared_render
  using all_family_names_distinct [OF assms] by (rule distinct_map_filter)

theorem each_family_is_declared_once_witness:
  "distinct (declared_families (render
     [with_metric sample_result tls_cert_expiry_days_key (f64_of_nat 3)] default_stats))"
proof -
  have "\<forall>r \<in> set [with_metric sample_result tls_cert_expiry_days_key (f64_of_nat 3)].
      \<forall>k \<in> fst ` set (pr_metrics r). sanitize_metric_name k \<notin> reserved_keys"
    by (simp add: set_btree_insert sample_result_def sanitize_metric_name_def reserved_keys_def
        tls_cert_expiry_days_key_def is_ascii_alphanumeric_def is_digit_def lit_simps)
  from each_family_is_declared_once [OF this] show ?thesis .
qed

section \<open>Access\<close>

text \<open>The loop of \<open>constant_time_eq\<close>: no early exit on a difference.\<close>

fun xor_fold :: "u8 \<Rightarrow> u8 list \<Rightarrow> u8 list \<Rightarrow> u8" where
  "xor_fold diff (x # xs) (y # ys) = xor_fold (or diff (xor x y)) xs ys"
| "xor_fold diff xs ys = diff"

definition constant_time_eq :: "u8 list \<Rightarrow> u8 list \<Rightarrow> bool" where
  "constant_time_eq a b = (if length a \<noteq> length b then False else xor_fold 0 a b = 0)"

text \<open>
  \<open>headers\<close> gives the bytes of a request header; \<open>to_str\<close> is \<open>HeaderValue::to_str\<close>, which yields the
  text of a value when all of it is visible ASCII.
\<close>

definition request_is_authorized ::
    "(u8 list \<Rightarrow> rstr option) \<Rightarrow> (rstr \<Rightarrow> u8 list option) \<Rightarrow> rstr \<Rightarrow> bool" where
  "request_is_authorized to_str headers key =
     (case Option.bind (headers (lit ''authorization'')) to_str of
        None \<Rightarrow> False
      | Some value \<Rightarrow>
          (case strip_prefix value (lit ''Bearer '') of
             None \<Rightarrow> False
           | Some presented \<Rightarrow> constant_time_eq (utf8 presented) (utf8 key)))"

definition content_type_text :: rstr where
  "content_type_text = lit ''text/plain; version=0.0.4; charset=utf-8''"

record metrics_state =
  ms_web :: web_state
  ms_api_key :: "rstr option"

text \<open>\<open>values\<close> is the order in which the results map is iterated; the middleware adds the security headers.\<close>

definition handle_prometheus ::
    "(u8 list \<Rightarrow> rstr option) \<Rightarrow> metrics_state \<Rightarrow> (rstr \<Rightarrow> u8 list option) \<Rightarrow> probe_result list \<Rightarrow> http_reply" where
  "handle_prometheus to_str st headers values =
     (if (case ms_api_key st of Some key \<Rightarrow> \<not> request_is_authorized to_str headers key | None \<Rightarrow> False)
      then \<lparr>hp_status = 401, hp_headers = [(lit ''www-authenticate'', lit ''Bearer'')],
            hp_body = lit ''unauthorized'' @ [10]\<rparr>
      else \<lparr>hp_status = 200, hp_headers = [(lit ''content-type'', content_type_text)],
            hp_body = render values (wb_write_stats (ms_web st))\<rparr>)"

definition serve_metrics_request ::
    "(u8 list \<Rightarrow> rstr option) \<Rightarrow> metrics_state \<Rightarrow> (rstr \<Rightarrow> u8 list option) \<Rightarrow> probe_result list \<Rightarrow> http_reply" where
  "serve_metrics_request to_str st headers values = security_headers (handle_prometheus to_str st headers values)"

lemma or_eq_zero: "or a b = 0 \<longleftrightarrow> a = 0 \<and> b = 0" for a b :: u8
  by (metis or.left_neutral or.right_idem or.right_neutral or_eq_0_iff)

lemma xor_eq_zero: "xor a b = 0 \<longleftrightarrow> a = b" for a b :: u8
  by (metis xor.left_neutral xor.assoc xor_self_eq)

lemma xor_fold_zero: "length xs = length ys \<Longrightarrow> xor_fold d xs ys = 0 \<longleftrightarrow> d = 0 \<and> xs = ys"
  by (induction d xs ys rule: xor_fold.induct) (auto simp: or_eq_zero xor_eq_zero)

lemma constant_time_eq_iff: "constant_time_eq a b \<longleftrightarrow> a = b"
  by (auto simp: constant_time_eq_def xor_fold_zero)

text \<open>What the library documents of \<open>to_str\<close>.\<close>

definition visible_ascii :: "rchar \<Rightarrow> bool" where
  "visible_ascii c \<longleftrightarrow> c = 9 \<or> (32 \<le> c \<and> c < 127)"

definition to_str_documented :: "(u8 list \<Rightarrow> rstr option) \<Rightarrow> bool" where
  "to_str_documented to_str \<longleftrightarrow>
     (\<forall>v s. to_str v = Some s \<longleftrightarrow> s = map unat v \<and> list_all visible_ascii s)"

definition header_to_str :: "u8 list \<Rightarrow> rstr option" where
  "header_to_str v = (if list_all visible_ascii (map unat v) then Some (map unat v) else None)"

lemma header_to_str_documented: "to_str_documented header_to_str"
  by (simp add: to_str_documented_def header_to_str_def) (metis (full_types))

lemma visible_ascii_valid: "list_all visible_ascii s \<Longrightarrow> valid_text s"
  by (auto simp: valid_text_def list_all_iff visible_ascii_def is_scalar_def)

lemma authorized_iff:
  assumes "to_str_documented to_str" "valid_text key"
  shows "request_is_authorized to_str headers key \<longleftrightarrow>
    (\<exists>v. headers (lit ''authorization'') = Some v \<and> map unat v = lit ''Bearer '' @ key) \<and> list_all visible_ascii key"
proof -
  have "request_is_authorized to_str headers key \<longleftrightarrow>
      (\<exists>v s p. headers (lit ''authorization'') = Some v \<and> to_str v = Some s \<and> s = lit ''Bearer '' @ p \<and>
         utf8 p = utf8 key)"
    by (auto simp: request_is_authorized_def constant_time_eq_iff strip_prefix_Some_iff
        split: option.splits bind_splits)
  also have "\<dots> \<longleftrightarrow> (\<exists>v p. headers (lit ''authorization'') = Some v \<and> map unat v = lit ''Bearer '' @ p \<and>
         list_all visible_ascii (lit ''Bearer '' @ p) \<and> p = key)"
  proof -
    have same: "utf8 p = utf8 key \<longleftrightarrow> p = key" if "list_all visible_ascii p" for p
      using utf8_inject visible_ascii_valid [OF that] assms(2) by blast
    have to_text: "to_str v = Some s \<longleftrightarrow> s = map unat v \<and> list_all visible_ascii s" for v s
      using assms(1) unfolding to_str_documented_def by blast
    have part: "list_all visible_ascii p" if "list_all visible_ascii (lit ''Bearer '' @ p)" for p
      using that by simp
    show ?thesis
    proof (intro iffI; elim exE conjE)
      fix v s p
      assume h: "headers (lit ''authorization'') = Some v" "to_str v = Some s" "s = lit ''Bearer '' @ p"
        "utf8 p = utf8 key"
      then have "s = map unat v" "list_all visible_ascii s" using h(2) unfolding to_text by blast+
      with h part same show "\<exists>v p. headers (lit ''authorization'') = Some v \<and> map unat v = lit ''Bearer '' @ p \<and>
          list_all visible_ascii (lit ''Bearer '' @ p) \<and> p = key" by metis
    next
      fix v p
      assume h: "headers (lit ''authorization'') = Some v" "map unat v = lit ''Bearer '' @ p"
        "list_all visible_ascii (lit ''Bearer '' @ p)" "p = key"
      then have "to_str v = Some (lit ''Bearer '' @ p)" unfolding to_text by simp
      with h show "\<exists>v s p. headers (lit ''authorization'') = Some v \<and> to_str v = Some s \<and>
          s = lit ''Bearer '' @ p \<and> utf8 p = utf8 key" by blast
    qed
  qed
  also have "\<dots> \<longleftrightarrow> (\<exists>v. headers (lit ''authorization'') = Some v \<and> map unat v = lit ''Bearer '' @ key) \<and>
      list_all visible_ascii key"
    by (auto simp: visible_ascii_def lit_simps)
  finally show ?thesis .
qed

text \<open>C8: with an API key configured, probe data leaves the metrics listener only for a request whose
  \<open>Authorization\<close> header is exactly \<open>Bearer \<close> and the key; every other request gets a 401 that is the same
  whatever the probes and counters are. A key with a character outside visible ASCII can never be presented.
  Without a key every request is served.\<close>

theorem metrics_need_the_key:
  assumes "to_str_documented to_str" and "ms_api_key st = Some key" and "valid_text key"
  shows "(hp_status (serve_metrics_request to_str st headers values) = 200 \<longleftrightarrow>
            (\<exists>v. headers (lit ''authorization'') = Some v \<and> map unat v = lit ''Bearer '' @ key) \<and>
            list_all visible_ascii key) \<and>
         (hp_status (serve_metrics_request to_str st headers values) \<noteq> 200 \<longrightarrow>
            (\<forall>web values'. serve_metrics_request to_str st headers values =
               serve_metrics_request to_str (st\<lparr>ms_web := web\<rparr>) headers values')) \<and>
         hp_status (serve_metrics_request to_str (st\<lparr>ms_api_key := None\<rparr>) headers values) = 200"
  using authorized_iff [OF assms(1,3), of headers] assms(2)
  by (auto simp: serve_metrics_request_def handle_prometheus_def security_headers_def)

theorem metrics_need_the_key_witness:
  "hp_status (serve_metrics_request header_to_str
     \<lparr>ms_web = new_web_state default_stats, ms_api_key = Some [107]\<rparr> (\<lambda>_. Some [107]) []) \<noteq> 200"
proof -
  let ?st = "\<lparr>ms_web = new_web_state default_stats, ms_api_key = Some [107]\<rparr>"
  have key: "ms_api_key ?st = Some [107]" "valid_text [107]" by (simp_all add: is_scalar_def)
  have "\<not> (\<exists>v. (\<lambda>_. Some [107]) (lit ''authorization'') = Some v \<and> map unat v = lit ''Bearer '' @ [107])"
    by (simp add: lit_simps)
  with metrics_need_the_key [OF header_to_str_documented key, of "\<lambda>_. Some [107]" "[]"]
  show ?thesis by blast
qed

end
