(* ===== verification/Http_Listeners.thy ===== *)
theory Http_Listeners
  imports Prometheus Probe_Io Transition_Systems
begin

text \<open>
  The three listeners of \<open>huginn-web\<close>: binding (\<open>bind_ui\<close>, \<open>bind_metrics\<close>, \<open>bind_health\<close>), the routes and
  handlers of \<open>server.rs\<close> and \<open>health.rs\<close>, the accept loop of \<open>serve.rs\<close> with its connection cap, and
  the client side of the health check. Sockets, the HTTP framework and the embedded assets are
  arguments. An \<open>anyhow\<close> error is its chain of messages, the outermost context first.
\<close>

type_synonym anyhow = "rstr list"

definition context_of :: "rstr \<Rightarrow> rstr \<Rightarrow> anyhow" where
  "context_of outer inner = [outer, inner]"

section \<open>Binding\<close>

text \<open>\<open>tcp_bind\<close> is \<open>TcpListener::bind\<close>; the inner message of a failed parse is the standard library's.\<close>

definition ip_parse_error :: rstr where
  "ip_parse_error = lit ''invalid IP address syntax''"

definition bind_listener ::
    "rstr \<Rightarrow> rstr \<Rightarrow> (ip_addr \<Rightarrow> u16 \<Rightarrow> rstr + 'l) \<Rightarrow> rstr \<Rightarrow> u16 \<Rightarrow> anyhow + 'l" where
  "bind_listener key what tcp_bind bind port =
     and_then (ok_or (context_of (key @ [32] @ quoted bind @ lit '' is not a valid IP address'') ip_parse_error)
                (parse_ip bind)) (\<lambda>addr.
       map_err (context_of (lit ''could not bind the '' @ what @ lit '' on '' @ bind @ [58] @ show_nat (unat port)))
         (tcp_bind addr port))"

definition bind_ui :: "(ip_addr \<Rightarrow> u16 \<Rightarrow> rstr + 'l) \<Rightarrow> rstr \<Rightarrow> u16 \<Rightarrow> anyhow + 'l" where
  "bind_ui = bind_listener (lit ''ui.bind'') (lit ''debug UI'')"

definition bind_metrics :: "(ip_addr \<Rightarrow> u16 \<Rightarrow> rstr + 'l) \<Rightarrow> rstr \<Rightarrow> u16 \<Rightarrow> anyhow + 'l" where
  "bind_metrics = bind_listener (lit ''metrics.bind'') (lit ''metrics listener'')"

definition bind_health :: "(ip_addr \<Rightarrow> u16 \<Rightarrow> rstr + 'l) \<Rightarrow> rstr \<Rightarrow> u16 \<Rightarrow> anyhow + 'l" where
  "bind_health = bind_listener (lit ''health bind'') (lit ''health listener'')"

lemma bind_listener_Inr_iff:
  "bind_listener k w tb bind port = Inr l \<longleftrightarrow> (\<exists>addr. parse_ip bind = Some addr \<and> tb addr port = Inr l)"
  by (simp add: bind_listener_def and_then_Inr_iff)

lemmas bind_defs = bind_ui_def bind_metrics_def bind_health_def

section \<open>Routes\<close>

record ui_assets =
  ua_index_html :: rstr
  ua_style_css :: rstr
  ua_app_js :: rstr

text \<open>
  What a handler answers: a complete reply, or for \<open>/events\<close> the head of a reply whose body is the stream
  of events (\<open>sse_head\<close>, which the framework makes).
\<close>

datatype handler_answer = Answer http_reply | EventStream http_reply

primrec answer_head :: "handler_answer \<Rightarrow> http_reply" where
  "answer_head (Answer r) = r"
| "answer_head (EventStream r) = r"

definition ok_reply :: "rstr \<Rightarrow> rstr \<Rightarrow> handler_answer" where
  "ok_reply content_type body =
     Answer \<lparr>hp_status = 200, hp_headers = [(lit ''content-type'', content_type)], hp_body = body\<rparr>"

definition plain_text :: rstr where
  "plain_text = lit ''text/plain; charset=utf-8''"

definition handle_index :: "ui_assets \<Rightarrow> handler_answer" where
  "handle_index a = ok_reply (lit ''text/html; charset=utf-8'') (ua_index_html a)"

definition handle_health :: handler_answer where
  "handle_health = ok_reply plain_text (lit ''OK'')"

text \<open>\<open>values\<close> is the results map in its iteration order, \<open>to_json\<close> the JSON text of a list of results.\<close>

definition handle_metrics_latest :: "(probe_result list \<Rightarrow> rstr) \<Rightarrow> probe_result list \<Rightarrow> handler_answer" where
  "handle_metrics_latest to_json values = ok_reply (lit ''application/json'') (to_json values)"

definition handle_css :: "ui_assets \<Rightarrow> handler_answer" where
  "handle_css a = ok_reply (lit ''text/css; charset=utf-8'') (ua_style_css a)"

definition handle_js :: "ui_assets \<Rightarrow> handler_answer" where
  "handle_js a = ok_reply (lit ''application/javascript; charset=utf-8'') (ua_app_js a)"

definition ui_routes ::
    "ui_assets \<Rightarrow> http_reply \<Rightarrow> (probe_result list \<Rightarrow> rstr) \<Rightarrow> probe_result list \<Rightarrow>
     (rstr \<times> handler_answer) list" where
  "ui_routes a sse_head to_json values =
     [(lit ''/'', handle_index a),
      (lit ''/events'', EventStream sse_head),
      (lit ''/metrics/latest'', handle_metrics_latest to_json values),
      (lit ''/health'', handle_health),
      (lit ''/assets/style.css'', handle_css a),
      (lit ''/assets/app.js'', handle_js a)]"

definition health_routes :: "(rstr \<times> handler_answer) list" where
  "health_routes = [(lit ''/health'', handle_health)]"

text \<open>A \<open>GET\<close> through the router and the header middleware; \<open>None\<close> is the framework's own 404.\<close>

primrec answer_through_headers :: "handler_answer \<Rightarrow> handler_answer" where
  "answer_through_headers (Answer r) = Answer (security_headers r)"
| "answer_through_headers (EventStream r) = EventStream (security_headers r)"

definition serve_get :: "(rstr \<times> handler_answer) list \<Rightarrow> rstr \<Rightarrow> handler_answer option" where
  "serve_get routes path = map_option answer_through_headers (map_of routes path)"

lemma answer_head_through_headers: "answer_head (answer_through_headers h) = security_headers (answer_head h)"
  by (cases h) simp_all

text \<open>
  Binding and serving in one call. \<open>serve\<close> is the rest of the function on the bound listener; it returns only
  on an error.
\<close>

definition run_server_with_state ::
    "(ip_addr \<Rightarrow> u16 \<Rightarrow> rstr + 'l) \<Rightarrow> ('l \<Rightarrow> anyhow + unit) \<Rightarrow> rstr \<Rightarrow> u16 \<Rightarrow> anyhow + unit" where
  "run_server_with_state tcp_bind serve bind port = and_then (bind_ui tcp_bind bind port) serve"

definition run_metrics_server ::
    "(ip_addr \<Rightarrow> u16 \<Rightarrow> rstr + 'l) \<Rightarrow> ('l \<Rightarrow> anyhow + unit) \<Rightarrow> rstr \<Rightarrow> u16 \<Rightarrow> anyhow + unit" where
  "run_metrics_server tcp_bind serve bind port = and_then (bind_metrics tcp_bind bind port) serve"

text \<open>
  The UI on its own: a state with fresh counters, its event loop started, then the same. \<open>events\<close> is what the
  loop has taken from the hub; it subscribes before the socket is bound.
\<close>

definition run_server ::
    "(probe_result \<Rightarrow> rstr option) \<Rightarrow> recv list \<Rightarrow> (ip_addr \<Rightarrow> u16 \<Rightarrow> rstr + 'l) \<Rightarrow>
     (web_state \<Rightarrow> 'l \<Rightarrow> anyhow + unit) \<Rightarrow> rstr \<Rightarrow> u16 \<Rightarrow> anyhow + unit" where
  "run_server to_json events tcp_bind serve bind port =
     (let state = event_loop to_json (new_web_state default_stats) events
      in run_server_with_state tcp_bind (serve state) bind port)"

section \<open>The accept loop\<close>

definition max_connections :: nat where "max_connections = 256"

definition header_read_timeout :: duration where "header_read_timeout = 3 * 1000000000"

text \<open>
  A connection being served: since when the head of its next request is awaited, and whether that head is
  complete. The state of the loop: the instant, the permits of the semaphore that are free, whether the loop
  holds one and waits in \<open>accept\<close>, and the connections, each of whose tasks holds a permit.
\<close>

record connection =
  cx_peer :: nat
  cx_since :: nat
  cx_head :: bool

record serve_state =
  sv_now :: nat
  sv_permits :: nat
  sv_accepting :: bool
  sv_connections :: "connection list"

definition serve_start :: "nat \<Rightarrow> serve_state" where
  "serve_start limit = \<lparr>sv_now = 0, sv_permits = limit, sv_accepting = False, sv_connections = []\<rparr>"

text \<open>
  hyper's part is \<open>ends timeout now c\<close>: with this header timeout it ends the connection \<open>c\<close> at the instant
  \<open>now\<close>. Time passes only when no connection is about to be ended; a connection can also end at any moment
  by itself, and its task gives the permit back either way.
\<close>

inductive serve_step ::
    "(duration \<Rightarrow> nat \<Rightarrow> connection \<Rightarrow> bool) \<Rightarrow> duration \<Rightarrow> serve_state \<Rightarrow> serve_state \<Rightarrow> bool"
  for ends timeout where
  acquire:
    "\<not> sv_accepting s \<Longrightarrow> 0 < sv_permits s \<Longrightarrow>
     serve_step ends timeout s (s\<lparr>sv_permits := sv_permits s - 1, sv_accepting := True\<rparr>)"
| accepted:
    "sv_accepting s \<Longrightarrow>
     serve_step ends timeout s (s\<lparr>sv_accepting := False,
       sv_connections := \<lparr>cx_peer = peer, cx_since = sv_now s, cx_head = False\<rparr> # sv_connections s\<rparr>)"
| accept_failed:
    "sv_accepting s \<Longrightarrow>
     serve_step ends timeout s (s\<lparr>sv_accepting := False, sv_permits := sv_permits s + 1\<rparr>)"
| head_complete:
    "i < length (sv_connections s) \<Longrightarrow> \<not> cx_head (sv_connections s ! i) \<Longrightarrow>
     serve_step ends timeout s
       (s\<lparr>sv_connections := (sv_connections s)[i := (sv_connections s ! i)\<lparr>cx_head := True\<rparr>]\<rparr>)"
| answered:
    "i < length (sv_connections s) \<Longrightarrow> cx_head (sv_connections s ! i) \<Longrightarrow>
     serve_step ends timeout s
       (s\<lparr>sv_connections := (sv_connections s)[i := (sv_connections s ! i)\<lparr>cx_head := False, cx_since := sv_now s\<rparr>]\<rparr>)"
| connection_over:
    "c \<in> set (sv_connections s) \<Longrightarrow>
     serve_step ends timeout s
       (s\<lparr>sv_connections := remove1 c (sv_connections s), sv_permits := sv_permits s + 1\<rparr>)"
| clock:
    "\<forall>c \<in> set (sv_connections s). \<not> ends timeout (sv_now s) c \<Longrightarrow>
     serve_step ends timeout s (s\<lparr>sv_now := Suc (sv_now s)\<rparr>)"

abbreviation serve_with ::
    "(duration \<Rightarrow> nat \<Rightarrow> connection \<Rightarrow> bool) \<Rightarrow> nat \<Rightarrow> duration \<Rightarrow> serve_state \<Rightarrow> bool" where
  "serve_with ends limit timeout \<equiv> reachable_from (\<lambda>s. s = serve_start limit) (serve_step ends timeout)"

definition serve_with_limits :: "(duration \<Rightarrow> nat \<Rightarrow> connection \<Rightarrow> bool) \<Rightarrow> serve_state \<Rightarrow> bool" where
  "serve_with_limits ends = serve_with ends max_connections header_read_timeout"

text \<open>hyper documents: a connection whose head is not complete in time is closed.\<close>

definition header_timeout_law :: "(duration \<Rightarrow> nat \<Rightarrow> connection \<Rightarrow> bool) \<Rightarrow> bool" where
  "header_timeout_law ends \<longleftrightarrow>
     (\<forall>timeout now c. \<not> cx_head c \<longrightarrow> cx_since c + timeout \<le> now \<longrightarrow> ends timeout now c)"

definition permits_balanced :: "nat \<Rightarrow> serve_state \<Rightarrow> bool" where
  "permits_balanced limit s \<longleftrightarrow>
     sv_permits s + (if sv_accepting s then 1 else 0) + length (sv_connections s) = limit"

lemma serve_step_permits: "serve_step ends timeout s t \<Longrightarrow> permits_balanced limit s \<Longrightarrow> permits_balanced limit t"
proof (induction rule: serve_step.induct)
  case (connection_over c s)
  then obtain n where "length (sv_connections s) = Suc n" by (cases "sv_connections s") auto
  with connection_over show ?case by (simp add: permits_balanced_def length_remove1)
qed (simp_all add: permits_balanced_def)

interpretation accept_loop: invariant_system "\<lambda>s. s = serve_start limit" "serve_step ends timeout"
  "permits_balanced limit" for limit ends timeout
proof
  show "s = serve_start limit \<Longrightarrow> permits_balanced limit s" for s by (simp add: permits_balanced_def serve_start_def)
qed (rule serve_step_permits)

definition heads_in_time :: "duration \<Rightarrow> serve_state \<Rightarrow> bool" where
  "heads_in_time timeout s \<longleftrightarrow>
     (\<forall>c \<in> set (sv_connections s). \<not> cx_head c \<longrightarrow> sv_now s \<le> cx_since c + timeout)"

lemma serve_step_heads:
  assumes "header_timeout_law ends" "serve_step ends timeout s t" "heads_in_time timeout s"
  shows "heads_in_time timeout t"
  using assms(2,3)
proof (induction rule: serve_step.induct)
  case (clock s)
  have "Suc (sv_now s) \<le> cx_since c + timeout" if c: "c \<in> set (sv_connections s)" "\<not> cx_head c" for c
  proof -
    have "\<not> ends timeout (sv_now s) c" using clock.hyps c(1) by blast
    then have "\<not> cx_since c + timeout \<le> sv_now s" using assms(1) c(2) unfolding header_timeout_law_def by blast
    then show ?thesis by simp
  qed
  then show ?case by (simp add: heads_in_time_def)
next
  case (head_complete i s)
  then show ?case by (auto simp: heads_in_time_def set_conv_nth nth_list_update split: if_splits)
next
  case (answered i s)
  then show ?case by (auto simp: heads_in_time_def set_conv_nth nth_list_update split: if_splits)
next
  case (connection_over c s)
  then show ?case by (auto simp: heads_in_time_def dest: notin_set_remove1)
qed (simp_all add: heads_in_time_def)

interpretation head_deadline: invariant_system "\<lambda>s. s = serve_start limit" "serve_step ends timeout"
  "\<lambda>s. header_timeout_law ends \<longrightarrow> heads_in_time timeout s" for limit ends timeout
proof
  show "s = serve_start limit \<Longrightarrow> header_timeout_law ends \<longrightarrow> heads_in_time timeout s" for s
    by (simp add: serve_start_def heads_in_time_def)
qed (blast intro: serve_step_heads)


text \<open>A hyper that closes exactly the connections whose head is late.\<close>

definition strict_timer :: "duration \<Rightarrow> nat \<Rightarrow> connection \<Rightarrow> bool" where
  "strict_timer timeout now c \<longleftrightarrow> \<not> cx_head c \<and> cx_since c + timeout \<le> now"


section \<open>The health check\<close>

text \<open>\<open>{:?}\<close> of a \<open>Duration\<close>: the largest unit with a whole part, and the fraction without trailing zeros.\<close>

definition debug_fraction :: "nat \<Rightarrow> nat \<Rightarrow> rstr" where
  "debug_fraction digits rest =
     (if rest = 0 then [] else [46] @ trim_end_matches 48 (pad_zeros digits (show_nat rest)))"

definition debug_duration :: "duration \<Rightarrow> rstr" where
  "debug_duration d =
     (if 1000000000 \<le> d then show_nat (d div 1000000000) @ debug_fraction 9 (d mod 1000000000) @ lit ''s''
      else if 1000000 \<le> d then show_nat (d div 1000000) @ debug_fraction 6 (d mod 1000000) @ lit ''ms''
      else if 1000 \<le> d then show_nat (d div 1000) @ debug_fraction 3 (d mod 1000) @ [0xB5] @ lit ''s''
      else show_nat d @ lit ''ns'')"

record health_peer =
  hl_connect :: "u16 \<Rightarrow> unit future"
  hl_write :: "rstr \<Rightarrow> unit future"
  hl_read :: "u8 list future"

definition health_request :: rstr where
  "health_request =
     lit ''GET /health HTTP/1.0'' @ [13, 10] @ lit ''Host: '' @ health_bind @ [13, 10] @
     lit ''Connection: close'' @ [13, 10, 13, 10]"

text \<open>One read into a buffer of 64 bytes.\<close>

definition ask_health :: "health_peer \<Rightarrow> u16 \<Rightarrow> rstr future" where
  "ask_health p port =
     future_then (hl_connect p port) (\<lambda>_.
     future_then (hl_write p health_request) (\<lambda>_.
     future_then (hl_read p) (\<lambda>bytes. ready_at 0 (Inr (utf8_lossy bytes)))))"

definition health_where :: "u16 \<Rightarrow> rstr" where
  "health_where port = health_bind @ [58] @ show_nat (unat port)"

definition health_answer :: "u16 \<Rightarrow> rstr \<Rightarrow> anyhow + unit" where
  "health_answer port result =
     (if starts_with result (lit ''HTTP/1.0 200'') \<or> starts_with result (lit ''HTTP/1.1 200'') then Inr ()
      else Inl [lit ''health listener on '' @ health_where port @ lit '' did not answer 200: '' @
                unwrap_or (first_line result) (lit ''<empty response>'')])"

definition check_health :: "health_peer \<Rightarrow> u16 \<Rightarrow> duration \<Rightarrow> anyhow + unit" where
  "check_health p port timeout =
     (if \<not> in_time timeout (ask_health p port)
      then Inl (context_of (lit ''no answer from '' @ health_where port @ lit '' within '' @ debug_duration timeout)
                  (lit ''deadline has elapsed''))
      else
        and_then
          (map_err (context_of (lit ''could not reach the health listener on '' @ health_where port))
             (ft_result (ask_health p port)))
          (health_answer port))"

lemma ask_health_prefix:
  assumes "list_all (\<lambda>c. c < 0x80) p"
  shows "starts_with (utf8_lossy bs) p \<longleftrightarrow> take (length p) (map unat bs) = p"
  by (simp add: utf8_lossy_def decode_lossy_ascii_prefix [OF assms])


text \<open>The listeners disclose no more than they should. The liveness listener has one route, and its answer is
  the constant text \<open>OK\<close> with the security headers, whatever is monitored; and whatever the UI answers on one
  of its routes, the event stream included, carries each security header exactly once, with its fixed value.\<close>

lemma answers_disclose_no_more_than_they_should:
  "serve_get health_routes path =
     (if path = lit ''/health''
      then Some (Answer (security_headers
             \<lparr>hp_status = 200, hp_headers = [(lit ''content-type'', plain_text)], hp_body = lit ''OK''\<rparr>))
      else None) \<and>
   (serve_get (ui_routes a sse_head to_json values) path = Some answer \<longrightarrow>
      map_of security_headers_table name = Some value \<longrightarrow>
      header_values (hp_headers (answer_head answer)) name = [value])"
proof
  show "serve_get health_routes path =
     (if path = lit ''/health''
      then Some (Answer (security_headers
             \<lparr>hp_status = 200, hp_headers = [(lit ''content-type'', plain_text)], hp_body = lit ''OK''\<rparr>))
      else None)"
    by (simp add: serve_get_def health_routes_def handle_health_def ok_reply_def)
  show "serve_get (ui_routes a sse_head to_json values) path = Some answer \<longrightarrow>
      map_of security_headers_table name = Some value \<longrightarrow>
      header_values (hp_headers (answer_head answer)) name = [value]"
    by (auto simp: serve_get_def answer_head_through_headers responses_carry_security_headers_once)
qed

end
