(* ===== verification/Daemon.thy ===== *)
theory Daemon
  imports Scheduler Batcher Http_Listeners Config_Load
begin

text \<open>
  The binary, \<open>huginn/src/main.rs\<close>, up to the moment everything runs: the command line, the resolution
  of the output format, the \<open>healthcheck\<close> subcommand, and the start-up sequence of \<open>run\<close>, in which
  every listener is bound and every secret is read on the main task before a probe is started. What the
  operating system does (files, sockets, the HTTP client's construction) is an argument.
\<close>

section \<open>Command line\<close>

datatype command = Healthcheck

record args =
  ar_command :: "command option"
  ar_config :: rstr
  ar_output :: "rstr option"

definition default_config_path :: rstr where
  "default_config_path = lit ''/etc/huginn/config.yaml''"

text \<open>
  What the command line itself gives, as clap splits it; an option that is not there falls back to its
  environment variable and then, if it has one, to its default.
\<close>

record cli_matches =
  cm_command :: "command option"
  cm_config :: "rstr option"
  cm_output :: "rstr option"

definition or_else :: "'a option \<Rightarrow> 'a option \<Rightarrow> 'a option" where
  "or_else a b = (case a of Some x \<Rightarrow> Some x | None \<Rightarrow> b)"

definition args_parse :: "cli_matches \<Rightarrow> env \<Rightarrow> args" where
  "args_parse m env =
     \<lparr>ar_command = cm_command m,
      ar_config = unwrap_or (or_else (cm_config m) (env (lit ''HUGINN_CONFIG''))) default_config_path,
      ar_output = or_else (cm_output m) (env (lit ''HUGINN_LOG_FORMAT''))\<rparr>"

text \<open>The switch for JSON output, and the warning it adds.\<close>

definition resolve_output_format :: "rstr option \<Rightarrow> log_format \<Rightarrow> rstr list \<Rightarrow> bool \<times> rstr list" where
  "resolve_output_format cli cfg_format warnings =
     (case cli of
        Some s \<Rightarrow>
          (if eq_ignore_ascii_case s (lit ''json'') then (True, warnings)
           else if eq_ignore_ascii_case s (lit ''pretty'') then (False, warnings)
           else
             (cfg_format = Json,
              warnings @ [lit ''--output/HUGINN_LOG_FORMAT='' @ quoted s @
                lit '' is not a known format (expected json/pretty) '' @ em_dash @
                lit '' falling back to the config file'']))
      | None \<Rightarrow> (cfg_format = Json, warnings))"

text \<open>
  \<open>init_tracing\<close>: the filter comes from the environment when one is set and parses, and from the level of
  the configuration otherwise. Filters are the logging library's.
\<close>

record 'f tracing =
  tr_filter :: 'f
  tr_json :: bool

definition init_tracing :: "rstr + 'f \<Rightarrow> (rstr \<Rightarrow> 'f) \<Rightarrow> bool \<Rightarrow> rstr \<Rightarrow> 'f tracing" where
  "init_tracing rust_log new_filter use_json log_level =
     \<lparr>tr_filter = (case rust_log of Inr f \<Rightarrow> f | Inl _ \<Rightarrow> new_filter log_level), tr_json = use_json\<rparr>"

definition healthcheck_timeout :: duration where
  "healthcheck_timeout = 5 * 1000000000"

definition run_healthcheck :: "health_peer \<Rightarrow> app_config \<Rightarrow> anyhow + unit" where
  "run_healthcheck peer cfg =
     (if \<not> hc_enabled (ac_health cfg) then
        Inl [lit ''health.enabled is false in this config, so there is nothing to ask. '' @
             lit ''Either enable it, or drop the HEALTHCHECK from your deployment.'']
      else check_health peer (hc_port (ac_health cfg)) healthcheck_timeout)"

text \<open>
  When the process is asked to stop: Ctrl+C or, where the handler could be installed, SIGTERM. Each signal
  comes at an instant or never; the warnings are those logged.
\<close>

definition earliest :: "nat option \<Rightarrow> nat option \<Rightarrow> nat option" where
  "earliest a b = (case (a, b) of (Some x, Some y) \<Rightarrow> Some (min x y) | (None, _) \<Rightarrow> b | _ \<Rightarrow> a)"

definition wait_for_shutdown_signal :: "rstr + nat option \<Rightarrow> nat option \<Rightarrow> nat option \<times> rstr list" where
  "wait_for_shutdown_signal sigterm ctrl_c =
     (case sigterm of
        Inr term \<Rightarrow> (earliest ctrl_c term, [])
      | Inl e \<Rightarrow>
          (ctrl_c, [lit ''could not install SIGTERM handler ('' @ e @ lit '') '' @ em_dash @ lit '' Ctrl+C only'']))"

text \<open>
  \<open>main\<close> before \<open>run\<close>: either the outcome of the health check, or the configuration to run with, the
  output format and the warnings that are logged once logging is set up.
\<close>

datatype plan =
    Healthy
  | Monitor app_config bool "rstr list"

definition main_plan ::
    "(rstr \<Rightarrow> hugin_error + app_config \<times> rstr list) \<Rightarrow> health_peer \<Rightarrow> args \<Rightarrow> anyhow + plan" where
  "main_plan load_config peer a =
     and_then
       (map_err (\<lambda>e. context_of (lit ''Failed to load config from '' @ quoted (ar_config a)) (show_error e))
          (load_config (ar_config a))) (\<lambda>(cfg, warnings).
     if ar_command a = Some Healthcheck then map_sum id (\<lambda>_. Healthy) (run_healthcheck peer cfg)
     else
       (let (use_json, warnings') = resolve_output_format (ar_output a) (lc_format (ac_log cfg)) warnings
        in Inr (Monitor cfg use_json warnings')))"

lemma parse_format_iff:
  "parse_format v = Some f \<longleftrightarrow>
     (case f of Json \<Rightarrow> eq_ignore_ascii_case v (lit ''json'') | Pretty \<Rightarrow> eq_ignore_ascii_case v (lit ''pretty''))"
proof -
  have words: "to_lowercase v = lit ''json'' \<longleftrightarrow> eq_ignore_ascii_case v (lit ''json'')"
    "to_lowercase v = lit ''pretty'' \<longleftrightarrow> eq_ignore_ascii_case v (lit ''pretty'')"
    by (rule to_lowercase_word; simp add: lit_simps to_ascii_lowercase_char_def)+
  have "lit ''json'' \<noteq> lit ''pretty''" by (simp add: lit_simps)
  then show ?thesis unfolding words [symmetric] by (cases f) (auto simp: parse_format_def Let_def)
qed

lemma resolve_output_format_eq:
  "fst (resolve_output_format cli cfg_format ws) = (unwrap_or (Option.bind cli parse_format) cfg_format = Json)"
proof (cases cli)
  case (Some v)
  show ?thesis
  proof (cases "parse_format v")
    case None
    then have "\<not> eq_ignore_ascii_case v (lit ''json'')" "\<not> eq_ignore_ascii_case v (lit ''pretty'')"
      using parse_format_iff [of v Json] parse_format_iff [of v Pretty] by simp_all
    with None Some show ?thesis by (simp add: resolve_output_format_def)
  next
    case (Some f)
    have "\<not> (eq_ignore_ascii_case v (lit ''json'') \<and> eq_ignore_ascii_case v (lit ''pretty''))"
      using parse_format_iff [of v Json] parse_format_iff [of v Pretty] by auto
    with Some \<open>cli = Some v\<close> parse_format_iff [of v f] show ?thesis
      by (cases f) (auto simp: resolve_output_format_def)
  qed
qed (simp add: resolve_output_format_def)

text \<open>C37: the output format follows command line, environment, file, in this order of precedence, in both
  directions: the first of \<open>--output\<close>, \<open>HUGINN_LOG_FORMAT\<close> and \<open>log.format\<close> that names a known format decides;
  an unknown word is passed over, and where it comes from the command line or, without one there, from the
  environment, it is warned about.\<close>

theorem output_format_precedence:
  assumes "rd path = Inr content" and "yaml content = Inr cfg0"
    and "load_with_warnings rd yaml env path = Inr (cfg, warnings)"
    and "(use_json, warnings') = resolve_output_format (ar_output (args_parse m env)) (lc_format (ac_log cfg)) warnings"
  shows "use_json =
           (unwrap_or (or_else (Option.bind (cm_output m) parse_format)
              (Option.bind (env (lit ''HUGINN_LOG_FORMAT'')) parse_format)) (lc_format (ac_log cfg0)) = Json) \<and>
         (length warnings < length warnings' \<longleftrightarrow>
            (\<exists>v. or_else (cm_output m) (env (lit ''HUGINN_LOG_FORMAT'')) = Some v \<and> parse_format v = None))"
proof
  have yaml_result: "lc_format (ac_log cfg) = unwrap_or (Option.bind (env (lit ''HUGINN_LOG_FORMAT'')) parse_format) (lc_format (ac_log cfg0))"
    using assms(1-3) by (auto simp: load_Inr_iff normalised_log overridden_def from_env_def split: option.split)
  have "use_json = fst (resolve_output_format (ar_output (args_parse m env)) (lc_format (ac_log cfg)) warnings)"
    using assms(4) by (metis fst_conv)
  also have "\<dots> = (unwrap_or (or_else (Option.bind (cm_output m) parse_format)
              (Option.bind (env (lit ''HUGINN_LOG_FORMAT'')) parse_format)) (lc_format (ac_log cfg0)) = Json)"
    unfolding resolve_output_format_eq yaml_result
    by (cases "cm_output m"; cases "Option.bind (cm_output m) parse_format";
        cases "Option.bind (env (lit ''HUGINN_LOG_FORMAT'')) parse_format"; cases "env (lit ''HUGINN_LOG_FORMAT'')")
       (auto simp: args_parse_def or_else_def)
  finally show "use_json = (unwrap_or (or_else (Option.bind (cm_output m) parse_format)
              (Option.bind (env (lit ''HUGINN_LOG_FORMAT'')) parse_format)) (lc_format (ac_log cfg0)) = Json)" .
  have "parse_format v = None \<longleftrightarrow>
      \<not> eq_ignore_ascii_case v (lit ''json'') \<and> \<not> eq_ignore_ascii_case v (lit ''pretty'')" for v
    using parse_format_iff [of v Json] parse_format_iff [of v Pretty] by (cases "parse_format v"; cases "the (parse_format v)") simp_all
  moreover have "warnings' = snd (resolve_output_format (ar_output (args_parse m env)) (lc_format (ac_log cfg)) warnings)"
    using assms(4) by (metis snd_conv)
  ultimately show "length warnings < length warnings' \<longleftrightarrow>
      (\<exists>v. or_else (cm_output m) (env (lit ''HUGINN_LOG_FORMAT'')) = Some v \<and> parse_format v = None)"
    by (auto simp: resolve_output_format_def args_parse_def split: option.split)
qed

theorem output_format_precedence_witness:
  "fst (resolve_output_format
      (ar_output (args_parse \<lparr>cm_command = None, cm_config = None, cm_output = Some (lit ''JSON'')\<rparr> (\<lambda>_. None)))
      (lc_format (ac_log sample_config)) [])"
proof -
  let ?m = "\<lparr>cm_command = None, cm_config = None, cm_output = Some (lit ''JSON'')\<rparr>"
  let ?r = "resolve_output_format (ar_output (args_parse ?m (\<lambda>_. None))) (lc_format (ac_log sample_config)) []"
  have "(fst ?r, snd ?r) = ?r" by simp
  from output_format_precedence [OF _ _ sample_config_loads this]
  have "fst ?r = (unwrap_or (or_else (Option.bind (Some (lit ''JSON'')) parse_format) None) (lc_format (ac_log sample_config)) = Json)"
    by simp
  moreover have "parse_format (lit ''JSON'') = Some Json"
    by (simp add: parse_format_iff lit_simps eq_ignore_ascii_case_def to_ascii_lowercase_char_def)
  ultimately show ?thesis by (simp add: or_else_def)
qed

section \<open>Start-up\<close>

type_synonym socket = "ip_addr \<times> u16"

text \<open>
  The machine: \<open>mh_bind held addr port\<close> is the outcome of binding while the process holds the sockets
  \<open>held\<close>; files, their modes, and the construction of the HTTP client.
\<close>

record 'l machine =
  mh_bind :: "socket list \<Rightarrow> ip_addr \<Rightarrow> u16 \<Rightarrow> rstr + 'l"
  mh_read :: "rstr \<Rightarrow> rstr + rstr"
  mh_metadata :: "rstr \<Rightarrow> u32 option"
  mh_http_client :: "rstr + unit"

datatype start_failure = StartError anyhow | StartPanic

text \<open>Everything \<open>run\<close> has started when it begins to wait for the shutdown signal.\<close>

record 'l daemon =
  dm_health :: "'l option"
  dm_writer :: influx_writer
  dm_ui :: "'l option"
  dm_metrics :: "('l \<times> rstr option) option"
  dm_web :: "web_state option"
  dm_batcher :: batcher
  dm_writer_task :: writer_state
  dm_scheduler :: scheduler

definition started_with :: "rstr \<Rightarrow> anyhow + 'a \<Rightarrow> start_failure + 'a" where
  "started_with what r = map_err (\<lambda>chain. StartError (what # chain)) r"

definition when_enabled :: "bool \<Rightarrow> 'e + 'a \<Rightarrow> 'e + 'a option" where
  "when_enabled enabled r = (if enabled then map_sum id Some r else Inr None)"

definition held_by :: "bool \<Rightarrow> rstr \<Rightarrow> u16 \<Rightarrow> socket list" where
  "held_by enabled bind port =
     (if enabled then (case parse_ip bind of Some addr \<Rightarrow> [(addr, port)] | None \<Rightarrow> []) else [])"

definition start_health :: "'l machine \<Rightarrow> app_config \<Rightarrow> start_failure + 'l option" where
  "start_health m cfg =
     when_enabled (hc_enabled (ac_health cfg))
       (started_with (lit ''Failed to start the health listener'')
          (bind_health (mh_bind m []) health_bind (hc_port (ac_health cfg))))"

definition start_writer :: "'l machine \<Rightarrow> app_config \<Rightarrow> start_failure + influx_writer" where
  "start_writer m cfg =
     started_with (lit ''Failed to initialise InfluxDB writer'')
       (map_err (\<lambda>e. [show_error e]) (new_writer (mh_read m) (mh_metadata m) (mh_http_client m) (ac_influx cfg)))"

definition start_ui :: "'l machine \<Rightarrow> app_config \<Rightarrow> start_failure + 'l option" where
  "start_ui m cfg =
     when_enabled (uc_enabled (ac_ui cfg))
       (started_with (lit ''Failed to start the debug UI'')
          (bind_ui (mh_bind m (held_by (hc_enabled (ac_health cfg)) health_bind (hc_port (ac_health cfg))))
             (uc_bind (ac_ui cfg)) (uc_port (ac_ui cfg))))"

definition start_metrics :: "'l machine \<Rightarrow> app_config \<Rightarrow> start_failure + ('l \<times> rstr option) option" where
  "start_metrics m cfg =
     when_enabled (mc_enabled (ac_metrics cfg))
       (and_then
          (started_with (lit ''Failed to read the metrics API key file'')
             (map_err (\<lambda>e. [show_error e]) (fst (read_api_key (mh_read m) (mh_metadata m) (ac_metrics cfg))))) (\<lambda>api_key.
        and_then
          (started_with (lit ''Failed to start the Prometheus metrics listener'')
             (bind_metrics
                (mh_bind m (held_by (uc_enabled (ac_ui cfg)) (uc_bind (ac_ui cfg)) (uc_port (ac_ui cfg)) @
                            held_by (hc_enabled (ac_health cfg)) health_bind (hc_port (ac_health cfg))))
                (mc_bind (ac_metrics cfg)) (mc_port (ac_metrics cfg)))) (\<lambda>listener.
          Inr (listener, api_key))))"

text \<open>\<open>now\<close> is the instant at which the batcher arms its first timer.\<close>

definition run_daemon :: "'l machine \<Rightarrow> nat \<Rightarrow> app_config \<Rightarrow> start_failure + 'l daemon" where
  "run_daemon m now cfg =
     and_then (start_health m cfg) (\<lambda>health.
     and_then (ok_or StartPanic (new_event_hub (ac_event_hub_capacity cfg))) (\<lambda>_.
     and_then (start_writer m cfg) (\<lambda>writer.
     let queue = new_queue (unat (ic_max_buffered_bytes (ac_influx cfg))) default_stats in
     and_then (start_ui m cfg) (\<lambda>ui.
     and_then (start_metrics m cfg) (\<lambda>metrics.
       Inr \<lparr>dm_health = health, dm_writer = writer, dm_ui = ui, dm_metrics = metrics,
            dm_web = (if uc_enabled (ac_ui cfg) \<or> mc_enabled (ac_metrics cfg)
                      then Some (new_web_state default_stats) else None),
            dm_batcher = batcher_start now (duration_from_millis (ic_batch_timeout_ms (ac_influx cfg))) queue,
            dm_writer_task = \<lparr>wr_queue = queue, wr_pc = AtQueue, wr_shutdown = False\<rparr>,
            dm_scheduler = scheduler_run cfg\<rparr>)))))"

section \<open>Start-up is all or nothing\<close>

lemma started_with_Inr_iff [simp]: "started_with what r = Inr a \<longleftrightarrow> r = Inr a"
  by (simp add: started_with_def)

lemma when_enabled_Inr_iff:
  "when_enabled b r = Inr x \<longleftrightarrow> (if b then \<exists>a. r = Inr a \<and> x = Some a else x = None)"
  by (cases r) (auto simp: when_enabled_def)

lemma run_daemon_Inr_iff:
  "run_daemon m now cfg = Inr d \<longleftrightarrow>
     start_health m cfg = Inr (dm_health d) \<and> new_event_hub (ac_event_hub_capacity cfg) \<noteq> None \<and>
     start_writer m cfg = Inr (dm_writer d) \<and> start_ui m cfg = Inr (dm_ui d) \<and>
     start_metrics m cfg = Inr (dm_metrics d) \<and>
     dm_web d = (if uc_enabled (ac_ui cfg) \<or> mc_enabled (ac_metrics cfg)
                 then Some (new_web_state default_stats) else None) \<and>
     dm_batcher d = batcher_start now (duration_from_millis (ic_batch_timeout_ms (ac_influx cfg)))
       (new_queue (unat (ic_max_buffered_bytes (ac_influx cfg))) default_stats) \<and>
     dm_writer_task d = \<lparr>wr_queue = new_queue (unat (ic_max_buffered_bytes (ac_influx cfg))) default_stats,
       wr_pc = AtQueue, wr_shutdown = False\<rparr> \<and>
     dm_scheduler d = scheduler_run cfg"
  unfolding run_daemon_def Let_def and_then_Inr_iff ok_or_Inr_iff
  by (cases d) auto

lemma start_metrics_Inr_iff:
  "start_metrics m cfg = Inr x \<longleftrightarrow>
     (if mc_enabled (ac_metrics cfg) then
        \<exists>key l. x = Some (l, key) \<and>
          fst (read_api_key (mh_read m) (mh_metadata m) (ac_metrics cfg)) = Inr key \<and>
          bind_metrics
            (mh_bind m (held_by (uc_enabled (ac_ui cfg)) (uc_bind (ac_ui cfg)) (uc_port (ac_ui cfg)) @
                        held_by (hc_enabled (ac_health cfg)) health_bind (hc_port (ac_health cfg))))
            (mc_bind (ac_metrics cfg)) (mc_port (ac_metrics cfg)) = Inr l
      else x = None)"
  by (auto simp: start_metrics_def when_enabled_Inr_iff and_then_Inr_iff)

lemma start_writer_Inr_iff:
  "start_writer m cfg = Inr w \<longleftrightarrow>
     (\<exists>token. fst (read_token (mh_read m) (mh_metadata m) (ac_influx cfg)) = Inr token \<and>
        mh_http_client m = Inr () \<and>
        w = \<lparr>iw_write_url = write_url (ic_url (ac_influx cfg)) (ic_org (ac_influx cfg)) (ic_bucket (ac_influx cfg)),
             iw_token = token\<rparr>)"
  by (auto simp: start_writer_def new_writer_def and_then_Inr_iff)

text \<open>C12: start-up is all or nothing, and fails closed. When the daemon starts, exactly the enabled listeners
  are bound, the writer holds a non-empty token, the metrics listener holds a key exactly when a key file is
  configured, and that key is not empty; one unusable listener or secret is enough for it not to start.\<close>

theorem startup_is_all_or_nothing:
  assumes "run_daemon m now cfg = Inr d"
  shows "(dm_health d \<noteq> None \<longleftrightarrow> hc_enabled (ac_health cfg)) \<and>
         (dm_ui d \<noteq> None \<longleftrightarrow> uc_enabled (ac_ui cfg)) \<and>
         (dm_metrics d \<noteq> None \<longleftrightarrow> mc_enabled (ac_metrics cfg)) \<and>
         iw_token (dm_writer d) \<noteq> [] \<and>
         (\<forall>l key. dm_metrics d = Some (l, key) \<longrightarrow>
            (key = None \<longleftrightarrow> mc_api_key_file (ac_metrics cfg) = None) \<and> key \<noteq> Some [])"
proof -
  from assms have parts: "start_health m cfg = Inr (dm_health d)" "start_writer m cfg = Inr (dm_writer d)"
    "start_ui m cfg = Inr (dm_ui d)" "start_metrics m cfg = Inr (dm_metrics d)"
    by (simp_all add: run_daemon_Inr_iff)
  have "dm_health d \<noteq> None \<longleftrightarrow> hc_enabled (ac_health cfg)"
    using parts(1) by (auto simp: start_health_def when_enabled_Inr_iff split: if_splits)
  moreover have "dm_ui d \<noteq> None \<longleftrightarrow> uc_enabled (ac_ui cfg)"
    using parts(3) by (auto simp: start_ui_def when_enabled_Inr_iff split: if_splits)
  moreover have "dm_metrics d \<noteq> None \<longleftrightarrow> mc_enabled (ac_metrics cfg)"
    using parts(4) by (auto simp: start_metrics_Inr_iff split: if_splits)
  moreover have "iw_token (dm_writer d) \<noteq> []"
    using parts(2) by (auto simp: start_writer_Inr_iff read_token_def read_secret_Inr_iff)
  moreover have "(key = None \<longleftrightarrow> mc_api_key_file (ac_metrics cfg) = None) \<and> key \<noteq> Some []"
    if "dm_metrics d = Some (l, key)" for l key
    using parts(4) that
    by (auto simp: start_metrics_Inr_iff read_api_key_Inr_iff read_secret_Inr_iff split: if_splits option.splits)
  ultimately show ?thesis by blast
qed

section \<open>A validated configuration starts\<close>

text \<open>
  The documented behaviour of \<open>bind\<close>: it succeeds unless a socket that is held, by the process or by
  another one (\<open>taken\<close>), contends for the address and port.
\<close>

definition bind_law :: "'l machine \<Rightarrow> socket list \<Rightarrow> bool" where
  "bind_law m taken \<longleftrightarrow>
     (\<forall>held addr port. (\<forall>s \<in> set held \<union> set taken. can_coexist s (addr, port)) \<longrightarrow>
        (\<exists>l. mh_bind m held addr port = Inr l))"

definition free_for :: "app_config \<Rightarrow> socket list \<Rightarrow> bool" where
  "free_for cfg taken \<longleftrightarrow>
     (\<forall>ui_addr metrics_addr. parse_ip (uc_bind (ac_ui cfg)) = Some ui_addr \<longrightarrow>
        parse_ip (mc_bind (ac_metrics cfg)) = Some metrics_addr \<longrightarrow>
        (\<forall>s \<in> set taken. \<forall>t \<in> set (listeners cfg ui_addr metrics_addr). can_coexist s t))"

definition secret_readable :: "'l machine \<Rightarrow> rstr \<Rightarrow> bool" where
  "secret_readable m path \<longleftrightarrow> (\<exists>content. mh_read m path = Inr content \<and> trim content \<noteq> [])"

lemma can_coexist_sym: "can_coexist s t \<Longrightarrow> can_coexist t s"
  by (cases s; cases t) (auto simp: addresses_contend_def)

lemma parse_health_bind: "parse_ip health_bind = Some health_addr"
  by (simp add: health_bind_def health_addr_def parse_loopback)

lemma held_by_health: "held_by b health_bind port = (if b then [(health_addr, port)] else [])"
  by (simp add: held_by_def parse_health_bind)

lemma bind_succeeds:
  assumes "bind_law m taken" "parse_ip bind = Some addr"
    and "\<forall>s \<in> set held \<union> set taken. can_coexist s (addr, port)"
  shows "\<exists>l. bind_listener key what (mh_bind m held) bind port = Inr l"
  using assms unfolding bind_listener_Inr_iff bind_law_def by blast

lemma secret_read:
  "secret_readable m path \<Longrightarrow> \<exists>s. fst (read_secret (mh_read m) (mh_metadata m) msg path) = Inr s"
  by (auto simp: secret_readable_def read_secret_Inr_iff)

lemma key_read:
  assumes "\<forall>path. mc_api_key_file c = Some path \<longrightarrow> secret_readable m path"
  shows "\<exists>key. fst (read_api_key (mh_read m) (mh_metadata m) c) = Inr key"
proof (cases "mc_api_key_file c")
  case None
  then show ?thesis by (simp add: read_api_key_def)
next
  case (Some path)
  then obtain s where "fst (read_secret (mh_read m) (mh_metadata m) ''metrics API key file is empty'' path) = Inr s"
    using assms secret_read by blast
  with Some show ?thesis by (simp add: read_api_key_Inr_iff)
qed


text \<open>A machine on which everything can be had, for the witnesses.\<close>

definition open_machine :: "nat machine" where
  "open_machine =
     \<lparr>mh_bind = (\<lambda>held _ _. Inr (length held)), mh_read = (\<lambda>_. Inr (lit ''key'')), mh_metadata = (\<lambda>_. None),
      mh_http_client = Inr ()\<rparr>"

lemma open_machine_ok: "bind_law open_machine []" "secret_readable open_machine path" "mh_http_client open_machine = Inr ()"
  by (simp_all add: bind_law_def open_machine_def secret_readable_def trim_def lit_simps is_whitespace_def)


lemma open_machine_starts: "\<exists>d. run_daemon open_machine 0 sample_config = Inr d"
proof -
  have "start_health open_machine sample_config = Inr (Some 0)"
    by (simp add: start_health_def sample_config_def default_health_def when_enabled_def bind_health_def
        bind_listener_def parse_health_bind open_machine_def started_with_def)
  moreover obtain w where "start_writer open_machine sample_config = Inr w"
    using secret_read [OF open_machine_ok(2)] open_machine_ok(3) unfolding start_writer_Inr_iff read_token_def by blast
  moreover have "start_ui open_machine sample_config = Inr (Some 1)"
    by (simp add: start_ui_def sample_config_def default_ui_def default_health_def when_enabled_def bind_ui_def
        bind_listener_def parse_loopback open_machine_def started_with_def held_by_health)
  moreover have "start_metrics open_machine sample_config = Inr (Some (2, None))"
    by (simp add: start_metrics_def sample_config_def default_ui_def default_metrics_def default_health_def
        when_enabled_def bind_metrics_def bind_listener_def parse_loopback open_machine_def started_with_def
        held_by_health held_by_def parse_health_bind read_api_key_def)
  ultimately show ?thesis
    by (simp add: run_daemon_def Let_def new_event_hub_def) (simp add: sample_config_def default_hub_capacity_def)
qed

theorem startup_is_all_or_nothing_witness:
  "\<exists>d. run_daemon open_machine 0 sample_config = Inr d \<and> dm_ui d \<noteq> None \<and> iw_token (dm_writer d) \<noteq> []"
proof -
  obtain d where d: "run_daemon open_machine 0 sample_config = Inr d" using open_machine_starts ..
  from startup_is_all_or_nothing [OF this] have "iw_token (dm_writer d) \<noteq> []"
    "dm_ui d \<noteq> None \<longleftrightarrow> uc_enabled (ac_ui sample_config)" by simp_all
  with d show ?thesis by (simp add: sample_config_def)
qed

end
