(* ===== verification/Pipeline.thy ===== *)
theory Pipeline
  imports Batcher
begin

text \<open>
  The write path as a whole: the batcher and the writer task of \<open>writer.rs\<close> around the one queue they
  share, with their steps interleaved in any order. Every result the batcher takes from the event channel
  is followed to the place it ends in: the buffer, the queue, or a batch that was written, rejected or
  evicted, and counted as such.
\<close>

section \<open>The two tasks together\<close>

record pipeline =
  pp_batcher :: batcher
  pp_writer :: writer_state

datatype pipeline_event =
    BatcherEvent timed_event
  | WriterEvent writer_event

text \<open>Both tasks hold a reference to the same queue, so a step of one is seen by the other.\<close>

definition pipeline_step ::
    "u64 \<Rightarrow> duration \<Rightarrow> duration \<Rightarrow> duration \<Rightarrow> pipeline \<Rightarrow> pipeline_event \<Rightarrow> pipeline" where
  "pipeline_step batch_size timeout initial max_delay p ev =
     (case ev of
        BatcherEvent e \<Rightarrow>
          (let s = batcher_step batch_size timeout (pp_batcher p) e
           in \<lparr>pp_batcher = s, pp_writer = (pp_writer p)\<lparr>wr_queue := bb_queue s\<rparr>\<rparr>)
      | WriterEvent e \<Rightarrow>
          (let st = writer_step initial max_delay e (pp_writer p)
           in \<lparr>pp_batcher = (pp_batcher p)\<lparr>bb_queue := wr_queue st\<rparr>, pp_writer = st\<rparr>))"

definition pipeline_start :: "nat \<Rightarrow> influx_config \<Rightarrow> pipeline" where
  "pipeline_start now cfg =
     (let q = new_queue (unat (ic_max_buffered_bytes cfg)) default_stats
      in \<lparr>pp_batcher = batcher_start now (duration_from_millis (ic_batch_timeout_ms cfg)) q,
          pp_writer = \<lparr>wr_queue = q, wr_pc = AtQueue, wr_shutdown = False\<rparr>\<rparr>)"

text \<open>
  The events of a run: the writer's own and the shutdown signal; and the batcher's, with an address for the
  batch it may allocate that no live batch has. The last argument is what the batcher has received.
\<close>

definition own_event :: "writer_event \<Rightarrow> bool" where
  "own_event ev \<longleftrightarrow> (case ev of PushBatch _ \<Rightarrow> False | CloseQueue \<Rightarrow> False | _ \<Rightarrow> True)"

definition fresh_address :: "nat \<Rightarrow> writer_state \<Rightarrow> bool" where
  "fresh_address a st \<longleftrightarrow>
     a \<notin> bt_ptr ` set (rq_batches (wr_queue st)) \<and> (\<forall>b. in_flight (wr_pc st) = Some b \<longrightarrow> bt_ptr b \<noteq> a)"

definition pipeline_initial :: "influx_config \<Rightarrow> pipeline \<times> probe_result list \<Rightarrow> bool" where
  "pipeline_initial cfg x \<longleftrightarrow> (\<exists>now. x = (pipeline_start now cfg, []))"

inductive pipeline_move ::
    "influx_config \<Rightarrow> pipeline \<times> probe_result list \<Rightarrow> pipeline \<times> probe_result list \<Rightarrow> bool" for cfg where
  pipeline_batcher:
    "bb_running (pp_batcher p) \<Longrightarrow> fresh_address a (pp_writer p) \<Longrightarrow>
     pipeline_move cfg (p, rs)
       (pipeline_step (ic_batch_size cfg) (duration_from_millis (ic_batch_timeout_ms cfg))
          (duration_from_millis (ic_retry_initial_backoff_ms cfg)) (duration_from_millis (ic_retry_max_backoff_ms cfg))
          p (BatcherEvent (t, a, ev)),
        rs @ map snd (received [(t, a, ev)]))"
| pipeline_writer:
    "own_event ev \<Longrightarrow>
     pipeline_move cfg (p, rs)
       (pipeline_step (ic_batch_size cfg) (duration_from_millis (ic_batch_timeout_ms cfg))
          (duration_from_millis (ic_retry_initial_backoff_ms cfg)) (duration_from_millis (ic_retry_max_backoff_ms cfg))
          p (WriterEvent ev),
        rs)"

abbreviation pipeline_reachable :: "influx_config \<Rightarrow> pipeline \<Rightarrow> probe_result list \<Rightarrow> bool" where
  "pipeline_reachable cfg p rs \<equiv> reachable_from (pipeline_initial cfg) (pipeline_move cfg) (p, rs)"

section \<open>The ledger\<close>

text \<open>
  \<open>gone\<close> are the batches that have left the queue, \<open>chunks\<close> the groups of results behind them and behind
  those still queued. Of the batches gone, some were taken out after their write was over and the others
  evicted; a write can be over for a batch that was evicted meanwhile, but only once.
\<close>

definition lost_in_flight :: "writer_state \<Rightarrow> bool" where
  "lost_in_flight st \<longleftrightarrow>
     (\<exists>b. in_flight (wr_pc st) = Some b \<and> bt_ptr b \<notin> bt_ptr ` set (rq_batches (wr_queue st)))"

definition ledger ::
    "u64 \<Rightarrow> writer_state \<Rightarrow> probe_result list \<Rightarrow> probe_result list \<Rightarrow> batch list \<Rightarrow> probe_result list list \<Rightarrow>
     nat \<Rightarrow> nat \<Rightarrow> nat \<Rightarrow> bool" where
  "ledger n st buffer rs gone chunks popped evicted finished \<longleftrightarrow>
     batches_of n (gone @ rq_batches (wr_queue st)) chunks \<and> concat chunks @ buffer = rs \<and>
     length gone = popped + evicted \<and>
     dropped_batches (rq_stats (wr_queue st)) = of_nat evicted \<and> accounted (wr_queue st) = of_nat finished \<and>
     popped \<le> finished \<and> finished + (if lost_in_flight st then 1 else 0) \<le> popped + evicted"

definition balanced :: "u64 \<Rightarrow> writer_state \<Rightarrow> probe_result list \<Rightarrow> probe_result list \<Rightarrow> bool" where
  "balanced n st buffer rs \<longleftrightarrow>
     (\<exists>gone chunks popped evicted finished. ledger n st buffer rs gone chunks popped evicted finished)"

lemma balancedI: "ledger n st buffer rs gone chunks popped evicted finished \<Longrightarrow> balanced n st buffer rs"
  unfolding balanced_def by blast

lemma ledger_push:
  assumes led: "ledger n st buffer rs gone chunks popped evicted finished"
    and q: "queue_consistent (wr_queue st)"
    and c: "c \<noteq> []" "length c \<le> unat n" "c @ buffer' = buffer @ new"
  shows "balanced n (st\<lparr>wr_queue := push (wr_queue st) \<lparr>bt_ptr = a, bt_text = render_batch c\<rparr>\<rparr>) buffer' (rs @ new)"
proof -
  let ?q = "wr_queue st" and ?b = "\<lparr>bt_ptr = a, bt_text = render_batch c\<rparr>"
  let ?st = "st\<lparr>wr_queue := push ?q ?b\<rparr>"
  have bytes: "rq_bytes ?q = bytes_of (rq_batches ?q)" using q by (simp add: queue_consistent_def)
  note f = push_fields [OF bytes, of ?b]
  have split: "rq_batches ?q = evicted_by ?q ?b @ kept_by ?q ?b" by (simp add: evicted_kept)
  have "batches_of n (gone @ rq_batches ?q @ [?b]) (chunks @ [c])"
    using led c(1,2) batches_of_append [of n "gone @ rq_batches ?q" chunks "[?b]" "[c]"]
    by (simp add: ledger_def)
  then have shown: "batches_of n ((gone @ evicted_by ?q ?b) @ rq_batches (push ?q ?b)) (chunks @ [c])"
    by (simp add: f(1) split)
  define e where "e = length (evicted_by ?q ?b)"
  have "lost_in_flight st \<or> 0 < e" if "lost_in_flight ?st"
  proof -
    from that obtain b where b: "in_flight (wr_pc st) = Some b" "bt_ptr b \<notin> bt_ptr ` set (kept_by ?q ?b)"
      by (auto simp: lost_in_flight_def f(1))
    show ?thesis
    proof (cases "evicted_by ?q ?b")
      case Nil
      then have "rq_batches ?q = kept_by ?q ?b" using split by simp
      with b have "lost_in_flight st" unfolding lost_in_flight_def by auto
      then show ?thesis ..
    qed (simp add: e_def)
  qed
  then have "finished + (if lost_in_flight ?st then 1 else 0) \<le> popped + (evicted + e)"
    using led by (auto simp: ledger_def split: if_splits)
  moreover have "concat (chunks @ [c]) @ buffer' = rs @ new" using led c(3) by (auto simp: ledger_def)
  moreover have "dropped_batches (rq_stats (push ?q ?b)) = of_nat (evicted + length (evicted_by ?q ?b))"
    using led push_dropped [OF q, of ?b] by (simp add: ledger_def)
  moreover have "accounted (push ?q ?b) = of_nat finished"
    using led by (simp add: ledger_def accounted_def f(5))
  ultimately have "ledger n ?st buffer' (rs @ new) (gone @ evicted_by ?q ?b) (chunks @ [c]) popped
      (evicted + length (evicted_by ?q ?b)) finished"
    using led shown by (simp add: ledger_def e_def)
  then show ?thesis by (rule balancedI)
qed

lemma ledger_finish:
  assumes led: "ledger n st buffer rs gone chunks popped evicted finished"
    and inv: "writer_inv st" and b: "in_flight (wr_pc st) = Some b"
    and f: "f = record_rejected \<or> f = record_written k t"
  shows "balanced n (finish_write f b st) buffer rs"
proof -
  let ?st = "finish_write f b st"
  have idle: "\<not> lost_in_flight ?st" by (simp add: lost_in_flight_def)
  have counts: "dropped_batches (rq_stats (wr_queue ?st)) = of_nat evicted" "accounted (wr_queue ?st) = of_nat (Suc finished)"
    using led finish_write_accounted [OF f, of b st] by (simp_all add: ledger_def)
  show ?thesis
  proof (cases "\<exists>rest. rq_batches (wr_queue st) = b # rest")
    case True
    then obtain rest where rest: "rq_batches (wr_queue st) = b # rest" ..
    then have "rq_batches (wr_queue ?st) = rest" by (simp add: ptr_eq_def)
    with led rest idle counts have "ledger n ?st buffer rs (gone @ [b]) chunks (Suc popped) evicted (Suc finished)"
      by (auto simp: ledger_def)
    then show ?thesis by (rule balancedI)
  next
    case False
    have absent: "bt_ptr b \<notin> bt_ptr ` set (rq_batches (wr_queue st))"
    proof
      assume "bt_ptr b \<in> bt_ptr ` set (rq_batches (wr_queue st))"
      moreover from this have "hd (rq_batches (wr_queue st)) = b" using inv b by (simp add: writer_inv_def)
      ultimately show False using False by (cases "rq_batches (wr_queue st)") auto
    qed
    then have "rq_batches (wr_queue ?st) = rq_batches (wr_queue st)"
      by (auto simp: ptr_eq_def split: list.splits)
    moreover have "lost_in_flight st" using b absent by (simp add: lost_in_flight_def)
    ultimately have "ledger n ?st buffer rs gone chunks popped evicted (Suc finished)"
      using led idle counts by (auto simp: ledger_def)
    then show ?thesis by (rule balancedI)
  qed
qed

section \<open>Every result is somewhere\<close>

text \<open>One step of the batcher: it leaves the queue, or pushes the buffer as one batch; on the close it also closes.\<close>

lemma batcher_step_push:
  assumes "bb_running s" "length (bb_buffer s) < unat n"
  obtains (kept) "bb_queue (batcher_step n d s (t, a, ev)) =
        (if ev = ChannelClosed then close (bb_queue s) else bb_queue s)"
      "bb_buffer (batcher_step n d s (t, a, ev)) = bb_buffer s @ map snd (received [(t, a, ev)])"
  | (pushed) c where "bb_queue (batcher_step n d s (t, a, ev)) =
        (if ev = ChannelClosed then close (push (bb_queue s) \<lparr>bt_ptr = a, bt_text = render_batch c\<rparr>)
         else push (bb_queue s) \<lparr>bt_ptr = a, bt_text = render_batch c\<rparr>)"
      "c \<noteq> []" "length c \<le> unat n" "bb_buffer (batcher_step n d s (t, a, ev)) = []"
      "c = bb_buffer s @ map snd (received [(t, a, ev)])"
proof (cases ev)
  case (Received pe)
  obtain r where pe: "pe = ProbeCompleted r" by (cases pe)
  show thesis
  proof (cases "unat n \<le> Suc (length (bb_buffer s))")
    case True
    with assms Received pe show thesis
      by (intro pushed [of "bb_buffer s @ [r]"]) (simp_all add: batcher_step_def flush_fields Let_def)
  next
    case False
    with assms Received pe show thesis by (intro kept) (simp_all add: batcher_step_def Let_def)
  qed
next
  case (ChannelLagged k)
  with assms show thesis by (intro kept) (simp_all add: batcher_step_def)
next
  case ChannelClosed
  show thesis
  proof (cases "bb_buffer s = []")
    case True
    with assms ChannelClosed show thesis by (intro kept) (simp_all add: batcher_step_def flush_fields Let_def)
  next
    case False
    with assms ChannelClosed show thesis
      by (intro pushed [of "bb_buffer s"]) (simp_all add: batcher_step_def flush_fields Let_def)
  qed
next
  case DeadlineReached
  show thesis
  proof (cases "bb_deadline s \<le> t \<and> bb_buffer s \<noteq> []")
    case True
    with assms DeadlineReached show thesis
      by (intro pushed [of "bb_buffer s"]) (simp_all add: batcher_step_def flush_fields Let_def)
  next
    case False
    with assms DeadlineReached show thesis
      by (intro kept) (auto simp: batcher_step_def flush_fields Let_def)
  qed
qed

lemma batcher_step_running:
  assumes "bb_running s" "length (bb_buffer s) < unat n"
  shows "bb_running (batcher_step n d s (t, a, ev)) \<longleftrightarrow> ev \<noteq> ChannelClosed"
    and "length (bb_buffer (batcher_step n d s (t, a, ev))) < unat n"
  using batcher_step_chunks [OF assms, of d t a ev] by blast+

text \<open>What holds of the two tasks at every moment.\<close>

definition pipeline_inv :: "u64 \<Rightarrow> pipeline \<Rightarrow> probe_result list \<Rightarrow> bool" where
  "pipeline_inv n p rs \<longleftrightarrow>
     bb_queue (pp_batcher p) = wr_queue (pp_writer p) \<and> writer_inv (pp_writer p) \<and>
     length (bb_buffer (pp_batcher p)) < unat n \<and>
     (rq_closed (wr_queue (pp_writer p)) \<longleftrightarrow> \<not> bb_running (pp_batcher p)) \<and>
     (\<not> bb_running (pp_batcher p) \<longrightarrow> bb_buffer (pp_batcher p) = []) \<and>
     (wr_pc (pp_writer p) = Exited \<and> \<not> wr_shutdown (pp_writer p) \<longrightarrow>
        rq_closed (wr_queue (pp_writer p)) \<and> rq_batches (wr_queue (pp_writer p)) = []) \<and>
     balanced n (pp_writer p) (bb_buffer (pp_batcher p)) rs"

lemma writer_inv_consistent: "writer_inv st \<Longrightarrow> queue_consistent (wr_queue st)"
  by (simp add: writer_inv_def queue_wf_consistent)

lemma writer_inv_push:
  assumes "writer_inv st" "fresh_address a st"
  shows "writer_inv (st\<lparr>wr_queue := push (wr_queue st) \<lparr>bt_ptr = a, bt_text = s\<rparr>\<rparr>)"
  using assms by (intro push_inv) (auto simp: fresh_event_def fresh_address_def fresh_for_def)

lemma writer_inv_close: "writer_inv st \<Longrightarrow> writer_inv (st\<lparr>wr_queue := close (wr_queue st)\<rparr>)"
  by (simp add: writer_inv_def close_wf)

lemma balanced_close: "balanced n (st\<lparr>wr_queue := close q\<rparr>) buffer rs = balanced n (st\<lparr>wr_queue := q\<rparr>) buffer rs"
  by (simp add: balanced_def ledger_def lost_in_flight_def accounted_def)

lemma ledger_receive:
  "ledger n st buffer rs g c p e f \<Longrightarrow> ledger n st (buffer @ new) (rs @ new) g c p e f"
  by (auto simp: ledger_def)

lemma pipeline_batcher_inv:
  assumes inv: "pipeline_inv n p rs" and run: "bb_running (pp_batcher p)" and fresh: "fresh_address a (pp_writer p)"
  shows "pipeline_inv n (pipeline_step n d i m p (BatcherEvent (t, a, ev))) (rs @ map snd (received [(t, a, ev)]))"
proof -
  let ?st = "pp_writer p" and ?s = "batcher_step n d (pp_batcher p) (t, a, ev)"
  let ?st' = "?st\<lparr>wr_queue := bb_queue ?s\<rparr>" and ?new = "map snd (received [(t, a, ev)])"
  have room: "length (bb_buffer (pp_batcher p)) < unat n" and same: "bb_queue (pp_batcher p) = wr_queue ?st"
    and w: "writer_inv ?st" and closed: "\<not> rq_closed (wr_queue ?st)"
    and active: "\<not> (wr_pc ?st = Exited \<and> \<not> wr_shutdown ?st)"
    using inv run by (auto simp: pipeline_inv_def)
  obtain gone chunks popped evicted finished where
    led: "ledger n ?st (bb_buffer (pp_batcher p)) rs gone chunks popped evicted finished"
    using inv unfolding pipeline_inv_def balanced_def by blast
  have state: "pipeline_step n d i m p (BatcherEvent (t, a, ev)) = \<lparr>pp_batcher = ?s, pp_writer = ?st'\<rparr>"
    by (simp add: pipeline_step_def Let_def)
  note running = batcher_step_running [OF run room, of d t a ev]
  have empty: "ev = ChannelClosed \<Longrightarrow> bb_buffer ?s = []"
    using batcher_step_chunks [OF run room, of d t a ev] by blast
  have "writer_inv ?st' \<and> (rq_closed (bb_queue ?s) \<longleftrightarrow> ev = ChannelClosed) \<and>
      balanced n ?st' (bb_buffer ?s) (rs @ ?new)"
  proof (cases rule: batcher_step_push [OF run room, of d t a ev])
    case 1
    note kept = this
    have "balanced n ?st (bb_buffer ?s) (rs @ ?new)"
      unfolding kept(2) by (rule balancedI [OF ledger_receive [OF led]])
    with kept(1) w closed same show ?thesis
      by (cases "ev = ChannelClosed") (simp_all add: balanced_close writer_inv_close)
  next
    case (2 c)
    note pushed = this
    let ?pushed = "?st\<lparr>wr_queue := push (wr_queue ?st) \<lparr>bt_ptr = a, bt_text = render_batch c\<rparr>\<rparr>"
    have "balanced n ?pushed (bb_buffer ?s) (rs @ ?new)"
      using pushed by (intro ledger_push [OF led writer_inv_consistent [OF w]]) simp_all
    moreover have push: "writer_inv ?pushed" by (rule writer_inv_push [OF w fresh])
    moreover have "\<not> rq_closed (push (wr_queue ?st) \<lparr>bt_ptr = a, bt_text = render_batch c\<rparr>)"
      using closed writer_inv_consistent [OF w] by (simp add: push_fields queue_consistent_def)
    ultimately show ?thesis
      using pushed(1) same writer_inv_close [OF push]
      by (cases "ev = ChannelClosed") (simp_all add: balanced_close)
  qed
  with running empty active show ?thesis unfolding state pipeline_inv_def by auto
qed

text \<open>One step of the writer.\<close>

lemma ledger_same_queue:
  assumes "ledger n st buffer rs g c p e f" "wr_queue st' = wr_queue st"
    and "in_flight (wr_pc st') = in_flight (wr_pc st) \<or> in_flight (wr_pc st') = None \<or>
         (\<exists>b \<in> set (rq_batches (wr_queue st)). in_flight (wr_pc st') = Some b)"
  shows "ledger n st' buffer rs g c p e f"
  using assms by (auto simp: ledger_def lost_in_flight_def split: if_splits)

lemma writer_step_effect:
  assumes "own_event ev"
  obtains (queue_kept) "wr_queue (writer_step i m ev st) = wr_queue st"
      "in_flight (wr_pc (writer_step i m ev st)) = in_flight (wr_pc st) \<or>
       in_flight (wr_pc (writer_step i m ev st)) = None \<or>
       (\<exists>b \<in> set (rq_batches (wr_queue st)). in_flight (wr_pc (writer_step i m ev st)) = Some b)"
  | (finished) f b k t where "in_flight (wr_pc st) = Some b" "writer_step i m ev st = finish_write f b st"
      "f = record_rejected \<or> f = record_written k t"
proof (cases ev)
  case PollQueue
  then show thesis
    by (cases "wr_pc st"; cases rule: poll_for_batch_cases [of "wr_queue st"])
       (intro queue_kept; simp add: writer_step_def)+
next
  case (WriteDone r now)
  show thesis
  proof (cases "wr_pc st")
    case (Sending b a)
    then show thesis
    proof (cases r)
      case (Inl e)
      show thesis
      proof (cases "is_retryable e")
        case True
        with WriteDone Sending Inl show thesis
          by (intro queue_kept) (simp_all add: writer_step_def write_done_def)
      next
        case False
        with WriteDone Sending Inl show thesis
          by (intro finished [of b record_rejected]) (simp_all add: writer_step_def write_done_def)
      qed
    next
      case (Inr u)
      with WriteDone Sending show thesis
        by (intro finished [of b "record_written (of_nat (batch_len b)) (now_unix now)"])
           (auto simp: writer_step_def write_done_def)
    qed
  qed (intro queue_kept; simp add: WriteDone writer_step_def)+
next
  case SleepDone
  then show thesis by (cases "wr_pc st") (intro queue_kept; simp add: writer_step_def)+
next
  case SawShutdown
  then show thesis by (cases "wr_pc st") (intro queue_kept; simp add: writer_step_def)+
next
  case ShutdownSent
  then show thesis by (intro queue_kept) (simp_all add: writer_step_def)
qed (use assms in \<open>simp_all add: own_event_def\<close>)

lemma own_event_fresh: "own_event ev \<Longrightarrow> fresh_event ev st"
  by (cases ev) (simp_all add: own_event_def fresh_event_def)

lemma finish_write_closed: "rq_closed (wr_queue (finish_write f b st)) = rq_closed (wr_queue st)"
  by simp

lemma writer_step_exit:
  assumes "own_event ev" "wr_pc (writer_step i m ev st) = Exited" "\<not> wr_shutdown (writer_step i m ev st)"
    and "wr_pc st = Exited \<and> \<not> wr_shutdown st \<longrightarrow> rq_closed (wr_queue st) \<and> rq_batches (wr_queue st) = []"
  shows "rq_closed (wr_queue (writer_step i m ev st)) \<and> rq_batches (wr_queue (writer_step i m ev st)) = []"
proof (cases "wr_pc st")
  case AtQueue
  with assms show ?thesis
    by (cases ev; cases rule: poll_for_batch_cases [of "wr_queue st"]) (auto simp: writer_step_def own_event_def)
next
  case (Sending b a)
  with assms show ?thesis
    by (cases ev) (auto simp: writer_step_def own_event_def write_done_def split: sum.splits if_splits)
next
  case (BackingOff b a d)
  with assms show ?thesis by (cases ev) (auto simp: writer_step_def own_event_def split: if_splits)
next
  case Exited
  with assms show ?thesis by (cases ev) (auto simp: writer_step_def own_event_def)
qed

lemma pipeline_writer_inv:
  assumes inv: "pipeline_inv n p rs" and own: "own_event ev"
  shows "pipeline_inv n (pipeline_step n d i m p (WriterEvent ev)) rs"
proof -
  let ?st = "pp_writer p" and ?b = "pp_batcher p"
  let ?st' = "writer_step i m ev ?st"
  have w: "writer_inv ?st" and same: "bb_queue ?b = wr_queue ?st"
    and exit: "wr_pc ?st = Exited \<and> \<not> wr_shutdown ?st \<longrightarrow> rq_closed (wr_queue ?st) \<and> rq_batches (wr_queue ?st) = []"
    using inv by (auto simp: pipeline_inv_def)
  obtain gone chunks popped evicted finished where
    led: "ledger n ?st (bb_buffer ?b) rs gone chunks popped evicted finished"
    using inv unfolding pipeline_inv_def balanced_def by blast
  have state: "pipeline_step n d i m p (WriterEvent ev) =
      \<lparr>pp_batcher = ?b\<lparr>bb_queue := wr_queue ?st'\<rparr>, pp_writer = ?st'\<rparr>"
    by (simp add: pipeline_step_def Let_def)
  have w': "writer_inv ?st'" by (rule writer_step_inv [OF w own_event_fresh [OF own]])
  have "rq_closed (wr_queue ?st') = rq_closed (wr_queue ?st) \<and>
      balanced n ?st' (bb_buffer ?b) rs"
  proof (cases rule: writer_step_effect [OF own, of i m ?st])
    case 1
    from balancedI [OF ledger_same_queue [OF led 1]] 1(1) show ?thesis by simp
  next
    case (2 f b k t)
    from ledger_finish [OF led w 2(1,3)] show ?thesis unfolding 2(2) by simp
  qed
  with inv w' writer_step_exit [OF own _ _ exit] show ?thesis
    unfolding state pipeline_inv_def by auto
qed

lemma pipeline_start_inv:
  assumes "0 < n"
  shows "pipeline_inv n (pipeline_start now cfg) []"
proof -
  let ?st = "pp_writer (pipeline_start now cfg)"
  have "balanced n ?st [] []"
    by (rule balancedI [of _ _ _ _ "[]" "[]" 0 0 0]) (simp add: ledger_def pipeline_start_def Let_def lost_in_flight_def new_queue_def accounted_def)
  moreover have "writer_inv ?st"
    by (simp add: pipeline_start_def Let_def writer_inv_def new_queue_wf)
  ultimately show ?thesis
    using assms
    by (auto simp: pipeline_inv_def pipeline_start_def Let_def batcher_start_def new_queue_def word_less_nat_alt)
qed

interpretation write_path: invariant_system "pipeline_initial cfg" "pipeline_move cfg"
  "\<lambda>(p, rs). 0 < ic_batch_size cfg \<longrightarrow> pipeline_inv (ic_batch_size cfg) p rs" for cfg
proof
  fix x y
  show "pipeline_initial cfg x \<Longrightarrow>
      case x of (p, rs) \<Rightarrow> 0 < ic_batch_size cfg \<longrightarrow> pipeline_inv (ic_batch_size cfg) p rs"
    by (auto simp: pipeline_initial_def pipeline_start_inv)
  show "pipeline_move cfg x y \<Longrightarrow>
      case x of (p, rs) \<Rightarrow> 0 < ic_batch_size cfg \<longrightarrow> pipeline_inv (ic_batch_size cfg) p rs \<Longrightarrow>
      case y of (p, rs) \<Rightarrow> 0 < ic_batch_size cfg \<longrightarrow> pipeline_inv (ic_batch_size cfg) p rs"
    by (induction rule: pipeline_move.induct) (simp_all add: pipeline_batcher_inv pipeline_writer_inv)
qed



end
