(* ===== verification/Shutdown.thy ===== *)
theory Shutdown
  imports Daemon Pipeline
begin

text \<open>
  The end of \<open>run\<close> in \<open>huginn/src/main.rs\<close>: the shutdown channel, the grace period for the probe loops
  (\<open>stop_probes\<close>), the drain of the write path and what is logged about it; and the console output of a
  result (\<open>print_result\<close>). Instants are nanoseconds from the moment the signal arrives.
\<close>

section \<open>Who hears the shutdown signal\<close>

text \<open>
  The broadcast channel of the signal: how many senders are alive, and for each receiver how many messages
  it has not taken. A receiver gets what is sent after it subscribed; \<open>recv\<close> also returns, with an error,
  once no sender is left. Every \<open>recv\<close> of the program treats the two alike.
\<close>

record shutdown_channel =
  sh_senders :: nat
  sh_pending :: "nat list"

datatype channel_op = Subscribe | SendSignal | DropSender

definition channel_step :: "shutdown_channel \<Rightarrow> channel_op \<Rightarrow> shutdown_channel" where
  "channel_step c op =
     (case op of
        Subscribe \<Rightarrow> c\<lparr>sh_pending := sh_pending c @ [0]\<rparr>
      | SendSignal \<Rightarrow> c\<lparr>sh_pending := map Suc (sh_pending c)\<rparr>
      | DropSender \<Rightarrow> c\<lparr>sh_senders := sh_senders c - 1\<rparr>)"

definition recv_returns :: "shutdown_channel \<Rightarrow> nat \<Rightarrow> bool" where
  "recv_returns c i \<longleftrightarrow> 0 < sh_pending c ! i \<or> sh_senders c = 0"

text \<open>
  \<open>main\<close> clones the sender for the task that waits for the signal, which sends and ends. \<open>run\<close> subscribes
  for the writer and for itself, and moves its own sender into the scheduler, which subscribes once per probe
  and drops it on return.
\<close>

definition signal_channel :: shutdown_channel where
  "signal_channel = \<lparr>sh_senders = 2, sh_pending = []\<rparr>"

definition signal_task :: "channel_op list" where
  "signal_task = [SendSignal, DropSender]"

definition run_channel_ops :: "app_config \<Rightarrow> channel_op list" where
  "run_channel_ops cfg = [Subscribe, Subscribe] @ map (\<lambda>_. Subscribe) (ac_probes cfg) @ [DropSender]"

lemma channel_fields:
  "sh_senders (foldl channel_step c ops) = sh_senders c - length (filter (\<lambda>op. op = DropSender) ops)"
  "length (sh_pending (foldl channel_step c ops)) =
     length (sh_pending c) + length (filter (\<lambda>op. op = Subscribe) ops)"
  by (induction ops arbitrary: c) (auto simp: channel_step_def split: channel_op.split)

lemma length_filter_shuffles:
  assumes "ops \<in> shuffles xs ys"
  shows "length (filter P ops) = length (filter P xs) + length (filter P ys)"
proof -
  have "filter P ops \<in> shuffles (filter P xs) (filter P ys)"
    using imageI [OF assms, of "filter P"] by (simp only: filter_shuffles)
  then show ?thesis by (rule length_shuffles)
qed

text \<open>C20: no task misses the shutdown, whenever the signal comes during start-up. In every interleaving of
  start-up with the signal task the writer, the main task and each probe loop end up with a receiver whose
  \<open>recv\<close> returns, those that subscribed after the signal because the last sender is gone; and whoever had
  subscribed before the signal need not wait for that.\<close>

theorem no_task_misses_the_shutdown:
  assumes "ops \<in> shuffles (run_channel_ops cfg) signal_task"
  shows "length (sh_pending (foldl channel_step signal_channel ops)) = length (ac_probes cfg) + 2 \<and>
         (\<forall>i. recv_returns (foldl channel_step signal_channel ops) i) \<and>
         (\<forall>before after i. ops = before @ SendSignal # after \<longrightarrow>
            i < length (filter (\<lambda>op. op = Subscribe) before) \<longrightarrow>
            recv_returns (foldl channel_step signal_channel (before @ [SendSignal])) i)"
proof -
  have "length (filter (\<lambda>op. op = DropSender) ops) = 2"
    using length_filter_shuffles [OF assms] by (simp add: run_channel_ops_def signal_task_def)
  moreover have "length (filter (\<lambda>op. op = Subscribe) ops) = length (ac_probes cfg) + 2"
    using length_filter_shuffles [OF assms] by (simp add: run_channel_ops_def signal_task_def)
  moreover have "recv_returns (foldl channel_step signal_channel (before @ [SendSignal])) i"
    if "i < length (filter (\<lambda>op. op = Subscribe) before)" for before i
  proof -
    have "i < length (sh_pending (foldl channel_step signal_channel before))"
      using that by (simp add: channel_fields(2) signal_channel_def)
    then show ?thesis by (simp add: recv_returns_def channel_step_def)
  qed
  ultimately show ?thesis by (simp add: channel_fields signal_channel_def recv_returns_def)
qed

theorem no_task_misses_the_shutdown_witness:
  "recv_returns (foldl channel_step signal_channel
     [SendSignal, Subscribe, Subscribe, DropSender, Subscribe, DropSender]) 2"
proof -
  have "[SendSignal, Subscribe, Subscribe, DropSender, Subscribe, DropSender] \<in>
      shuffles (run_channel_ops sample_config) signal_task"
    by (simp add: run_channel_ops_def signal_task_def sample_config_def)
  from no_task_misses_the_shutdown [OF this] show ?thesis by blast
qed

section \<open>Stopping the probe loops\<close>

text \<open>
  A task handle is the instant its task ends, if it does. One deadline for all: the result, the instant at
  which the loop over the handles is over, and the handles that are aborted.
\<close>

type_synonym task_handle = "nat option"

definition probe_stop_grace :: duration where
  "probe_stop_grace = 2 * 1000000000"

fun await_handles :: "nat \<Rightarrow> nat \<Rightarrow> task_handle list \<Rightarrow> bool \<times> nat" where
  "await_handles deadline now [] = (True, now)"
| "await_handles deadline now (h # hs) =
     (case h of
        Some t \<Rightarrow>
          (if t \<le> deadline then await_handles deadline (max now t) hs else (False, max now deadline))
      | None \<Rightarrow> (False, max now deadline))"

definition stop_probes :: "nat \<Rightarrow> task_handle list \<Rightarrow> duration \<Rightarrow> bool \<times> nat \<times> task_handle list" where
  "stop_probes now handles grace =
     (if handles = [] then (True, now, [])
      else
        (let (all_stopped, t) = await_handles (now + grace) now handles
         in (all_stopped, t, if all_stopped then [] else handles)))"

lemma await_handles_stopped:
  "fst (await_handles deadline now hs) \<longleftrightarrow> (\<forall>h \<in> set hs. \<exists>t. h = Some t \<and> t \<le> deadline)"
  by (induction hs arbitrary: now) (auto split: option.split)

lemma await_handles_time:
  "now \<le> deadline \<Longrightarrow> now \<le> snd (await_handles deadline now hs) \<and> snd (await_handles deadline now hs) \<le> deadline"
proof (induction hs arbitrary: now)
  case (Cons h hs)
  show ?case
  proof (cases "\<exists>t. h = Some t \<and> t \<le> deadline")
    case True
    then obtain t where "h = Some t" "t \<le> deadline" by blast
    with Cons.IH [of "max now t"] Cons.prems show ?thesis by simp
  next
    case False
    with Cons.prems show ?thesis by (auto split: option.split)
  qed
qed simp

section \<open>The drain\<close>

text \<open>What the last stage of \<open>run\<close> logs.\<close>

datatype shutdown_report =
    DrainedCleanly
  | WriterTaskFailed rstr
  | TimedOutAfterAbort u64
  | InfluxUnreachable u64

definition drain_writer :: "influx_config \<Rightarrow> bool \<Rightarrow> unit future \<Rightarrow> shutdown_report \<times> nat" where
  "drain_writer cfg probes_stopped writer_handle =
     (let drain = duration_from_millis (ic_shutdown_drain_timeout_ms cfg);
          ms = ic_shutdown_drain_timeout_ms cfg
      in case ft_ready writer_handle of
           Some t \<Rightarrow>
             (if t \<le> drain then
                (case ft_result writer_handle of Inr _ \<Rightarrow> DrainedCleanly | Inl e \<Rightarrow> WriterTaskFailed e, t)
              else (if \<not> probes_stopped then TimedOutAfterAbort ms else InfluxUnreachable ms, drain))
         | None \<Rightarrow> (if \<not> probes_stopped then TimedOutAfterAbort ms else InfluxUnreachable ms, drain))"

text \<open>
  The three stages. \<open>writer_handle t\<close> is what becomes of the writer task, from the instant \<open>t\<close> on at which the
  hub is dropped. The result is the report and the instant \<open>run\<close> returns.
\<close>

definition shutdown :: "influx_config \<Rightarrow> task_handle list \<Rightarrow> (nat \<Rightarrow> unit future) \<Rightarrow> shutdown_report \<times> nat" where
  "shutdown cfg handles writer_handle =
     (let (probes_stopped, t, aborted) = stop_probes 0 handles probe_stop_grace;
          (report, d) = drain_writer cfg probes_stopped (writer_handle t)
      in (report, t + d))"

lemma drain_writer_time: "snd (drain_writer cfg b f) \<le> duration_from_millis (ic_shutdown_drain_timeout_ms cfg)"
  by (simp add: drain_writer_def Let_def split: option.split)

text \<open>C21: shutdown is bounded and says what happened. The probe loops get one grace period between them: they
  count as stopped exactly when each ends within it, and otherwise all are aborted; then the writer gets its
  drain timeout; so \<open>run\<close> returns within the sum of the two, whatever probes and InfluxDB do, and blames
  InfluxDB only when every probe loop had stopped by itself.\<close>

theorem shutdown_is_bounded:
  "(fst (stop_probes now handles grace) \<longleftrightarrow> (\<forall>h \<in> set handles. \<exists>t. h = Some t \<and> t \<le> now + grace)) \<and>
   fst (snd (stop_probes now handles grace)) \<le> now + grace \<and>
   snd (snd (stop_probes now handles grace)) = (if fst (stop_probes now handles grace) then [] else handles) \<and>
   snd (shutdown cfg handles writer) \<le>
     2 * 1000000000 + duration_from_millis (ic_shutdown_drain_timeout_ms cfg) \<and>
   (\<forall>ms. fst (shutdown cfg handles writer) = InfluxUnreachable ms \<longrightarrow>
      (\<forall>h \<in> set handles. \<exists>t. h = Some t \<and> t \<le> 2 * 1000000000))"
proof -
  have stop: "fst (stop_probes now handles grace) \<longleftrightarrow> (\<forall>h \<in> set handles. \<exists>t. h = Some t \<and> t \<le> now + grace)"
    "fst (snd (stop_probes now handles grace)) \<le> now + grace"
    "snd (snd (stop_probes now handles grace)) = (if fst (stop_probes now handles grace) then [] else handles)"
    for now handles grace
    using await_handles_stopped [of "now + grace" now handles] await_handles_time [of now "now + grace" handles]
    by (auto simp: stop_probes_def split: prod.split)
  obtain b t a where s: "stop_probes 0 handles probe_stop_grace = (b, t, a)"
    by (cases "stop_probes 0 handles probe_stop_grace")
  have run: "shutdown cfg handles writer =
      (fst (drain_writer cfg b (writer t)), t + snd (drain_writer cfg b (writer t)))"
    by (simp add: shutdown_def s split: prod.split)
  have "t \<le> 2 * 1000000000" using stop(2) [of 0 handles probe_stop_grace] s by (simp add: probe_stop_grace_def)
  then have "snd (shutdown cfg handles writer) \<le> 2 * 1000000000 + duration_from_millis (ic_shutdown_drain_timeout_ms cfg)"
    unfolding run using drain_writer_time [of cfg b "writer t"] by simp
  moreover have "\<forall>h \<in> set handles. \<exists>t. h = Some t \<and> t \<le> 2 * 1000000000"
    if "fst (shutdown cfg handles writer) = InfluxUnreachable ms" for ms
  proof -
    have b using that unfolding run by (auto simp: drain_writer_def Let_def split: option.splits if_splits sum.splits)
    then show ?thesis using stop(1) [of 0 handles probe_stop_grace] s by (simp add: probe_stop_grace_def)
  qed
  ultimately show ?thesis using stop by blast
qed

theorem shutdown_is_bounded_witness:
  "\<exists>t. (Some 5 :: task_handle) = Some t \<and> t \<le> 2 * 1000000000"
proof -
  have "fst (shutdown default_influx [Some 5] (\<lambda>_. never)) =
      InfluxUnreachable (ic_shutdown_drain_timeout_ms default_influx)"
    by (simp add: shutdown_def stop_probes_def probe_stop_grace_def drain_writer_def never_def Let_def)
  with shutdown_is_bounded [of 0 "[Some 5]" 0 default_influx "\<lambda>_. never"] show ?thesis by simp
qed

text \<open>C40: the writer drops its retry as soon as it sees the shutdown in a back-off, and \<open>run\<close> takes the return of
  the task for a clean drain. Whatever the queue holds then stays in it, nothing is written any more whatever
  the other tasks still do, and the report is that the writer drained cleanly, if only the task returned
  within the drain timeout.\<close>

theorem clean_drain_report_can_discard_batches:
  fixes st i m
  defines "st' \<equiv> writer_step i m SawShutdown st"
  assumes "wr_pc st = BackingOff b attempt delay" and "wr_shutdown st"
    and "t \<le> duration_from_millis (ic_shutdown_drain_timeout_ms cfg)"
  shows "wr_pc st' = Exited \<and> wr_queue st' = wr_queue st \<and>
         written_batches (rq_stats (wr_queue (foldl (\<lambda>s ev. writer_step i m ev s) st' evs))) =
           written_batches (rq_stats (wr_queue st)) \<and>
         fst (shutdown cfg handles (\<lambda>_. ready_at t (Inr ()))) = DrainedCleanly"
proof -
  have st': "st' = st\<lparr>wr_pc := Exited\<rparr>" using assms(2,3) by (simp add: st'_def writer_step_def)
  moreover have "fst (shutdown cfg handles (\<lambda>_. ready_at t (Inr ()))) = DrainedCleanly"
    using assms(4) by (simp add: shutdown_def drain_writer_def ready_at_def Let_def split: prod.split)
  ultimately show ?thesis using exited_writes_nothing [of st' i m evs] by simp
qed

theorem clean_drain_report_can_discard_batches_witness:
  "let st = \<lparr>wr_queue = push (new_queue 9 default_stats) (letter_batch 0), wr_pc = BackingOff (letter_batch 0) 1 500,
              wr_shutdown = True\<rparr>
   in rq_batches (wr_queue (writer_step 500 30000 SawShutdown st)) = [letter_batch 0] \<and>
      fst (shutdown default_influx [] (\<lambda>_. ready_at 0 (Inr ()))) = DrainedCleanly"
proof -
  let ?st = "\<lparr>wr_queue = push (new_queue 9 default_stats) (letter_batch 0), wr_pc = BackingOff (letter_batch 0) 1 500,
              wr_shutdown = True\<rparr>"
  have "rq_batches (wr_queue ?st) = [letter_batch 0]" by (simp add: push_def publish_depth_def new_queue_def)
  with clean_drain_report_can_discard_batches [of ?st "letter_batch 0" 1 500 0 default_influx 500 30000 "[]" "[]"]
  show ?thesis by simp
qed

section \<open>Console output\<close>

datatype console_style = GreenBold | RedBold | Cyan | Yellow | White | Dimmed | Red

text \<open>
  \<open>styled style width text\<close> is the text in a colour, padded on the right to a width: the colour library's
  rendering. \<open>to_uppercase\<close> is only applied to the names of the probe types, which are ASCII.
\<close>

definition to_uppercase :: "rstr \<Rightarrow> rstr" where
  "to_uppercase s = map (\<lambda>c. if 97 \<le> c \<and> c \<le> 122 then c - 32 else c) s"

definition print_result ::
    "(probe_result \<Rightarrow> rstr option) \<Rightarrow> rstr \<Rightarrow> (console_style \<Rightarrow> nat \<Rightarrow> rstr \<Rightarrow> rstr) \<Rightarrow> probe_result \<Rightarrow> bool \<Rightarrow> rstr" where
  "print_result to_json ts styled r json =
     (if json then unwrap_or (to_json r) []
      else
        (let status = (if pr_up r then styled GreenBold 0 [0x2705] else styled RedBold 0 [0x274C]);
             name = styled Cyan 28 (pr_probe_name r);
             kind = styled Yellow 6 (to_uppercase (pr_probe_type r));
             ms = styled White 0 (fmt_fixed 1 (pr_response_ms r) @ lit ''ms'');
             extra = (case (pr_status_code r, pr_error r) of
                        (Some code, _) \<Rightarrow> styled Dimmed 0 (lit ''  HTTP '' @ show_nat (unat code))
                      | (None, Some err) \<Rightarrow> styled Red 0 (lit ''  '' @ err)
                      | (None, None) \<Rightarrow> [])
         in [91] @ ts @ lit '']  '' @ status @ lit ''  '' @ name @ [32] @ kind @ lit ''  '' @ ms @ extra))"

text \<open>The console task: what it prints until the hub is closed; a lag is logged and skipped.\<close>

fun console_lines :: "(probe_result \<Rightarrow> rstr) \<Rightarrow> recv list \<Rightarrow> rstr list" where
  "console_lines show_result [] = []"
| "console_lines show_result (RecvOk (ProbeCompleted r) # rest) = show_result r # console_lines show_result rest"
| "console_lines show_result (RecvLagged n # rest) = console_lines show_result rest"
| "console_lines show_result (RecvClosed # rest) = []"

lemma console_lines_handled: "console_lines show_result rs = map show_result (handled rs)"
  by (induction show_result rs rule: console_lines.induct) simp_all

lemma control_free_show_uint [simp]: "control_free (show_uint i)"
proof (induction i rule: show_uint.induct)
  case (1 i)
  show ?case
  proof (cases "i < 10")
    case True
    then have "48 + nat i < 58" by simp
    then show ?thesis using True by (subst show_uint.simps) (simp add: is_control_def)
  next
    case False
    have "48 + nat (i mod 10) < 58" by simp
    with 1 False show ?thesis by (subst show_uint.simps) (simp add: is_control_def)
  qed
qed

lemma control_free_fmt_fixed: "control_free (fmt_fixed k x)"
proof -
  have "control_free (replicate n 48)" for n by (induction n) (simp_all add: is_control_def)
  then have "control_free (pad_zeros k (show_uint i))" for i by (simp add: pad_zeros_def)
  then show ?thesis
    by (simp add: fmt_fixed_def sign_text_def Let_def is_control_def lit_simps split: f64.split)
qed

lemma control_free_type: "control_free (to_uppercase (show_probe_type k))"
  by (cases k) (simp_all add: show_probe_type_def to_uppercase_def is_control_def lit_simps)

lemma result_line_printable:
  assumes "load_with_warnings rd yaml env path = Inr (c, ws)" and "p \<in> set (ac_probes c)"
    and "\<forall>style w t. control_free t \<longrightarrow> control_free (styled style w t)" and "control_free ts"
  shows "control_free (print_result to_json ts styled (fst (run_probe e p)) False)"
proof -
  let ?r = "fst (run_probe e p)"
  have r: "result_wf ?r" "pr_probe_name ?r = pc_name p" "pr_probe_type ?r = show_probe_type (pc_probe_type p)"
    using run_probe_reports [of p e] by (simp_all add: reports_def)
  have err: "control_free err" if "pr_error ?r = Some err" for err
    using r(1) that by (auto simp: result_wf_def split: if_splits)
  have "control_free (pc_name p)" using loaded_probes_printable [OF assms(1,2)] ..
  then show ?thesis
    using assms(3,4) err
    by (simp add: print_result_def Let_def r(2,3) control_free_type control_free_fmt_fixed is_control_def
        lit_simps split: option.split)
qed



end
