(* ===== verification/Config_Document.thy ===== *)
theory Config_Document
  imports Config_Load
begin

text \<open>
  From a parsed YAML document to an \<open>AppConfig\<close>: what \<open>#[derive(Deserialize)]\<close> and the serde attributes
  in \<open>huginn-core/src/config.rs\<close> make of its blocks. \<open>derive\<close> is the visitor serde documents for a struct
  with \<open>deny_unknown_fields\<close>; one table per struct lists its fields in the order of the declaration, each
  with its key, its default and its type. The declarative counterpart is one predicate per block
  (\<open>influx_block\<close> and so on), and a document is accepted with a configuration exactly when they hold.

  The YAML library is an argument: how a node is seen as a mapping, a sequence, a scalar of some type, an
  enum's variant or nothing. A block written as a sequence of its values, which serde reads by position, is
  outside the model; so is the wording of its error messages.
\<close>

section \<open>The visitor of a derived struct\<close>

datatype 'e de_error =
    UnknownField rstr "rstr list"
  | DuplicateField rstr
  | MissingField rstr
  | UnknownVariant rstr "rstr list"
  | LibraryError 'e

record ('n, 'e) yaml =
  ym_entries :: "'n \<Rightarrow> 'e + (rstr \<times> 'n) list"
  ym_items :: "'n \<Rightarrow> 'e + 'n list"
  ym_string :: "'n \<Rightarrow> 'e + rstr"
  ym_bool :: "'n \<Rightarrow> 'e + bool"
  ym_u16 :: "'n \<Rightarrow> 'e + u16"
  ym_u64 :: "'n \<Rightarrow> 'e + u64"
  ym_f64 :: "'n \<Rightarrow> 'e + f64"
  ym_variant :: "'n \<Rightarrow> 'e + rstr"
  ym_is_null :: "'n \<Rightarrow> bool"

type_synonym ('n, 'e, 'a) reader = "'n \<Rightarrow> 'e de_error + 'a"
type_synonym ('n, 'e, 'r) field = "rstr \<times> ('r \<Rightarrow> 'r) option \<times> ('n, 'e, 'r \<Rightarrow> 'r) reader"

text \<open>
  A field: its key, the value it has when the key is absent (\<open>None\<close> where the key is required), the reader
  of its type, and the update of the record.
\<close>

definition field ::
    "string \<Rightarrow> 'a option \<Rightarrow> ('n, 'e, 'a) reader \<Rightarrow> (('a \<Rightarrow> 'a) \<Rightarrow> 'r \<Rightarrow> 'r) \<Rightarrow> ('n, 'e, 'r) field" where
  "field key absent rd upd =
     (lit key, map_option (\<lambda>v. upd (\<lambda>_. v)) absent, \<lambda>n. map_sum id (\<lambda>v. upd (\<lambda>_. v)) (rd n))"

text \<open>The entries in the order of the document: an unknown or repeated key is an error at once.\<close>

fun visit_entries ::
    "('n, 'e, 'r) field list \<Rightarrow> rstr list \<Rightarrow> 'r \<Rightarrow> (rstr \<times> 'n) list \<Rightarrow> 'e de_error + rstr list \<times> 'r" where
  "visit_entries fs seen r [] = Inr (seen, r)"
| "visit_entries fs seen r ((k, n) # es) =
     (case map_of fs k of
        None \<Rightarrow> Inl (UnknownField k (map fst fs))
      | Some (_, rd) \<Rightarrow>
          if k \<in> set seen then Inl (DuplicateField k)
          else and_then (rd n) (\<lambda>f. visit_entries fs (k # seen) (f r) es))"

text \<open>After them the fields that were not there, in the order of the declaration.\<close>

fun fill_absent :: "('n, 'e, 'r) field list \<Rightarrow> rstr list \<Rightarrow> 'r \<Rightarrow> 'e de_error + 'r" where
  "fill_absent [] seen r = Inr r"
| "fill_absent ((k, absent, _) # fs) seen r =
     (if k \<in> set seen then fill_absent fs seen r
      else case absent of
             None \<Rightarrow> Inl (MissingField k)
           | Some f \<Rightarrow> fill_absent fs seen (f r))"

definition derive ::
    "('n, 'e) yaml \<Rightarrow> ('n, 'e, 'r) field list \<Rightarrow> 'r \<Rightarrow> ('n, 'e, 'r) reader" where
  "derive y fs blank n =
     and_then (map_err LibraryError (ym_entries y n)) (\<lambda>es.
     and_then (visit_entries fs [] blank es) (\<lambda>(seen, r). fill_absent fs seen r))"

section \<open>Readers of the field types\<close>

definition scalar :: "('n \<Rightarrow> 'e + 'a) \<Rightarrow> ('n, 'e, 'a) reader" where
  "scalar f n = map_err LibraryError (f n)"

definition optional :: "('n, 'e) yaml \<Rightarrow> ('n, 'e, 'a) reader \<Rightarrow> ('n, 'e, 'a option) reader" where
  "optional y rd n = (if ym_is_null y n then Inr None else map_sum id Some (rd n))"

fun read_all :: "('n, 'e, 'a) reader \<Rightarrow> ('n list, 'e, 'a list) reader" where
  "read_all rd [] = Inr []"
| "read_all rd (n # ns) = and_then (rd n) (\<lambda>v. and_then (read_all rd ns) (\<lambda>vs. Inr (v # vs)))"

definition vector :: "('n, 'e) yaml \<Rightarrow> ('n, 'e, 'a) reader \<Rightarrow> ('n, 'e, 'a list) reader" where
  "vector y rd n = and_then (scalar (ym_items y) n) (read_all rd)"

text \<open>A unit variant by its name, the names in lower case as \<open>rename_all\<close> has them.\<close>

definition one_of :: "('n, 'e) yaml \<Rightarrow> (string \<times> 'a) list \<Rightarrow> ('n, 'e, 'a) reader" where
  "one_of y names n =
     and_then (scalar (ym_variant y) n) (\<lambda>v.
       ok_or (UnknownVariant v (map (\<lambda>(k, _). lit k) names)) (map_of (map (\<lambda>(k, a). (lit k, a)) names) v))"

section \<open>The structs of the configuration\<close>

definition influx_fields :: "('n, 'e) yaml \<Rightarrow> ('n, 'e, influx_config) field list" where
  "influx_fields y =
     [field ''url'' None (scalar (ym_string y)) ic_url_update,
      field ''org'' None (scalar (ym_string y)) ic_org_update,
      field ''bucket'' None (scalar (ym_string y)) ic_bucket_update,
      field ''token_file'' (Some (lit ''/run/secrets/influx_token'')) (scalar (ym_string y)) ic_token_file_update,
      field ''batch_size'' (Some 10) (scalar (ym_u64 y)) ic_batch_size_update,
      field ''batch_timeout_ms'' (Some 1000) (scalar (ym_u64 y)) ic_batch_timeout_ms_update,
      field ''max_buffered_bytes'' (Some (8 * 1024 * 1024)) (scalar (ym_u64 y)) ic_max_buffered_bytes_update,
      field ''retry_initial_backoff_ms'' (Some 500) (scalar (ym_u64 y)) ic_retry_initial_backoff_ms_update,
      field ''retry_max_backoff_ms'' (Some 30000) (scalar (ym_u64 y)) ic_retry_max_backoff_ms_update,
      field ''shutdown_drain_timeout_ms'' (Some 5000) (scalar (ym_u64 y)) ic_shutdown_drain_timeout_ms_update]"

definition ui_fields :: "('n, 'e) yaml \<Rightarrow> ('n, 'e, ui_config) field list" where
  "ui_fields y =
     [field ''enabled'' (Some False) (scalar (ym_bool y)) uc_enabled_update,
      field ''bind'' (Some (lit ''127.0.0.1'')) (scalar (ym_string y)) uc_bind_update,
      field ''port'' (Some 9116) (scalar (ym_u16 y)) uc_port_update]"

definition metrics_fields :: "('n, 'e) yaml \<Rightarrow> ('n, 'e, metrics_config) field list" where
  "metrics_fields y =
     [field ''enabled'' (Some False) (scalar (ym_bool y)) mc_enabled_update,
      field ''bind'' (Some (lit ''127.0.0.1'')) (scalar (ym_string y)) mc_bind_update,
      field ''port'' (Some 9464) (scalar (ym_u16 y)) mc_port_update,
      field ''api_key_file'' (Some None) (optional y (scalar (ym_string y))) mc_api_key_file_update]"

definition health_fields :: "('n, 'e) yaml \<Rightarrow> ('n, 'e, health_config) field list" where
  "health_fields y =
     [field ''enabled'' (Some True) (scalar (ym_bool y)) hc_enabled_update,
      field ''port'' (Some 9115) (scalar (ym_u16 y)) hc_port_update]"

definition log_format_names :: "(string \<times> log_format) list" where
  "log_format_names = [(''pretty'', Pretty), (''json'', Json)]"

definition log_fields :: "('n, 'e) yaml \<Rightarrow> ('n, 'e, log_config) field list" where
  "log_fields y =
     [field ''format'' (Some Pretty) (one_of y log_format_names) lc_format_update,
      field ''level'' (Some (lit ''info'')) (scalar (ym_string y)) lc_level_update]"

definition probe_type_names :: "(string \<times> probe_type) list" where
  "probe_type_names =
     [(''tcp'', Tcp), (''http'', Http), (''https'', Https), (''smtp'', Smtp), (''imap'', Imap), (''udp'', Udp),
      (''dns'', Dns), (''tls'', Tls)]"

definition probe_fields :: "('n, 'e) yaml \<Rightarrow> ('n, 'e, probe_config) field list" where
  "probe_fields y =
     [field ''name'' None (scalar (ym_string y)) pc_name_update,
      field ''type'' None (one_of y probe_type_names) pc_probe_type_update,
      field ''target'' None (scalar (ym_string y)) pc_target_update,
      field ''interval_secs'' (Some 30) (scalar (ym_u64 y)) pc_interval_secs_update,
      field ''timeout_secs'' (Some 5) (scalar (ym_u64 y)) pc_timeout_secs_update,
      field ''expected_status'' (Some None) (optional y (scalar (ym_u16 y))) pc_expected_status_update,
      field ''dns_query'' (Some None) (optional y (scalar (ym_string y))) pc_dns_query_update,
      field ''dns_expected_ip'' (Some None) (optional y (scalar (ym_string y))) pc_dns_expected_ip_update,
      field ''tls_expiry_fail_days'' (Some None) (optional y (scalar (ym_f64 y))) pc_tls_expiry_fail_days_update]"

definition influx_of :: "('n, 'e) yaml \<Rightarrow> ('n, 'e, influx_config) reader" where
  "influx_of y = derive y (influx_fields y) default_influx"

definition ui_of :: "('n, 'e) yaml \<Rightarrow> ('n, 'e, ui_config) reader" where
  "ui_of y = derive y (ui_fields y) default_ui"

definition metrics_of :: "('n, 'e) yaml \<Rightarrow> ('n, 'e, metrics_config) reader" where
  "metrics_of y = derive y (metrics_fields y) default_metrics"

definition health_of :: "('n, 'e) yaml \<Rightarrow> ('n, 'e, health_config) reader" where
  "health_of y = derive y (health_fields y) default_health"

definition log_of :: "('n, 'e) yaml \<Rightarrow> ('n, 'e, log_config) reader" where
  "log_of y = derive y (log_fields y) default_log"

definition probe_of :: "('n, 'e) yaml \<Rightarrow> ('n, 'e, probe_config) reader" where
  "probe_of y = derive y (probe_fields y) default_probe"

definition app_fields :: "('n, 'e) yaml \<Rightarrow> ('n, 'e, app_config) field list" where
  "app_fields y =
     [field ''influx'' None (influx_of y) ac_influx_update,
      field ''probes'' (Some []) (vector y (probe_of y)) ac_probes_update,
      field ''ui'' (Some default_ui) (ui_of y) ac_ui_update,
      field ''metrics'' (Some default_metrics) (metrics_of y) ac_metrics_update,
      field ''health'' (Some default_health) (health_of y) ac_health_update,
      field ''log'' (Some default_log) (log_of y) ac_log_update,
      field ''event_hub_capacity'' (Some default_hub_capacity) (scalar (ym_u64 y)) ac_event_hub_capacity_update]"

text \<open>The record the visitor starts from is overwritten in every field.\<close>

definition blank_app :: app_config where
  "blank_app =
     \<lparr>ac_influx = default_influx, ac_probes = [], ac_ui = default_ui, ac_metrics = default_metrics,
      ac_health = default_health, ac_log = default_log, ac_event_hub_capacity = default_hub_capacity\<rparr>"

definition app_of :: "('n, 'e) yaml \<Rightarrow> ('n, 'e, app_config) reader" where
  "app_of y = derive y (app_fields y) blank_app"

text \<open>\<open>serde_yaml_ng::from_str\<close>: the text is parsed into a node, the node read as a configuration.\<close>

definition from_str ::
    "(rstr \<Rightarrow> 'e + 'n) \<Rightarrow> ('n, 'e) yaml \<Rightarrow> ('e de_error \<Rightarrow> rstr) \<Rightarrow> rstr \<Rightarrow> rstr + app_config" where
  "from_str parse y show_err content =
     map_err show_err (and_then (map_err LibraryError (parse content)) (app_of y))"

section \<open>What the visitor accepts\<close>

lemma lit_eq_iff [simp]: "lit s = lit t \<longleftrightarrow> s = t"
  unfolding lit_def by (rule inj_map_eq_map) (simp add: inj_def)

lemma map_sum_Inr_iff: "map_sum id h x = Inr f \<longleftrightarrow> (\<exists>v. x = Inr v \<and> f = h v)"
  by (cases x) auto

text \<open>
  A key is read as \<open>v\<close>: what it is mapped to is in the relation \<open>P\<close> with \<open>v\<close>, or it is absent and \<open>v\<close> is
  its default. A block has only its own keys, each at most once.
\<close>

definition key_reads ::
    "(rstr \<times> 'n) list \<Rightarrow> string \<Rightarrow> 'a option \<Rightarrow> ('n \<Rightarrow> 'a \<Rightarrow> bool) \<Rightarrow> 'a \<Rightarrow> bool" where
  "key_reads es key absent P v \<longleftrightarrow>
     (case map_of es (lit key) of Some n \<Rightarrow> P n v | None \<Rightarrow> absent = Some v)"

definition only_keys :: "(rstr \<times> 'n) list \<Rightarrow> rstr list \<Rightarrow> bool" where
  "only_keys es keys \<longleftrightarrow> distinct (map fst es) \<and> set (map fst es) \<subseteq> set keys"

text \<open>The field of the record read by \<open>g\<close> is set by the table's entry for \<open>key\<close> and by no other.\<close>

definition carries ::
    "('n, 'e, 'r) field list \<Rightarrow> string \<Rightarrow> 'a option \<Rightarrow> ('n \<Rightarrow> 'a \<Rightarrow> bool) \<Rightarrow> ('r \<Rightarrow> 'a) \<Rightarrow> bool" where
  "carries fs key absent P g \<longleftrightarrow>
     (\<forall>(k, dflt, frd) \<in> set fs.
        (\<forall>n f r. frd n = Inr f \<longrightarrow> (if k = lit key then P n (g (f r)) else g (f r) = g r)) \<and>
        (\<forall>f r. dflt = Some f \<longrightarrow> (if k = lit key then absent = Some (g (f r)) else g (f r) = g r)))"

lemma visit_keys:
  assumes "visit_entries fs seen r es = Inr (seen', r')"
  shows "set seen' = set seen \<union> fst ` set es \<and> distinct (map fst es) \<and> set seen \<inter> fst ` set es = {} \<and>
         fst ` set es \<subseteq> fst ` set fs"
  using assms
proof (induction es arbitrary: seen r)
  case (Cons e es)
  obtain k n where e: "e = (k, n)" by (cases e)
  with Cons.prems obtain dflt frd f where step: "map_of fs k = Some (dflt, frd)" "k \<notin> set seen" "frd n = Inr f"
    "visit_entries fs (k # seen) (f r) es = Inr (seen', r')"
    by (auto simp: and_then_Inr_iff split: option.splits if_splits)
  have "k \<in> fst ` set fs" using step(1) by (metis map_of_SomeD image_eqI fst_conv)
  with Cons.IH [OF step(4)] step(2) show ?case by (auto simp: e)
qed simp

lemma visit_value:
  assumes "visit_entries fs seen r es = Inr (seen', r')" "carries fs key absent P g"
  shows "case map_of es (lit key) of Some n \<Rightarrow> P n (g r') | None \<Rightarrow> g r' = g r"
  using assms(1)
proof (induction es arbitrary: seen r)
  case (Cons e es)
  obtain k n where e: "e = (k, n)" by (cases e)
  with Cons.prems obtain dflt frd f where step: "map_of fs k = Some (dflt, frd)" "frd n = Inr f"
    "visit_entries fs (k # seen) (f r) es = Inr (seen', r')"
    by (auto simp: and_then_Inr_iff split: option.splits if_splits)
  have mem: "(k, dflt, frd) \<in> set fs" using step(1) by (rule map_of_SomeD)
  have "if k = lit key then P n (g (f r)) else g (f r) = g r"
    using assms(2) mem step(2) unfolding carries_def by blast
  moreover have "map_of es k = None" using visit_keys [OF step(3)] by (force simp: map_of_eq_None_iff)
  ultimately show ?case using Cons.IH [OF step(3)] by (auto simp: e split: if_splits option.splits)
qed simp

lemma fill_value:
  assumes "fill_absent fs seen r = Inr r'" "carries fs key absent P g" "distinct (map fst fs)"
  shows "if lit key \<in> fst ` set fs \<and> lit key \<notin> set seen then absent = Some (g r') else g r' = g r"
  using assms
proof (induction fs arbitrary: r)
  case (Cons fd fs)
  obtain k dflt frd where fd: "fd = (k, dflt, frd)" by (cases fd)
  have tail: "carries fs key absent P g" using Cons.prems(2) by (simp add: carries_def)
  show ?case
  proof (cases "k \<in> set seen")
    case True
    then show ?thesis using Cons.IH [OF _ tail] Cons.prems
      by (cases "lit key = k") (simp_all add: fd)
  next
    case False
    with Cons.prems(1) obtain f where f: "dflt = Some f" "fill_absent fs seen (f r) = Inr r'"
      by (auto simp: fd split: option.splits)
    have step: "if k = lit key then absent = Some (g (f r)) else g (f r) = g r"
      using Cons.prems(2) f(1) by (simp add: carries_def fd)
    show ?thesis
      using Cons.IH [OF f(2) tail] Cons.prems(3) step False by (cases "lit key = k") (simp_all add: fd)
  qed
qed simp

lemma derive_value:
  assumes "derive y fs blank n = Inr r" "ym_entries y n = Inr es"
    and "carries fs key absent P g" "lit key \<in> fst ` set fs" "distinct (map fst fs)"
  shows "key_reads es key absent P (g r)"
proof -
  obtain seen r1 where r1: "visit_entries fs [] blank es = Inr (seen, r1)" "fill_absent fs seen r1 = Inr r"
    using assms(1,2) by (auto simp: derive_def and_then_Inr_iff)
  have seen: "set seen = fst ` set es" using visit_keys [OF r1(1)] by simp
  show ?thesis
  proof (cases "map_of es (lit key)")
    case None
    then have "lit key \<notin> set seen" by (simp add: seen map_of_eq_None_iff)
    then show ?thesis using fill_value [OF r1(2) assms(3,5)] assms(4) None by (simp add: key_reads_def)
  next
    case (Some m)
    then have "lit key \<in> set seen" by (metis seen map_of_eq_None_iff option.distinct(1))
    then show ?thesis using fill_value [OF r1(2) assms(3,5)] visit_value [OF r1(1) assms(3)] Some
      by (simp add: key_reads_def)
  qed
qed

lemma visit_total:
  assumes "only_keys es (map fst fs)" "set seen \<inter> fst ` set es = {}"
    and "\<forall>(k, n) \<in> set es. \<exists>dflt frd f. map_of fs k = Some (dflt, frd) \<and> frd n = Inr f"
  shows "\<exists>seen' r'. visit_entries fs seen r es = Inr (seen', r')"
  using assms
proof (induction es arbitrary: seen r)
  case (Cons e es)
  obtain k n where e: "e = (k, n)" by (cases e)
  with Cons.prems obtain dflt frd f where step: "map_of fs k = Some (dflt, frd)" "frd n = Inr f" "k \<notin> set seen"
    by fastforce
  have "\<exists>seen' r'. visit_entries fs (k # seen) (f r) es = Inr (seen', r')"
    by (rule Cons.IH) (use Cons.prems in \<open>auto simp: e only_keys_def\<close>)
  then show ?case using step by (simp add: e)
qed simp

lemma fill_total:
  assumes "\<forall>(k, dflt, frd) \<in> set fs. k \<notin> set seen \<longrightarrow> dflt \<noteq> None"
  shows "\<exists>r'. fill_absent fs seen r = Inr r'"
  using assms by (induction fs seen r rule: fill_absent.induct) (auto split: option.splits)

text \<open>
  \<open>R\<close> is the block's predicate: what the visitor returns satisfies it, it asks of every field that it can
  be read, and it determines the record. Then the visitor returns exactly what satisfies it.
\<close>

lemma derive_iff:
  assumes "distinct (map fst fs)" and entries: "ym_entries y n = Inr es"
    and sound: "\<And>r. derive y fs blank n = Inr r \<Longrightarrow> R r"
    and total: "\<And>r. R r \<Longrightarrow>
      \<forall>(k, dflt, frd) \<in> set fs. case map_of es k of Some m \<Rightarrow> \<exists>f. frd m = Inr f | None \<Rightarrow> dflt \<noteq> None"
    and unique: "\<And>r r'. R r \<Longrightarrow> R r' \<Longrightarrow> r = r'"
  shows "derive y fs blank n = Inr r \<longleftrightarrow> only_keys es (map fst fs) \<and> R r"
proof
  assume l: "derive y fs blank n = Inr r"
  then obtain seen r1 where "visit_entries fs [] blank es = Inr (seen, r1)"
    using entries by (auto simp: derive_def and_then_Inr_iff)
  from visit_keys [OF this] have "only_keys es (map fst fs)" by (simp add: only_keys_def)
  with sound [OF l] show "only_keys es (map fst fs) \<and> R r" by simp
next
  assume r: "only_keys es (map fst fs) \<and> R r"
  have "\<exists>dflt frd f. map_of fs k = Some (dflt, frd) \<and> frd m = Inr f" if e: "(k, m) \<in> set es" for k m
  proof -
    have "k \<in> set (map fst fs)" using r e by (force simp: only_keys_def)
    then obtain dflt frd where fd: "(k, dflt, frd) \<in> set fs" by force
    have "map_of es k = Some m" using r e by (simp add: only_keys_def)
    with total [OF conjunct2 [OF r]] fd obtain f where "frd m = Inr f" by fastforce
    with fd assms(1) show ?thesis by (metis map_of_is_SomeI)
  qed
  then have "\<forall>(k, m) \<in> set es. \<exists>dflt frd f. map_of fs k = Some (dflt, frd) \<and> frd m = Inr f" by blast
  from visit_total [OF conjunct1 [OF r] _ this, of "[]" blank]
  obtain seen r1 where v: "visit_entries fs [] blank es = Inr (seen, r1)" by auto
  have "dflt \<noteq> None" if fd: "(k, dflt, frd) \<in> set fs" and k: "k \<notin> set seen" for k dflt frd
  proof -
    have "map_of es k = None" using visit_keys [OF v] k by (simp add: map_of_eq_None_iff)
    with total [OF conjunct2 [OF r]] fd show ?thesis by fastforce
  qed
  then have "\<forall>(k, dflt, frd) \<in> set fs. k \<notin> set seen \<longrightarrow> dflt \<noteq> None" by blast
  then obtain r' where "fill_absent fs seen r1 = Inr r'" using fill_total by metis
  with v entries have "derive y fs blank n = Inr r'" by (simp add: derive_def)
  with unique [OF sound] r show "derive y fs blank n = Inr r" by metis
qed

section \<open>The blocks, declaratively\<close>

definition text_is :: "('n, 'e) yaml \<Rightarrow> 'n \<Rightarrow> rstr \<Rightarrow> bool" where "text_is y n v \<longleftrightarrow> ym_string y n = Inr v"
definition flag_is :: "('n, 'e) yaml \<Rightarrow> 'n \<Rightarrow> bool \<Rightarrow> bool" where "flag_is y n v \<longleftrightarrow> ym_bool y n = Inr v"
definition u16_is :: "('n, 'e) yaml \<Rightarrow> 'n \<Rightarrow> u16 \<Rightarrow> bool" where "u16_is y n v \<longleftrightarrow> ym_u16 y n = Inr v"
definition u64_is :: "('n, 'e) yaml \<Rightarrow> 'n \<Rightarrow> u64 \<Rightarrow> bool" where "u64_is y n v \<longleftrightarrow> ym_u64 y n = Inr v"
definition f64_is :: "('n, 'e) yaml \<Rightarrow> 'n \<Rightarrow> f64 \<Rightarrow> bool" where "f64_is y n v \<longleftrightarrow> ym_f64 y n = Inr v"

definition maybe :: "('n, 'e) yaml \<Rightarrow> ('n \<Rightarrow> 'a \<Rightarrow> bool) \<Rightarrow> 'n \<Rightarrow> 'a option \<Rightarrow> bool" where
  "maybe y P n v \<longleftrightarrow> (case v of None \<Rightarrow> ym_is_null y n | Some w \<Rightarrow> \<not> ym_is_null y n \<and> P n w)"

definition named :: "('n, 'e) yaml \<Rightarrow> (string \<times> 'a) list \<Rightarrow> 'n \<Rightarrow> 'a \<Rightarrow> bool" where
  "named y names n v \<longleftrightarrow> (\<exists>(k, a) \<in> set names. ym_variant y n = Inr (lit k) \<and> a = v)"

definition each :: "('n, 'e) yaml \<Rightarrow> ('n \<Rightarrow> 'a \<Rightarrow> bool) \<Rightarrow> 'n \<Rightarrow> 'a list \<Rightarrow> bool" where
  "each y P n vs \<longleftrightarrow> (\<exists>ns. ym_items y n = Inr ns \<and> list_all2 P ns vs)"

definition block ::
    "('n, 'e) yaml \<Rightarrow> string list \<Rightarrow> ((rstr \<times> 'n) list \<Rightarrow> 'r \<Rightarrow> bool) \<Rightarrow> 'n \<Rightarrow> 'r \<Rightarrow> bool" where
  "block y keys R n r \<longleftrightarrow> (\<exists>es. ym_entries y n = Inr es \<and> only_keys es (map lit keys) \<and> R es r)"

definition influx_block :: "('n, 'e) yaml \<Rightarrow> 'n \<Rightarrow> influx_config \<Rightarrow> bool" where
  "influx_block y =
     block y [''url'', ''org'', ''bucket'', ''token_file'', ''batch_size'', ''batch_timeout_ms'',
         ''max_buffered_bytes'', ''retry_initial_backoff_ms'', ''retry_max_backoff_ms'', ''shutdown_drain_timeout_ms'']
       (\<lambda>es c.
         key_reads es ''url'' None (text_is y) (ic_url c) \<and>
         key_reads es ''org'' None (text_is y) (ic_org c) \<and>
         key_reads es ''bucket'' None (text_is y) (ic_bucket c) \<and>
         key_reads es ''token_file'' (Some (ic_token_file default_influx)) (text_is y) (ic_token_file c) \<and>
         key_reads es ''batch_size'' (Some (ic_batch_size default_influx)) (u64_is y) (ic_batch_size c) \<and>
         key_reads es ''batch_timeout_ms'' (Some (ic_batch_timeout_ms default_influx)) (u64_is y) (ic_batch_timeout_ms c) \<and>
         key_reads es ''max_buffered_bytes'' (Some (ic_max_buffered_bytes default_influx)) (u64_is y)
           (ic_max_buffered_bytes c) \<and>
         key_reads es ''retry_initial_backoff_ms'' (Some (ic_retry_initial_backoff_ms default_influx)) (u64_is y)
           (ic_retry_initial_backoff_ms c) \<and>
         key_reads es ''retry_max_backoff_ms'' (Some (ic_retry_max_backoff_ms default_influx)) (u64_is y)
           (ic_retry_max_backoff_ms c) \<and>
         key_reads es ''shutdown_drain_timeout_ms'' (Some (ic_shutdown_drain_timeout_ms default_influx)) (u64_is y)
           (ic_shutdown_drain_timeout_ms c))"

definition ui_block :: "('n, 'e) yaml \<Rightarrow> 'n \<Rightarrow> ui_config \<Rightarrow> bool" where
  "ui_block y =
     block y [''enabled'', ''bind'', ''port'']
       (\<lambda>es c. key_reads es ''enabled'' (Some (uc_enabled default_ui)) (flag_is y) (uc_enabled c) \<and>
              key_reads es ''bind'' (Some (uc_bind default_ui)) (text_is y) (uc_bind c) \<and>
              key_reads es ''port'' (Some (uc_port default_ui)) (u16_is y) (uc_port c))"

definition metrics_block :: "('n, 'e) yaml \<Rightarrow> 'n \<Rightarrow> metrics_config \<Rightarrow> bool" where
  "metrics_block y =
     block y [''enabled'', ''bind'', ''port'', ''api_key_file'']
       (\<lambda>es c. key_reads es ''enabled'' (Some (mc_enabled default_metrics)) (flag_is y) (mc_enabled c) \<and>
              key_reads es ''bind'' (Some (mc_bind default_metrics)) (text_is y) (mc_bind c) \<and>
              key_reads es ''port'' (Some (mc_port default_metrics)) (u16_is y) (mc_port c) \<and>
              key_reads es ''api_key_file'' (Some (mc_api_key_file default_metrics)) (maybe y (text_is y))
                (mc_api_key_file c))"

definition health_block :: "('n, 'e) yaml \<Rightarrow> 'n \<Rightarrow> health_config \<Rightarrow> bool" where
  "health_block y =
     block y [''enabled'', ''port'']
       (\<lambda>es c. key_reads es ''enabled'' (Some (hc_enabled default_health)) (flag_is y) (hc_enabled c) \<and>
              key_reads es ''port'' (Some (hc_port default_health)) (u16_is y) (hc_port c))"

definition log_block :: "('n, 'e) yaml \<Rightarrow> 'n \<Rightarrow> log_config \<Rightarrow> bool" where
  "log_block y =
     block y [''format'', ''level'']
       (\<lambda>es c. key_reads es ''format'' (Some (lc_format default_log)) (named y log_format_names) (lc_format c) \<and>
              key_reads es ''level'' (Some (lc_level default_log)) (text_is y) (lc_level c))"

definition probe_block :: "('n, 'e) yaml \<Rightarrow> 'n \<Rightarrow> probe_config \<Rightarrow> bool" where
  "probe_block y =
     block y [''name'', ''type'', ''target'', ''interval_secs'', ''timeout_secs'', ''expected_status'',
         ''dns_query'', ''dns_expected_ip'', ''tls_expiry_fail_days'']
       (\<lambda>es c.
         key_reads es ''name'' None (text_is y) (pc_name c) \<and>
         key_reads es ''type'' None (named y probe_type_names) (pc_probe_type c) \<and>
         key_reads es ''target'' None (text_is y) (pc_target c) \<and>
         key_reads es ''interval_secs'' (Some (pc_interval_secs default_probe)) (u64_is y) (pc_interval_secs c) \<and>
         key_reads es ''timeout_secs'' (Some (pc_timeout_secs default_probe)) (u64_is y) (pc_timeout_secs c) \<and>
         key_reads es ''expected_status'' (Some None) (maybe y (u16_is y)) (pc_expected_status c) \<and>
         key_reads es ''dns_query'' (Some None) (maybe y (text_is y)) (pc_dns_query c) \<and>
         key_reads es ''dns_expected_ip'' (Some None) (maybe y (text_is y)) (pc_dns_expected_ip c) \<and>
         key_reads es ''tls_expiry_fail_days'' (Some None) (maybe y (f64_is y)) (pc_tls_expiry_fail_days c))"

definition app_block :: "('n, 'e) yaml \<Rightarrow> 'n \<Rightarrow> app_config \<Rightarrow> bool" where
  "app_block y =
     block y [''influx'', ''probes'', ''ui'', ''metrics'', ''health'', ''log'', ''event_hub_capacity'']
       (\<lambda>es c.
         key_reads es ''influx'' None (influx_block y) (ac_influx c) \<and>
         key_reads es ''probes'' (Some []) (each y (probe_block y)) (ac_probes c) \<and>
         key_reads es ''ui'' (Some default_ui) (ui_block y) (ac_ui c) \<and>
         key_reads es ''metrics'' (Some default_metrics) (metrics_block y) (ac_metrics c) \<and>
         key_reads es ''health'' (Some default_health) (health_block y) (ac_health c) \<and>
         key_reads es ''log'' (Some default_log) (log_block y) (ac_log c) \<and>
         key_reads es ''event_hub_capacity'' (Some default_hub_capacity) (u64_is y) (ac_event_hub_capacity c))"

section \<open>The readers meet their specification\<close>

text \<open>\<open>rd\<close> reads exactly the values in the relation \<open>P\<close>.\<close>

definition meets :: "('n, 'e, 'a) reader \<Rightarrow> ('n \<Rightarrow> 'a \<Rightarrow> bool) \<Rightarrow> bool" where
  "meets rd P \<longleftrightarrow> (\<forall>n v. rd n = Inr v \<longleftrightarrow> P n v)"

lemma meets_scalars [intro, simp]:
  "meets (scalar (ym_string y)) (text_is y)" "meets (scalar (ym_bool y)) (flag_is y)"
  "meets (scalar (ym_u16 y)) (u16_is y)" "meets (scalar (ym_u64 y)) (u64_is y)"
  "meets (scalar (ym_f64 y)) (f64_is y)"
  by (simp_all add: meets_def scalar_def text_is_def flag_is_def u16_is_def u64_is_def f64_is_def)

lemma meets_maybe [intro, simp]: "meets rd P \<Longrightarrow> meets (optional y rd) (maybe y P)"
  by (auto simp: meets_def optional_def maybe_def map_sum_Inr_iff split: option.split)

lemma read_all_Inr_iff: "meets rd P \<Longrightarrow> read_all rd ns = Inr vs \<longleftrightarrow> list_all2 P ns vs"
  by (induction ns arbitrary: vs) (auto simp: meets_def and_then_Inr_iff list_all2_Cons1)

lemma meets_each [intro, simp]: "meets rd P \<Longrightarrow> meets (vector y rd) (each y P)"
  by (auto simp: meets_def [of "vector y rd"] vector_def each_def and_then_Inr_iff scalar_def read_all_Inr_iff)

lemma meets_named [intro, simp]:
  assumes "distinct (map fst names)" shows "meets (one_of y names) (named y names)"
proof -
  have "map fst (map (\<lambda>(k, a). (lit k, a)) names) = map lit (map fst names)" by (induction names) auto
  then have "distinct (map fst (map (\<lambda>(k, a). (lit k, a)) names))"
    using assms by (simp only: distinct_map [of lit]) (auto simp: inj_on_def)
  then show ?thesis
    by (force simp: meets_def one_of_def named_def and_then_Inr_iff scalar_def map_of_eq_Some_iff)
qed

lemma distinct_names [simp]: "distinct (map fst log_format_names)" "distinct (map fst probe_type_names)"
  by (simp_all add: log_format_names_def probe_type_names_def)

lemma meetsD: "meets rd P \<Longrightarrow> rd n = Inr v \<longleftrightarrow> P n v"
  by (simp add: meets_def)

lemma reader_iffs:
  "scalar (ym_string y) n = Inr s \<longleftrightarrow> text_is y n s" "scalar (ym_bool y) n = Inr b \<longleftrightarrow> flag_is y n b"
  "scalar (ym_u16 y) n = Inr h \<longleftrightarrow> u16_is y n h" "scalar (ym_u64 y) n = Inr w \<longleftrightarrow> u64_is y n w"
  "optional y (scalar (ym_string y)) n = Inr so \<longleftrightarrow> maybe y (text_is y) n so"
  "optional y (scalar (ym_u16 y)) n = Inr ho \<longleftrightarrow> maybe y (u16_is y) n ho"
  "optional y (scalar (ym_f64 y)) n = Inr fo \<longleftrightarrow> maybe y (f64_is y) n fo"
  "one_of y log_format_names n = Inr lf \<longleftrightarrow> named y log_format_names n lf"
  "one_of y probe_type_names n = Inr pt \<longleftrightarrow> named y probe_type_names n pt"
  by (rule meetsD, simp)+

text \<open>At most one value is read.\<close>

definition one_value :: "('n \<Rightarrow> 'a \<Rightarrow> bool) \<Rightarrow> bool" where
  "one_value P \<longleftrightarrow> (\<forall>n v w. P n v \<longrightarrow> P n w \<longrightarrow> v = w)"

lemma meets_one_value: "meets rd P \<Longrightarrow> one_value P"
  unfolding meets_def one_value_def by (metis sum.inject(2))

lemma one_values [intro]:
  "one_value (text_is y)" "one_value (flag_is y)" "one_value (u16_is y)" "one_value (u64_is y)"
  "one_value (maybe y (text_is y))" "one_value (maybe y (u16_is y))" "one_value (maybe y (f64_is y))"
  "one_value (named y log_format_names)" "one_value (named y probe_type_names)"
  by (rule meets_one_value, blast intro: distinct_names)+

lemma key_reads_unique: "key_reads es key absent P v \<Longrightarrow> key_reads es key absent P w \<Longrightarrow> one_value P \<Longrightarrow> v = w"
  by (auto simp: key_reads_def one_value_def split: option.splits)

lemma key_reads_found: "key_reads es key absent P v \<Longrightarrow> map_of es (lit key) = Some m \<Longrightarrow> \<exists>w. P m w"
  by (auto simp: key_reads_def)

lemma key_reads_absent: "key_reads es key absent P v \<Longrightarrow> map_of es (lit key) = None \<Longrightarrow> absent \<noteq> None"
  by (auto simp: key_reads_def)

text \<open>What a table owes its block: every field carried, every field readable where the block holds, and the
  record determined by it.\<close>

lemma derive_meets:
  assumes keys: "map fst fs = map lit keys" "distinct keys"
    and carried: "\<And>n es r. derive y fs blank n = Inr r \<Longrightarrow> ym_entries y n = Inr es \<Longrightarrow> R es r"
    and readable: "\<And>es r k dflt frd. R es r \<Longrightarrow> (k, dflt, frd) \<in> set fs \<Longrightarrow>
      (\<forall>m. map_of es k = Some m \<longrightarrow> (\<exists>f. frd m = Inr f)) \<and> (map_of es k = None \<longrightarrow> dflt \<noteq> None)"
    and unique: "\<And>es r r'. R es r \<Longrightarrow> R es r' \<Longrightarrow> r = r'"
  shows "meets (derive y fs blank) (block y keys R)"
proof -
  have dist: "distinct (map fst fs)" using keys by (simp add: distinct_map inj_on_def)
  have "derive y fs blank n = Inr r \<longleftrightarrow> only_keys es (map fst fs) \<and> R es r" if "ym_entries y n = Inr es" for n es r
  proof (rule derive_iff [OF dist that])
    show "\<forall>(k, dflt, frd) \<in> set fs. case map_of es k of Some m \<Rightarrow> \<exists>f. frd m = Inr f | None \<Rightarrow> dflt \<noteq> None"
      if "R es r" for r
      using readable [OF that] by (auto split: option.split)
  qed (use that carried unique in blast)+
  moreover have "derive y fs blank n = Inr r \<Longrightarrow> \<exists>es. ym_entries y n = Inr es" for n r
    by (auto simp: derive_def and_then_Inr_iff)
  ultimately show ?thesis unfolding meets_def block_def keys(1) by metis
qed

text \<open>The three obligations for a concrete table.\<close>

lemmas table_simps = field_def map_sum_Inr_iff reader_iffs

lemma meets_influx: "meets (influx_of y) (influx_block y)"
  unfolding influx_of_def influx_block_def
proof (rule derive_meets, goal_cases)
  case (3 n es r)
  show ?case
    by (intro conjI; rule derive_value [OF 3];
        auto simp: carries_def influx_fields_def table_simps default_influx_def)
qed (auto simp: influx_fields_def table_simps default_influx_def
    dest: key_reads_found key_reads_absent intro!: influx_config.equality elim!: key_reads_unique)

lemma meets_ui: "meets (ui_of y) (ui_block y)"
  unfolding ui_of_def ui_block_def
proof (rule derive_meets, goal_cases)
  case (3 n es r)
  show ?case
    by (intro conjI; rule derive_value [OF 3];
        auto simp: carries_def ui_fields_def table_simps default_ui_def)
qed (auto simp: ui_fields_def table_simps default_ui_def
    dest: key_reads_found key_reads_absent intro!: ui_config.equality elim!: key_reads_unique)

lemma meets_metrics: "meets (metrics_of y) (metrics_block y)"
  unfolding metrics_of_def metrics_block_def
proof (rule derive_meets, goal_cases)
  case (3 n es r)
  show ?case
    by (intro conjI; rule derive_value [OF 3];
        auto simp: carries_def metrics_fields_def table_simps default_metrics_def)
qed (auto simp: metrics_fields_def table_simps default_metrics_def
    dest: key_reads_found key_reads_absent intro!: metrics_config.equality elim!: key_reads_unique)

lemma meets_health: "meets (health_of y) (health_block y)"
  unfolding health_of_def health_block_def
proof (rule derive_meets, goal_cases)
  case (3 n es r)
  show ?case
    by (intro conjI; rule derive_value [OF 3];
        auto simp: carries_def health_fields_def table_simps default_health_def)
qed (auto simp: health_fields_def table_simps default_health_def
    dest: key_reads_found key_reads_absent intro!: health_config.equality elim!: key_reads_unique)

lemma meets_log: "meets (log_of y) (log_block y)"
  unfolding log_of_def log_block_def
proof (rule derive_meets, goal_cases)
  case (3 n es r)
  show ?case
    by (intro conjI; rule derive_value [OF 3];
        auto simp: carries_def log_fields_def table_simps default_log_def)
qed (auto simp: log_fields_def table_simps default_log_def
    dest: key_reads_found key_reads_absent intro!: log_config.equality elim!: key_reads_unique)

lemma meets_probe: "meets (probe_of y) (probe_block y)"
  unfolding probe_of_def probe_block_def
proof (rule derive_meets, goal_cases)
  case (3 n es r)
  show ?case
    by (intro conjI; rule derive_value [OF 3];
        auto simp: carries_def probe_fields_def table_simps default_probe_def)
qed (auto simp: probe_fields_def table_simps default_probe_def
    dest: key_reads_found key_reads_absent intro!: probe_config.equality elim!: key_reads_unique)

lemma meets_blocks [simp]:
  "meets (influx_of y) (influx_block y)" "meets (ui_of y) (ui_block y)" "meets (metrics_of y) (metrics_block y)"
  "meets (health_of y) (health_block y)" "meets (log_of y) (log_block y)"
  "meets (vector y (probe_of y)) (each y (probe_block y))"
  by (rule meets_influx meets_ui meets_metrics meets_health meets_log meets_each [OF meets_probe])+

lemma block_iffs:
  "influx_of y n = Inr ci \<longleftrightarrow> influx_block y n ci" "ui_of y n = Inr cu \<longleftrightarrow> ui_block y n cu"
  "metrics_of y n = Inr cm \<longleftrightarrow> metrics_block y n cm" "health_of y n = Inr ch \<longleftrightarrow> health_block y n ch"
  "log_of y n = Inr cl \<longleftrightarrow> log_block y n cl"
  "vector y (probe_of y) n = Inr cp \<longleftrightarrow> each y (probe_block y) n cp"
  by (rule meetsD, simp)+

lemma one_blocks [intro]:
  "one_value (influx_block y)" "one_value (ui_block y)" "one_value (metrics_block y)"
  "one_value (health_block y)" "one_value (log_block y)" "one_value (each y (probe_block y))"
  by (rule meets_one_value, rule meets_blocks)+

lemma meets_app: "meets (app_of y) (app_block y)"
  unfolding app_of_def app_block_def
proof (rule derive_meets, goal_cases)
  case (3 n es r)
  show ?case
    by (intro conjI; rule derive_value [OF 3];
        auto simp: carries_def app_fields_def table_simps block_iffs)
qed (auto simp: app_fields_def table_simps block_iffs
    dest: key_reads_found key_reads_absent intro!: app_config.equality elim!: key_reads_unique)

section \<open>Loading a file\<close>

definition printable_probe :: "probe_config \<Rightarrow> probe_config" where
  "printable_probe p = p\<lparr>pc_name := escape_control_chars (pc_name p), pc_target := escape_control_chars (pc_target p)\<rparr>"

definition rewrite_warnings :: "probe_config \<Rightarrow> rstr list" where
  "rewrite_warnings p =
     (if control_free (pc_name p) then [] else [rewritten_warning ''name'' (escape_control_chars (pc_name p))]) @
     (if control_free (pc_target p) then [] else [rewritten_warning ''target'' (escape_control_chars (pc_target p))])"

lemma escape_probe_eq: "escape_probe p = (printable_probe p, rewrite_warnings p)"
  by (rule prod_eqI) (simp_all add: escape_probe_def escape_field_def Let_def printable_probe_def rewrite_warnings_def
      escape_field_snd escape_eq_self_iff)

lemma from_str_Inr_iff:
  "from_str parse y show_err content = Inr cfg \<longleftrightarrow> (\<exists>n. parse content = Inr n \<and> app_block y n cfg)"
  by (simp add: from_str_def and_then_Inr_iff meetsD [OF meets_app])

text \<open>C26: what loads is exactly what was written. A file and an environment load as \<open>c\<close> precisely when the
  file parses to a document whose blocks hold only their own keys, each at most once, every required one
  among them and every value of its type; when \<open>c\<close> is that document with each absent key at its default,
  each field overridden by its own variable where that is usable, and the control characters in names and
  targets escaped; and when \<open>c\<close> is a valid configuration. The warnings are those of the variables that could
  not be used and of the texts that were rewritten, and no others.\<close>

theorem configuration_loads_exactly_as_written:
  "load_with_warnings rd (from_str parse y show_err) env path = Inr (c, ws) \<longleftrightarrow>
     (\<exists>content n cfg. rd path = Inr content \<and> parse content = Inr n \<and> app_block y n cfg \<and>
        c = (overridden env cfg)\<lparr>ac_probes := map printable_probe (ac_probes cfg)\<rparr> \<and>
        config_ok c \<and>
        ws = env_warnings env cfg @ concat (map rewrite_warnings (ac_probes cfg)))"
proof -
  have "normalised env cfg = (overridden env cfg)\<lparr>ac_probes := map printable_probe (ac_probes cfg)\<rparr>" for cfg
    using overridden_probes [of env cfg]
    by (simp add: normalised_def escape_control_chars_in_names_def escape_probe_eq apply_env_overrides_eq)
  moreover have "ac_probes (overridden env cfg) = ac_probes cfg" for cfg
    using overridden_probes [of env cfg] by (simp add: apply_env_overrides_eq)
  ultimately show ?thesis
    unfolding load_Inr_iff from_str_Inr_iff validate_iff
    by (auto simp: escape_control_chars_in_names_def escape_probe_eq apply_env_overrides_eq)
qed

end
