(* ===== verification/Test_Support.thy ===== *)
theory Test_Support
  imports Config_Document
begin

text \<open>
  What the replay of the repository's own unit tests shares: YAML documents as trees with their scalars
  already typed, the reading of such a tree, a process environment given as a list, and \<open>str::contains\<close>.
  A test becomes a truth value with the test's name, over the same input and with the same assertions; that it
  holds is proved by evaluation. A test that calls \<open>expect\<close> or \<open>unwrap\<close> fails where the value is not there.
\<close>

named_theorems reading \<open>evaluation of the reading of a document\<close>
named_theorems replay \<open>evaluation of everything else in a test\<close>

text \<open>What is only reached through the outcome of something else is evaluated after it.\<close>

lemma lazy_congs:
  "r = r' \<Longrightarrow> and_then r k = and_then r' k"
  "b = b' \<Longrightarrow> fail_if b e = fail_if b' e"
  "p = p' \<Longrightarrow> t = t' \<Longrightarrow> read_then p q t = read_then p' q t'"
  "n = n' \<Longrightarrow> derive y fs blank n = derive y fs blank n'"
  "es = es' \<Longrightarrow> visit_entries fs seen r0 es = visit_entries fs seen r0 es'"
  by simp_all

declare lazy_congs [cong] let_weak_cong [cong]
declare Let_def [replay]

section \<open>Texts\<close>

fun str_contains :: "rstr \<Rightarrow> rstr \<Rightarrow> bool" where
  "str_contains [] t \<longleftrightarrow> t = []"
| "str_contains (c # s) t \<longleftrightarrow> starts_with (c # s) t \<or> str_contains s t"

lemma starts_with_eval [replay]:
  "starts_with s []" "\<not> starts_with [] (d # t)" "starts_with (c # s) (d # t) \<longleftrightarrow> c = d \<and> starts_with s t"
  by (simp_all add: starts_with_def)

lemma replicate_numeral_eval: "replicate (numeral k) x = x # replicate (pred_numeral k) x"
  by (simp add: numeral_eq_Suc)

lemmas text_replay [replay] =
  lit_simps quoted_def single_quote_def em_dash_def rsplit_once_def is_digit_def parse_u16_def parse_u64_def
  parse_uint_def digits_value_def show_nat_def show_uint.simps show_hex.simps hex_digit_def

lemmas address_replay [replay] =
  parse_ip_def parse_socket_addr_def parse_all_def read_ip_addr_def read_ipv4_addr_def read_then_def read_octet_def
  read_number_def digit_value_def number_of_digits_def read_given_char_def read_ipv6_addr_def read_groups.simps
  after_separator_def read_socket_addr_def read_socket_addr_v4_def read_socket_addr_v6_def read_port_def
  read_scope_id_def is_ipv6_def localhost_v4_def replicate_numeral_eval

lemma f64_of_int_eval [replay]:
  "f64_of_int 0 = Fin False 0" "f64_of_int 1 = Fin False 1"
  "numeral k \<le> (2 ^ 53 :: nat) \<Longrightarrow> f64_of_int (numeral k) = Fin False (numeral k)"
  "numeral k \<le> (2 ^ 53 :: nat) \<Longrightarrow> f64_of_int (- numeral k) = Fin True (numeral k)"
proof -
  have exact: "f64_round s (numeral k) = Fin s (numeral k)" if "numeral k \<le> (2 ^ 53 :: nat)" for s
    using f64_of_nat_exact [OF that]
    by (auto simp: f64_of_nat_def f64_of_int_def f64_round_def Let_def split: if_splits)
  show "f64_of_int (numeral k) = Fin False (numeral k)" "f64_of_int (- numeral k) = Fin True (numeral k)"
    if "numeral k \<le> (2 ^ 53 :: nat)"
    using exact [OF that] by (simp_all add: f64_of_int_def)
  show "f64_of_int 0 = Fin False 0" by (simp add: f64_of_int_def f64_round_def)
  show "f64_of_int 1 = Fin False 1" using f64_of_nat_exact [of 1] by (simp add: f64_of_nat_def)
qed

section \<open>Results\<close>

definition expect :: "'e + 'a \<Rightarrow> ('a \<Rightarrow> bool) \<Rightarrow> bool" where
  [replay]: "expect r P \<longleftrightarrow> (case r of Inl _ \<Rightarrow> False | Inr a \<Rightarrow> P a)"

definition expect_err :: "'e + 'a \<Rightarrow> ('e \<Rightarrow> bool) \<Rightarrow> bool" where
  [replay]: "expect_err r P \<longleftrightarrow> (case r of Inl e \<Rightarrow> P e | Inr _ \<Rightarrow> False)"

definition is_ok :: "'e + 'a \<Rightarrow> bool" where "is_ok r \<longleftrightarrow> expect r (\<lambda>_. True)"
definition is_err :: "'e + 'a \<Rightarrow> bool" where "is_err r \<longleftrightarrow> expect_err r (\<lambda>_. True)"

text \<open>\<open>err.to_string().contains(..)\<close>\<close>

definition mentions :: "string \<Rightarrow> hugin_error \<Rightarrow> bool" where
  [replay]: "mentions s e \<longleftrightarrow> str_contains (show_error e) (lit s)"

section \<open>Documents\<close>

datatype node =
    NullNode
  | BoolNode bool
  | NumNode int
  | FloatNode f64
  | TextNode rstr
  | ListNode "node list"
  | MapNode "(rstr \<times> node) list"

definition plain_yaml :: "(node, string) yaml" where
  "plain_yaml =
     \<lparr>ym_entries = (\<lambda>n. case n of MapNode es \<Rightarrow> Inr es | _ \<Rightarrow> Inl ''not a mapping''),
      ym_items = (\<lambda>n. case n of ListNode ns \<Rightarrow> Inr ns | _ \<Rightarrow> Inl ''not a sequence''),
      ym_string = (\<lambda>n. case n of TextNode s \<Rightarrow> Inr s | _ \<Rightarrow> Inl ''not a string''),
      ym_bool = (\<lambda>n. case n of BoolNode b \<Rightarrow> Inr b | _ \<Rightarrow> Inl ''not a boolean''),
      ym_u16 = (\<lambda>n. case n of NumNode i \<Rightarrow> if 0 \<le> i \<and> i < 2 ^ 16 then Inr (word_of_int i) else Inl ''out of range''
                  | _ \<Rightarrow> Inl ''not a number''),
      ym_u64 = (\<lambda>n. case n of NumNode i \<Rightarrow> if 0 \<le> i \<and> i < 2 ^ 64 then Inr (word_of_int i) else Inl ''out of range''
                  | _ \<Rightarrow> Inl ''not a number''),
      ym_f64 = (\<lambda>n. case n of FloatNode f \<Rightarrow> Inr f | NumNode i \<Rightarrow> Inr (f64_of_int i) | _ \<Rightarrow> Inl ''not a number''),
      ym_variant = (\<lambda>n. case n of TextNode s \<Rightarrow> Inr s | _ \<Rightarrow> Inl ''not a variant''),
      ym_is_null = (\<lambda>n. n = NullNode)\<rparr>"

type_synonym document = "(rstr \<times> node) list"

definition kv :: "string \<Rightarrow> node \<Rightarrow> rstr \<times> node" where "kv k n = (lit k, n)"
definition quot :: "string \<Rightarrow> node" where "quot s = TextNode (lit s)"

definition yaml_doc :: "document \<Rightarrow> string de_error + app_config" where
  "yaml_doc es = app_of plain_yaml (MapNode es)"

section \<open>The process environment\<close>

definition with_env :: "(string \<times> string) list \<Rightarrow> env" where
  "with_env vars v = map_of (map (\<lambda>(k, s). (lit k, lit s)) vars) v"

lemma expect_cong [cong]: "r = r' \<Longrightarrow> expect r P = expect r' P"
  by simp

lemma expect_err_cong [cong]: "r = r' \<Longrightarrow> expect_err r P = expect_err r' P"
  by simp

lemma expect_eval [reading, replay]:
  "expect (Inr a) P = P a" "\<not> expect (Inl e) P" "expect_err (Inl e) Q = Q e" "\<not> expect_err (Inr a) Q"
  by (simp_all add: expect_def expect_err_def)

section \<open>Evaluation\<close>

declare map_of.simps [simp del]

lemma map_of_eval [reading, replay]:
  "map_of [] k = None" "map_of ((k', v) # ps) k = (if k = k' then Some v else map_of ps k)"
  by (simp_all add: map_of.simps)

lemma map_of_field [reading]:
  "map_of (field k a rd u # fs) key =
     (if key = lit k then Some (map_option (\<lambda>v. u (\<lambda>_. v)) a, \<lambda>n. map_sum id (\<lambda>v. u (\<lambda>_. v)) (rd n))
      else map_of fs key)"
  by (simp add: field_def map_of_eval)

lemma fill_absent_field [reading]:
  "fill_absent (field k a rd u # fs) seen r =
     (if lit k \<in> set seen then fill_absent fs seen r
      else case a of None \<Rightarrow> Inl (MissingField (lit k)) | Some v \<Rightarrow> fill_absent fs seen (u (\<lambda>_. v) r))"
  by (simp add: field_def split: option.split)

lemma block_eval [reading]:
  "influx_of y n = derive y (influx_fields y) default_influx n" "ui_of y n = derive y (ui_fields y) default_ui n"
  "metrics_of y n = derive y (metrics_fields y) default_metrics n"
  "health_of y n = derive y (health_fields y) default_health n" "log_of y n = derive y (log_fields y) default_log n"
  "probe_of y n = derive y (probe_fields y) default_probe n" "app_of y n = derive y (app_fields y) blank_app n"
  by (simp_all add: influx_of_def ui_of_def metrics_of_def health_of_def log_of_def probe_of_def app_of_def)

lemmas document_reading [reading] =
  derive_def scalar_def optional_def vector_def one_of_def influx_fields_def ui_fields_def metrics_fields_def
  health_fields_def log_fields_def log_format_names_def probe_fields_def probe_type_names_def app_fields_def
  blank_app_def default_influx_def default_ui_def default_metrics_def default_health_def default_log_def
  default_probe_def default_hub_capacity_def

lemma plain_eval [reading]:
  "ym_entries plain_yaml (MapNode es) = Inr es" "ym_items plain_yaml (ListNode ns) = Inr ns"
  "ym_string plain_yaml (TextNode t) = Inr t" "ym_bool plain_yaml (BoolNode b) = Inr b"
  "ym_u16 plain_yaml (NumNode i) = (if 0 \<le> i \<and> i < 2 ^ 16 then Inr (word_of_int i) else Inl ''out of range'')"
  "ym_u64 plain_yaml (NumNode i) = (if 0 \<le> i \<and> i < 2 ^ 64 then Inr (word_of_int i) else Inl ''out of range'')"
  "ym_f64 plain_yaml (FloatNode f) = Inr f" "ym_f64 plain_yaml (NumNode i) = Inr (f64_of_int i)"
  "ym_variant plain_yaml (TextNode t) = Inr t" "ym_is_null plain_yaml n \<longleftrightarrow> n = NullNode"
  by (simp_all add: plain_yaml_def)

declare kv_def [reading] quot_def [reading] yaml_doc_def [reading]
declare is_ok_def [replay] is_err_def [replay] mentions_def [replay] with_env_def [replay]

end
