(* ===== verification/Test_Config.thy ===== *)
theory Test_Config
  imports Test_Support
begin

text \<open>
  The unit tests of \<open>huginn-core/src/config.rs\<close> on documents, defaults and validation, replayed on the
  model: the YAML texts as trees, the assertions as they are.
\<close>

section \<open>Documents\<close>

definition minimal_yaml :: document where
  "minimal_yaml =
     [kv ''influx'' (MapNode
        [kv ''url'' (quot ''http://localhost:8086''), kv ''org'' (quot ''testorg''),
         kv ''bucket'' (quot ''testbucket''), kv ''token_file'' (quot ''/tmp/token'')])]"

definition full_yaml :: document where
  "full_yaml =
     [kv ''influx'' (MapNode
        [kv ''url'' (quot ''http://localhost:8086''), kv ''org'' (quot ''myorg''),
         kv ''bucket'' (quot ''monitoring''), kv ''token_file'' (quot ''/run/secrets/influx_token'')]),
      kv ''probes'' (ListNode
        [MapNode [kv ''name'' (quot ''web''), kv ''type'' (quot ''http''), kv ''target'' (quot ''https://example.com''),
           kv ''interval_secs'' (NumNode 30), kv ''timeout_secs'' (NumNode 5), kv ''expected_status'' (NumNode 200)],
         MapNode [kv ''name'' (quot ''db''), kv ''type'' (quot ''tcp''), kv ''target'' (quot ''db.example.com:5432'')],
         MapNode [kv ''name'' (quot ''dns''), kv ''type'' (quot ''udp''), kv ''target'' (quot ''8.8.8.8:53'')],
         MapNode [kv ''name'' (quot ''mail-smtp''), kv ''type'' (quot ''smtp''), kv ''target'' (quot ''mail.example.com:25'')],
         MapNode [kv ''name'' (quot ''mail-imap''), kv ''type'' (quot ''imap''), kv ''target'' (quot ''mail.example.com:143'')],
         MapNode [kv ''name'' (quot ''dns-probe''), kv ''type'' (quot ''dns''), kv ''target'' (quot ''1.1.1.1:53''),
           kv ''dns_query'' (quot ''example.com''), kv ''dns_expected_ip'' (quot ''93.184.216.34'')],
         MapNode [kv ''name'' (quot ''cert''), kv ''type'' (quot ''tls''), kv ''target'' (quot ''example.com:443''),
           kv ''tls_expiry_fail_days'' (NumNode 14)]])]"

text \<open>The helper \<open>parse\<close>, and the \<open>influx\<close> block most tests write out.\<close>

definition parse_valid :: "document \<Rightarrow> (app_config \<Rightarrow> bool) \<Rightarrow> bool" where
  "parse_valid doc P \<longleftrightarrow> expect (yaml_doc doc) (\<lambda>cfg. expect (validate cfg) (\<lambda>_. P cfg))"

definition small_influx :: "document \<Rightarrow> rstr \<times> node" where
  "small_influx extra =
     kv ''influx'' (MapNode
       ([kv ''url'' (quot ''http://localhost:8086''), kv ''org'' (quot ''o''), kv ''bucket'' (quot ''b''),
         kv ''token_file'' (quot ''/tmp/t'')] @ extra))"

text \<open>A document that parses and whose validation fails with an error that contains a text.\<close>

definition refused_naming :: "document \<Rightarrow> string \<Rightarrow> bool" where
  "refused_naming doc key \<longleftrightarrow> expect (yaml_doc doc) (\<lambda>cfg. expect_err (validate cfg) (mentions key))"

declare minimal_yaml_def [reading] full_yaml_def [reading] parse_valid_def [reading] small_influx_def [reading]
  refused_naming_def [reading]

text \<open>What evaluates the validation.\<close>

lemmas validate_replay [replay] =
  validate_def validate_influx_def check_hub_capacity_def validate_listeners_def check_port_def check_api_key_file_def
  check_ui_metrics_collision_def check_health_collision_def fail_if_def bind_error_def is_http_url_def
  validate_probe_def check_expiry_days_def check_expected_status_def check_expected_ip_def validate_target_def
  needs_port_def has_port_suffix_def probe_error_def show_error_def show_probe_type_def default_port_hint_def
  addresses_contend_def health_addr_def health_bind_def f64_val_def f64_zero_def
  probe_timeout_def duration_from_secs_def

section \<open>Parsing and defaults\<close>

definition parses_minimal_config :: bool where
  "parses_minimal_config \<longleftrightarrow>
     parse_valid minimal_yaml (\<lambda>cfg.
       ic_url (ac_influx cfg) = lit ''http://localhost:8086'' \<and> ic_org (ac_influx cfg) = lit ''testorg'' \<and>
       ac_probes cfg = [])"

lemma parses_minimal_config_passes: parses_minimal_config
  by (simp add: parses_minimal_config_def reading; simp add: replay)

definition parses_full_config_all_probe_types :: bool where
  "parses_full_config_all_probe_types \<longleftrightarrow>
     parse_valid full_yaml (\<lambda>cfg.
       let p = ac_probes cfg
       in length p = 7 \<and>
          pc_probe_type (p ! 0) = Http \<and> pc_expected_status (p ! 0) = Some 200 \<and>
          pc_probe_type (p ! 1) = Tcp \<and> pc_probe_type (p ! 2) = Udp \<and> pc_probe_type (p ! 3) = Smtp \<and>
          pc_probe_type (p ! 4) = Imap \<and> pc_probe_type (p ! 5) = Dns \<and>
          pc_dns_query (p ! 5) = Some (lit ''example.com'') \<and>
          pc_dns_expected_ip (p ! 5) = Some (lit ''93.184.216.34'') \<and>
          pc_probe_type (p ! 6) = Tls \<and> pc_tls_expiry_fail_days (p ! 6) = Some (Fin False 14))"

lemma parses_full_config_all_probe_types_passes: parses_full_config_all_probe_types
  by (simp add: parses_full_config_all_probe_types_def reading; simp add: replay)

definition default_interval_and_timeout :: bool where
  "default_interval_and_timeout \<longleftrightarrow>
     parse_valid full_yaml (\<lambda>cfg.
       let tcp = ac_probes cfg ! 1
       in pc_interval_secs tcp = 30 \<and> pc_timeout_secs tcp = 5 \<and> probe_timeout tcp = duration_from_secs 5)"

lemma default_interval_and_timeout_passes: default_interval_and_timeout
  by (simp add: default_interval_and_timeout_def reading; simp add: replay)

definition default_ui_disabled :: bool where
  "default_ui_disabled \<longleftrightarrow>
     parse_valid minimal_yaml (\<lambda>cfg.
       \<not> uc_enabled (ac_ui cfg) \<and> uc_port (ac_ui cfg) = 9116 \<and> uc_bind (ac_ui cfg) = lit ''127.0.0.1'')"

lemma default_ui_disabled_passes: default_ui_disabled
  by (simp add: default_ui_disabled_def reading; simp add: replay)

definition metrics_disabled_on_loopback_9464_by_default :: bool where
  "metrics_disabled_on_loopback_9464_by_default \<longleftrightarrow>
     parse_valid minimal_yaml (\<lambda>cfg.
       \<not> mc_enabled (ac_metrics cfg) \<and> mc_bind (ac_metrics cfg) = lit ''127.0.0.1'' \<and> mc_port (ac_metrics cfg) = 9464)"

lemma metrics_disabled_on_loopback_9464_by_default_passes: metrics_disabled_on_loopback_9464_by_default
  by (simp add: metrics_disabled_on_loopback_9464_by_default_def reading; simp add: replay)

definition metrics_default_impl_matches_serde_default :: bool where
  "metrics_default_impl_matches_serde_default \<longleftrightarrow>
     parse_valid minimal_yaml (\<lambda>cfg.
       mc_enabled (ac_metrics cfg) = mc_enabled default_metrics \<and> mc_bind (ac_metrics cfg) = mc_bind default_metrics \<and>
       mc_port (ac_metrics cfg) = mc_port default_metrics)"

lemma metrics_default_impl_matches_serde_default_passes: metrics_default_impl_matches_serde_default
  by (simp add: metrics_default_impl_matches_serde_default_def reading; simp add: replay)

definition ui_default_impl_matches_serde_default :: bool where
  "ui_default_impl_matches_serde_default \<longleftrightarrow>
     parse_valid minimal_yaml (\<lambda>cfg.
       uc_enabled (ac_ui cfg) = uc_enabled default_ui \<and> uc_bind (ac_ui cfg) = uc_bind default_ui \<and>
       uc_port (ac_ui cfg) = uc_port default_ui)"

lemma ui_default_impl_matches_serde_default_passes: ui_default_impl_matches_serde_default
  by (simp add: ui_default_impl_matches_serde_default_def reading; simp add: replay)

definition default_log_pretty :: bool where
  "default_log_pretty \<longleftrightarrow>
     parse_valid minimal_yaml (\<lambda>cfg. lc_format (ac_log cfg) = Pretty \<and> lc_level (ac_log cfg) = lit ''info'')"

lemma default_log_pretty_passes: default_log_pretty
  by (simp add: default_log_pretty_def reading; simp add: replay)

definition probe_type_display :: bool where
  "probe_type_display \<longleftrightarrow>
     show_probe_type Http = lit ''http'' \<and> show_probe_type Https = lit ''https'' \<and> show_probe_type Tcp = lit ''tcp'' \<and>
     show_probe_type Udp = lit ''udp'' \<and> show_probe_type Smtp = lit ''smtp'' \<and> show_probe_type Imap = lit ''imap'' \<and>
     show_probe_type Dns = lit ''dns'' \<and> show_probe_type Tls = lit ''tls''"

lemma probe_type_display_passes: probe_type_display
  by (simp add: probe_type_display_def reading; simp add: replay)

definition default_hub_capacity_is_256 :: bool where
  "default_hub_capacity_is_256 \<longleftrightarrow>
     parse_valid minimal_yaml (\<lambda>cfg. ac_event_hub_capacity cfg = 256)"

lemma default_hub_capacity_is_256_passes: default_hub_capacity_is_256
  by (simp add: default_hub_capacity_is_256_def reading; simp add: replay)

definition default_batch_settings :: bool where
  "default_batch_settings \<longleftrightarrow>
     parse_valid minimal_yaml (\<lambda>cfg. ic_batch_size (ac_influx cfg) = 10 \<and> ic_batch_timeout_ms (ac_influx cfg) = 1000)"

lemma default_batch_settings_passes: default_batch_settings
  by (simp add: default_batch_settings_def reading; simp add: replay)

section \<open>Strict loading\<close>

definition loading_rejects_an_unknown_key :: bool where
  "loading_rejects_an_unknown_key \<longleftrightarrow>
     (case yaml_doc [small_influx [kv ''batch_sizes'' (NumNode 10)]] of
        Inl (UnknownField k _) \<Rightarrow> k = lit ''batch_sizes'' | _ \<Rightarrow> False)"

lemma loading_rejects_an_unknown_key_passes: loading_rejects_an_unknown_key
  by (simp add: loading_rejects_an_unknown_key_def reading; simp add: replay)

definition loading_rejects_an_unknown_section :: bool where
  "loading_rejects_an_unknown_section \<longleftrightarrow>
     is_err (yaml_doc [small_influx [], kv ''metric'' (MapNode [kv ''enabled'' (BoolNode True)])])"

lemma loading_rejects_an_unknown_section_passes: loading_rejects_an_unknown_section
  by (simp add: loading_rejects_an_unknown_section_def reading; simp add: replay)

definition loading_rejects_an_unknown_key_in_the_health_section :: bool where
  "loading_rejects_an_unknown_key_in_the_health_section \<longleftrightarrow>
     (case yaml_doc [small_influx [], kv ''health'' (MapNode [kv ''enabld'' (BoolNode False)])] of
        Inl (UnknownField k _) \<Rightarrow> k = lit ''enabld'' | _ \<Rightarrow> False)"

lemma loading_rejects_an_unknown_key_in_the_health_section_passes: loading_rejects_an_unknown_key_in_the_health_section
  by (simp add: loading_rejects_an_unknown_key_in_the_health_section_def reading; simp add: replay)

section \<open>Listeners\<close>

definition validation_rejects_non_ip_metrics_bind :: bool where
  "validation_rejects_non_ip_metrics_bind \<longleftrightarrow>
     refused_naming (minimal_yaml @ [kv ''metrics'' (MapNode [kv ''bind'' (quot ''localhost'')])]) ''metrics.bind''"

lemma validation_rejects_non_ip_metrics_bind_passes: validation_rejects_non_ip_metrics_bind
  by (simp add: validation_rejects_non_ip_metrics_bind_def reading; simp add: replay)

definition validation_rejects_ui_and_metrics_on_same_address :: bool where
  "validation_rejects_ui_and_metrics_on_same_address \<longleftrightarrow>
     refused_naming
       (minimal_yaml @
        [kv ''ui'' (MapNode [kv ''enabled'' (BoolNode True), kv ''port'' (NumNode 9464)]),
         kv ''metrics'' (MapNode [kv ''enabled'' (BoolNode True), kv ''port'' (NumNode 9464)])]) ''metrics.port''"

lemma validation_rejects_ui_and_metrics_on_same_address_passes: validation_rejects_ui_and_metrics_on_same_address
  by (simp add: validation_rejects_ui_and_metrics_on_same_address_def reading; simp add: replay)

definition ui_and_metrics_may_share_a_port_when_only_one_is_enabled :: bool where
  "ui_and_metrics_may_share_a_port_when_only_one_is_enabled \<longleftrightarrow>
     parse_valid
       (minimal_yaml @
        [kv ''ui'' (MapNode [kv ''port'' (NumNode 9464)]), kv ''metrics'' (MapNode [kv ''enabled'' (BoolNode True)])])
       (\<lambda>_. True)"

lemma ui_and_metrics_may_share_a_port_when_only_one_is_enabled_passes: ui_and_metrics_may_share_a_port_when_only_one_is_enabled
  by (simp add: ui_and_metrics_may_share_a_port_when_only_one_is_enabled_def reading; simp add: replay)

definition validation_rejects_empty_metrics_api_key_file_path :: bool where
  "validation_rejects_empty_metrics_api_key_file_path \<longleftrightarrow>
     refused_naming (minimal_yaml @ [kv ''metrics'' (MapNode [kv ''api_key_file'' (quot '''')])]) ''api_key_file''"

lemma validation_rejects_empty_metrics_api_key_file_path_passes: validation_rejects_empty_metrics_api_key_file_path
  by (simp add: validation_rejects_empty_metrics_api_key_file_path_def reading; simp add: replay)

definition validation_rejects_port_zero_on_an_enabled_listener :: bool where
  "validation_rejects_port_zero_on_an_enabled_listener \<longleftrightarrow>
     refused_naming [small_influx [], kv ''ui'' (MapNode [kv ''enabled'' (BoolNode True), kv ''port'' (NumNode 0)])] ''ui.port''"

lemma validation_rejects_port_zero_on_an_enabled_listener_passes: validation_rejects_port_zero_on_an_enabled_listener
  by (simp add: validation_rejects_port_zero_on_an_enabled_listener_def reading; simp add: replay)

definition validation_rejects_equivalent_ipv6_addresses_on_one_port :: bool where
  "validation_rejects_equivalent_ipv6_addresses_on_one_port \<longleftrightarrow>
     refused_naming
       [small_influx [],
        kv ''ui'' (MapNode [kv ''enabled'' (BoolNode True), kv ''bind'' (quot ''::1''), kv ''port'' (NumNode 9500)]),
        kv ''metrics'' (MapNode
          [kv ''enabled'' (BoolNode True), kv ''bind'' (quot ''0:0:0:0:0:0:0:1''), kv ''port'' (NumNode 9500)])]
       ''metrics.port''"

lemma validation_rejects_equivalent_ipv6_addresses_on_one_port_passes: validation_rejects_equivalent_ipv6_addresses_on_one_port
  by (simp add: validation_rejects_equivalent_ipv6_addresses_on_one_port_def reading; simp add: replay)

definition validation_rejects_a_wildcard_listener_against_a_loopback_one :: bool where
  "validation_rejects_a_wildcard_listener_against_a_loopback_one \<longleftrightarrow>
     refused_naming
       [small_influx [],
        kv ''ui'' (MapNode [kv ''enabled'' (BoolNode True), kv ''bind'' (quot ''0.0.0.0''), kv ''port'' (NumNode 9500)]),
        kv ''metrics'' (MapNode
          [kv ''enabled'' (BoolNode True), kv ''bind'' (quot ''127.0.0.1''), kv ''port'' (NumNode 9500)])]
       ''metrics.port''"

lemma validation_rejects_a_wildcard_listener_against_a_loopback_one_passes: validation_rejects_a_wildcard_listener_against_a_loopback_one
  by (simp add: validation_rejects_a_wildcard_listener_against_a_loopback_one_def reading; simp add: replay)

definition validation_rejects_a_wildcard_listener_on_the_health_port :: bool where
  "validation_rejects_a_wildcard_listener_on_the_health_port \<longleftrightarrow>
     expect
       (yaml_doc (minimal_yaml @
          [kv ''ui'' (MapNode [kv ''enabled'' (BoolNode True), kv ''bind'' (quot ''0.0.0.0''), kv ''port'' (NumNode 9115)])]))
       (\<lambda>cfg. expect_err (validate cfg) (\<lambda>e. mentions ''health'' e \<and> mentions ''ui'' e))"

lemma validation_rejects_a_wildcard_listener_on_the_health_port_passes: validation_rejects_a_wildcard_listener_on_the_health_port
  by (simp add: validation_rejects_a_wildcard_listener_on_the_health_port_def reading; simp add: replay)

definition an_ipv6_loopback_listener_may_use_the_health_port :: bool where
  "an_ipv6_loopback_listener_may_use_the_health_port \<longleftrightarrow>
     parse_valid
       (minimal_yaml @
        [kv ''ui'' (MapNode [kv ''enabled'' (BoolNode True), kv ''bind'' (quot ''::1''), kv ''port'' (NumNode 9115)])])
       (\<lambda>_. True)"

lemma an_ipv6_loopback_listener_may_use_the_health_port_passes: an_ipv6_loopback_listener_may_use_the_health_port
  by (simp add: an_ipv6_loopback_listener_may_use_the_health_port_def reading; simp add: replay)

definition health_bind_and_health_addr_describe_one_address :: bool where
  "health_bind_and_health_addr_describe_one_address \<longleftrightarrow>
     parse_ip health_bind = Some health_addr"

lemma health_bind_and_health_addr_describe_one_address_passes: health_bind_and_health_addr_describe_one_address
  by (simp add: health_bind_and_health_addr_describe_one_address_def reading; simp add: replay)

definition addresses_contend_covers_wildcards_without_merging_distinct_addresses :: bool where
  "addresses_contend_covers_wildcards_without_merging_distinct_addresses \<longleftrightarrow>
     (case (parse_ip (lit ''0.0.0.0''), parse_ip (lit ''::''), parse_ip (lit ''127.0.0.1''), parse_ip (lit ''::1''),
            parse_ip (lit ''192.0.2.1'')) of
        (Some v4_any, Some v6_any, Some v4_local, Some v6_local, Some v4_other) \<Rightarrow>
          addresses_contend v4_local v4_local \<and> addresses_contend v4_any v4_local \<and> addresses_contend v4_local v4_any \<and>
          addresses_contend v6_any v4_local \<and> addresses_contend v6_any v6_local \<and>
          \<not> addresses_contend v4_any v6_local \<and> \<not> addresses_contend v4_local v6_local \<and>
          \<not> addresses_contend v4_local v4_other
      | _ \<Rightarrow> False)"

lemma addresses_contend_covers_wildcards_without_merging_distinct_addresses_passes: addresses_contend_covers_wildcards_without_merging_distinct_addresses
  by (simp add: addresses_contend_covers_wildcards_without_merging_distinct_addresses_def reading; simp add: replay)

definition validation_rejects_invalid_ui_bind :: bool where
  "validation_rejects_invalid_ui_bind \<longleftrightarrow>
     expect (yaml_doc minimal_yaml) (\<lambda>cfg.
       expect_err (validate (cfg\<lparr>ac_ui := (ac_ui cfg)\<lparr>uc_bind := lit ''localhost''\<rparr>\<rparr>)) (mentions ''ui.bind''))"

lemma validation_rejects_invalid_ui_bind_passes: validation_rejects_invalid_ui_bind
  by (simp add: validation_rejects_invalid_ui_bind_def reading; simp add: replay)

definition validation_accepts_wildcard_and_ipv6_ui_bind :: bool where
  "validation_accepts_wildcard_and_ipv6_ui_bind \<longleftrightarrow>
     list_all
       (\<lambda>addr. expect (yaml_doc minimal_yaml) (\<lambda>cfg.
          is_ok (validate (cfg\<lparr>ac_ui := (ac_ui cfg)\<lparr>uc_bind := lit addr\<rparr>\<rparr>))))
       [''0.0.0.0'', ''::1'', ''::'']"

lemma validation_accepts_wildcard_and_ipv6_ui_bind_passes: validation_accepts_wildcard_and_ipv6_ui_bind
  by (simp add: validation_accepts_wildcard_and_ipv6_ui_bind_def reading; simp add: replay)

section \<open>InfluxDB and the buffers\<close>

definition validation_rejects_influx_url_without_a_scheme :: bool where
  "validation_rejects_influx_url_without_a_scheme \<longleftrightarrow>
     refused_naming
       [kv ''influx'' (MapNode [kv ''url'' (quot ''localhost:8086''), kv ''org'' (quot ''o''), kv ''bucket'' (quot ''b''),
          kv ''token_file'' (quot ''/tmp/t'')])] ''influx.url''"

lemma validation_rejects_influx_url_without_a_scheme_passes: validation_rejects_influx_url_without_a_scheme
  by (simp add: validation_rejects_influx_url_without_a_scheme_def reading; simp add: replay)

definition validation_rejects_a_retry_ceiling_below_the_first_delay :: bool where
  "validation_rejects_a_retry_ceiling_below_the_first_delay \<longleftrightarrow>
     refused_naming
       [small_influx [kv ''retry_initial_backoff_ms'' (NumNode 5000), kv ''retry_max_backoff_ms'' (NumNode 100)]]
       ''retry_max_backoff_ms''"

lemma validation_rejects_a_retry_ceiling_below_the_first_delay_passes: validation_rejects_a_retry_ceiling_below_the_first_delay
  by (simp add: validation_rejects_a_retry_ceiling_below_the_first_delay_def reading; simp add: replay)

definition validation_rejects_zero_retry_backoffs :: bool where
  "validation_rejects_zero_retry_backoffs \<longleftrightarrow>
     list_all (\<lambda>key. expect (yaml_doc [small_influx [kv key (NumNode 0)]]) (\<lambda>cfg. is_err (validate cfg)))
       [''retry_initial_backoff_ms'', ''retry_max_backoff_ms'']"

lemma validation_rejects_zero_retry_backoffs_passes: validation_rejects_zero_retry_backoffs
  by (simp add: validation_rejects_zero_retry_backoffs_def reading; simp add: replay)

definition validation_rejects_empty_url :: bool where
  "validation_rejects_empty_url \<longleftrightarrow>
     expect
       (yaml_doc [kv ''influx'' (MapNode [kv ''url'' (quot ''''), kv ''org'' (quot ''o''), kv ''bucket'' (quot ''b''),
          kv ''token_file'' (quot ''/tmp/t'')])])
       (\<lambda>cfg. is_err (validate cfg))"

lemma validation_rejects_empty_url_passes: validation_rejects_empty_url
  by (simp add: validation_rejects_empty_url_def reading; simp add: replay)

text \<open>\<open>cfg_with_probes\<close>: a document with some probes and a valid \<open>influx\<close> block.\<close>

definition cfg_with_probes :: "node list \<Rightarrow> (app_config \<Rightarrow> bool) \<Rightarrow> bool" where
  "cfg_with_probes ps P \<longleftrightarrow> expect (yaml_doc [small_influx [], kv ''probes'' (ListNode ps)]) P"

definition probe_node :: "string \<Rightarrow> string \<Rightarrow> string \<Rightarrow> document \<Rightarrow> node" where
  "probe_node name type target extra =
     MapNode ([kv ''name'' (quot name), kv ''type'' (quot type), kv ''target'' (quot target)] @ extra)"

declare cfg_with_probes_def [reading] probe_node_def [reading]

definition validation_rejects_zero_hub_capacity :: bool where
  "validation_rejects_zero_hub_capacity \<longleftrightarrow>
     cfg_with_probes [] (\<lambda>cfg. is_err (validate (cfg\<lparr>ac_event_hub_capacity := 0\<rparr>)))"

lemma validation_rejects_zero_hub_capacity_passes: validation_rejects_zero_hub_capacity
  by (simp add: validation_rejects_zero_hub_capacity_def reading; simp add: replay)

definition validation_rejects_zero_batch_size :: bool where
  "validation_rejects_zero_batch_size \<longleftrightarrow>
     cfg_with_probes [] (\<lambda>cfg. is_err (validate (cfg\<lparr>ac_influx := (ac_influx cfg)\<lparr>ic_batch_size := 0\<rparr>\<rparr>)))"

lemma validation_rejects_zero_batch_size_passes: validation_rejects_zero_batch_size
  by (simp add: validation_rejects_zero_batch_size_def reading; simp add: replay)

definition validation_rejects_zero_batch_timeout :: bool where
  "validation_rejects_zero_batch_timeout \<longleftrightarrow>
     cfg_with_probes [] (\<lambda>cfg. is_err (validate (cfg\<lparr>ac_influx := (ac_influx cfg)\<lparr>ic_batch_timeout_ms := 0\<rparr>\<rparr>)))"

lemma validation_rejects_zero_batch_timeout_passes: validation_rejects_zero_batch_timeout
  by (simp add: validation_rejects_zero_batch_timeout_def reading; simp add: replay)

definition validation_rejects_zero_max_buffered_bytes :: bool where
  "validation_rejects_zero_max_buffered_bytes \<longleftrightarrow>
     cfg_with_probes [] (\<lambda>cfg. is_err (validate (cfg\<lparr>ac_influx := (ac_influx cfg)\<lparr>ic_max_buffered_bytes := 0\<rparr>\<rparr>)))"

lemma validation_rejects_zero_max_buffered_bytes_passes: validation_rejects_zero_max_buffered_bytes
  by (simp add: validation_rejects_zero_max_buffered_bytes_def reading; simp add: replay)

section \<open>Probes\<close>

definition validation_rejects_negative_tls_expiry_fail_days :: bool where
  "validation_rejects_negative_tls_expiry_fail_days \<longleftrightarrow>
     refused_naming
       [small_influx [], kv ''probes'' (ListNode
          [probe_node ''cert'' ''tls'' ''example.com:443'' [kv ''tls_expiry_fail_days'' (NumNode (- 7))]])]
       ''tls_expiry_fail_days''"

lemma validation_rejects_negative_tls_expiry_fail_days_passes: validation_rejects_negative_tls_expiry_fail_days
  by (simp add: validation_rejects_negative_tls_expiry_fail_days_def reading; simp add: replay)

definition validation_rejects_non_finite_tls_expiry_fail_days :: bool where
  "validation_rejects_non_finite_tls_expiry_fail_days \<longleftrightarrow>
     list_all
       (\<lambda>value. refused_naming
          [small_influx [], kv ''probes'' (ListNode
             [probe_node ''cert'' ''tls'' ''example.com:443'' [kv ''tls_expiry_fail_days'' (FloatNode value)]])]
          ''tls_expiry_fail_days'')
       [NaN, Inf False]"

lemma validation_rejects_non_finite_tls_expiry_fail_days_passes: validation_rejects_non_finite_tls_expiry_fail_days
  by (simp add: validation_rejects_non_finite_tls_expiry_fail_days_def reading; simp add: replay)

definition validation_rejects_an_impossible_expected_status :: bool where
  "validation_rejects_an_impossible_expected_status \<longleftrightarrow>
     refused_naming
       [small_influx [], kv ''probes'' (ListNode
          [probe_node ''web'' ''http'' ''https://example.com'' [kv ''expected_status'' (NumNode 1000)]])]
       ''expected_status''"

lemma validation_rejects_an_impossible_expected_status_passes: validation_rejects_an_impossible_expected_status
  by (simp add: validation_rejects_an_impossible_expected_status_def reading; simp add: replay)

definition validation_rejects_an_unparseable_dns_expected_ip :: bool where
  "validation_rejects_an_unparseable_dns_expected_ip \<longleftrightarrow>
     refused_naming
       [small_influx [], kv ''probes'' (ListNode
          [probe_node ''dns'' ''dns'' ''1.1.1.1:53'' [kv ''dns_expected_ip'' (quot ''example.com'')]])]
       ''dns_expected_ip''"

lemma validation_rejects_an_unparseable_dns_expected_ip_passes: validation_rejects_an_unparseable_dns_expected_ip
  by (simp add: validation_rejects_an_unparseable_dns_expected_ip_def reading; simp add: replay)

definition validation_rejects_zero_interval :: bool where
  "validation_rejects_zero_interval \<longleftrightarrow>
     expect
       (yaml_doc [small_influx [], kv ''probes'' (ListNode
          [probe_node ''x'' ''tcp'' ''host:80'' [kv ''interval_secs'' (NumNode 0)]])])
       (\<lambda>cfg. is_err (validate cfg))"

lemma validation_rejects_zero_interval_passes: validation_rejects_zero_interval
  by (simp add: validation_rejects_zero_interval_def reading; simp add: replay)

definition validation_rejects_duplicate_probe_names :: bool where
  "validation_rejects_duplicate_probe_names \<longleftrightarrow>
     cfg_with_probes [probe_node ''dup'' ''tcp'' ''a:80'' [], probe_node ''dup'' ''tcp'' ''b:80'' []] (\<lambda>cfg.
       expect_err (validate cfg) (\<lambda>e. str_contains (show_error e) (lit ''duplicate probe name '' @ quoted (lit ''dup''))))"

lemma validation_rejects_duplicate_probe_names_passes: validation_rejects_duplicate_probe_names
  by (simp add: validation_rejects_duplicate_probe_names_def reading; simp add: replay)

definition validation_rejects_dns_target_without_port :: bool where
  "validation_rejects_dns_target_without_port \<longleftrightarrow>
     cfg_with_probes [probe_node ''d'' ''dns'' ''8.8.8.8'' []] (\<lambda>cfg.
       expect_err (validate cfg) (mentions ''must be a nameserver address with a port''))"

lemma validation_rejects_dns_target_without_port_passes: validation_rejects_dns_target_without_port
  by (simp add: validation_rejects_dns_target_without_port_def reading; simp add: replay)

definition validation_accepts_ipv6_dns_target :: bool where
  "validation_accepts_ipv6_dns_target \<longleftrightarrow>
     cfg_with_probes [probe_node ''d'' ''dns'' ''[2001:4860:4860::8888]:53'' []] (\<lambda>cfg. is_ok (validate cfg))"

lemma validation_accepts_ipv6_dns_target_passes: validation_accepts_ipv6_dns_target
  by (simp add: validation_accepts_ipv6_dns_target_def reading; simp add: replay)

definition validation_rejects_tcp_target_without_port :: bool where
  "validation_rejects_tcp_target_without_port \<longleftrightarrow>
     cfg_with_probes [probe_node ''t'' ''tcp'' ''db.example.com'' []] (\<lambda>cfg.
       expect_err (validate cfg) (mentions ''must include a port''))"

lemma validation_rejects_tcp_target_without_port_passes: validation_rejects_tcp_target_without_port
  by (simp add: validation_rejects_tcp_target_without_port_def reading; simp add: replay)

definition validation_rejects_http_target_without_scheme :: bool where
  "validation_rejects_http_target_without_scheme \<longleftrightarrow>
     cfg_with_probes [probe_node ''h'' ''http'' ''example.com:80'' []] (\<lambda>cfg.
       expect_err (validate cfg) (mentions ''absolute URL''))"

lemma validation_rejects_http_target_without_scheme_passes: validation_rejects_http_target_without_scheme
  by (simp add: validation_rejects_http_target_without_scheme_def reading; simp add: replay)

definition validation_allows_https_target_on_http_probe :: bool where
  "validation_allows_https_target_on_http_probe \<longleftrightarrow>
     cfg_with_probes [probe_node ''h'' ''http'' ''https://example.com'' []] (\<lambda>cfg. is_ok (validate cfg))"

lemma validation_allows_https_target_on_http_probe_passes: validation_allows_https_target_on_http_probe
  by (simp add: validation_allows_https_target_on_http_probe_def reading; simp add: replay)

section \<open>Control characters in names and targets\<close>

text \<open>A name or target that is not ASCII is given as its characters.\<close>

definition raw_probe_node :: "rstr \<Rightarrow> string \<Rightarrow> rstr \<Rightarrow> node" where
  "raw_probe_node name type target =
     MapNode [kv ''name'' (TextNode name), kv ''type'' (quot type), kv ''target'' (TextNode target)]"

declare raw_probe_node_def [reading]

lemmas escape_replay [replay] =
  escape_control_chars_in_names_def escape_probe_def escape_field_def rewritten_warning_def
  escape_control_chars_def escape_control_char_def is_control_def pad_zeros_def

definition control_characters_in_a_probe_name_are_rewritten_and_warned_about :: bool where
  "control_characters_in_a_probe_name_are_rewritten_and_warned_about \<longleftrightarrow>
     cfg_with_probes
       [raw_probe_node (lit ''evil'' @ [0x1B] @ lit ''[31mNAME'' @ [0x07]) ''tcp'' (lit ''a:80'')] (\<lambda>cfg.
       let (cfg', warnings) = escape_control_chars_in_names cfg
       in pc_name (ac_probes cfg' ! 0) = lit ''evil'' @ [92] @ lit ''x1b[31mNAME'' @ [92] @ lit ''x07'' \<and>
          length warnings = 1 \<and> str_contains (warnings ! 0) (lit ''probe name'') \<and> 0x1B \<notin> set (warnings ! 0))"

lemma control_characters_in_a_probe_name_are_rewritten_and_warned_about_passes: control_characters_in_a_probe_name_are_rewritten_and_warned_about
  by (simp add: control_characters_in_a_probe_name_are_rewritten_and_warned_about_def reading; simp add: replay)

definition control_characters_in_a_probe_target_are_rewritten_too :: bool where
  "control_characters_in_a_probe_target_are_rewritten_too \<longleftrightarrow>
     cfg_with_probes [raw_probe_node (lit ''p'') ''tcp'' (lit ''ho'' @ [0x1B] @ lit ''st:80'')] (\<lambda>cfg.
       let (cfg', warnings) = escape_control_chars_in_names cfg
       in pc_target (ac_probes cfg' ! 0) = lit ''ho'' @ [92] @ lit ''x1bst:80'' \<and>
          str_contains (warnings ! 0) (lit ''probe target''))"

lemma control_characters_in_a_probe_target_are_rewritten_too_passes: control_characters_in_a_probe_target_are_rewritten_too
  by (simp add: control_characters_in_a_probe_target_are_rewritten_too_def reading; simp add: replay)

definition ordinary_names_are_left_alone_and_warn_about_nothing :: bool where
  "ordinary_names_are_left_alone_and_warn_about_nothing \<longleftrightarrow>
     (let gruess = lit ''gr'' @ [0xFC, 0xDF] @ lit ''-me '' @ [0x2705]
      in cfg_with_probes
           [probe_node ''db.primary'' ''tcp'' ''a:80'' [], raw_probe_node gruess ''tcp'' (lit ''b:80'')] (\<lambda>cfg.
           let (cfg', warnings) = escape_control_chars_in_names cfg
           in pc_name (ac_probes cfg' ! 0) = lit ''db.primary'' \<and> pc_name (ac_probes cfg' ! 1) = gruess \<and>
              warnings = []))"

lemma ordinary_names_are_left_alone_and_warn_about_nothing_passes: ordinary_names_are_left_alone_and_warn_about_nothing
  by (simp add: ordinary_names_are_left_alone_and_warn_about_nothing_def reading; simp add: replay)

definition names_that_collide_only_after_escaping_are_still_rejected :: bool where
  "names_that_collide_only_after_escaping_are_still_rejected \<longleftrightarrow>
     cfg_with_probes
       [raw_probe_node (lit ''x'' @ [0x1B] @ lit ''y'') ''tcp'' (lit ''a:80''),
        raw_probe_node (lit ''x'' @ [92] @ lit ''x1by'') ''tcp'' (lit ''b:80'')] (\<lambda>cfg.
       pc_name (ac_probes cfg ! 0) \<noteq> pc_name (ac_probes cfg ! 1) \<and> is_ok (validate cfg) \<and>
       (let cfg' = fst (escape_control_chars_in_names cfg)
        in pc_name (ac_probes cfg' ! 0) = pc_name (ac_probes cfg' ! 1) \<and>
           expect_err (validate cfg') (mentions ''duplicate probe name'')))"

lemma names_that_collide_only_after_escaping_are_still_rejected_passes: names_that_collide_only_after_escaping_are_still_rejected
  by (simp add: names_that_collide_only_after_escaping_are_still_rejected_def reading; simp add: replay)

end
