(* ===== verification/Test_Environment.thy ===== *)
theory Test_Environment
  imports Test_Config
begin

text \<open>
  The unit tests of \<open>huginn-core/src/config.rs\<close> on the environment overrides and the secret files, replayed on
  the model. A temporary file is the text the test writes into it, under the path \<open>tmp\<close>.
\<close>

section \<open>Environment overrides\<close>

text \<open>\<open>with_env\<close>, around a configuration read from the minimal document: the test sees the
  configuration after \<open>apply_env_overrides\<close> and its warnings.\<close>

definition overriding ::
    "(string \<times> string) list \<Rightarrow> (app_config \<Rightarrow> app_config) \<Rightarrow> (app_config \<Rightarrow> rstr list \<Rightarrow> bool) \<Rightarrow> bool" where
  "overriding vars prepare P \<longleftrightarrow>
     expect (yaml_doc minimal_yaml) (\<lambda>cfg. let (cfg', w) = apply_env_overrides (with_env vars) (prepare cfg) in P cfg' w)"

declare overriding_def [reading]

lemmas env_replay [replay] =
  apply_env_overrides_eq overridden_def env_warnings_def from_env_def env_warning_def checked_ip_def parse_flag_def
  parse_format_def to_lowercase_def unusable_def bool_problem_def show_bool_def debug_log_format_def
  to_ascii_lowercase_char_def

definition env_override_influx_url :: bool where
  "env_override_influx_url \<longleftrightarrow>
     overriding [(''INFLUX_URL'', ''http://remotehost:8086'')] id
       (\<lambda>cfg _. ic_url (ac_influx cfg) = lit ''http://remotehost:8086'')"

lemma env_override_influx_url_passes: env_override_influx_url
  by (simp add: env_override_influx_url_def reading; simp add: replay)

definition env_override_log_format_json :: bool where
  "env_override_log_format_json \<longleftrightarrow>
     overriding [(''HUGINN_LOG_FORMAT'', ''json'')] id (\<lambda>cfg _. lc_format (ac_log cfg) = Json)"

lemma env_override_log_format_json_passes: env_override_log_format_json
  by (simp add: env_override_log_format_json_def reading; simp add: replay)

definition env_override_ui_enabled :: bool where
  "env_override_ui_enabled \<longleftrightarrow>
     overriding [(''HUGINN_UI_ENABLED'', ''true''), (''HUGINN_UI_PORT'', ''8080'')] id
       (\<lambda>cfg _. uc_enabled (ac_ui cfg) \<and> uc_port (ac_ui cfg) = 8080)"

lemma env_override_ui_enabled_passes: env_override_ui_enabled
  by (simp add: env_override_ui_enabled_def reading; simp add: replay)

definition env_override_metrics_enabled_bind_and_port :: bool where
  "env_override_metrics_enabled_bind_and_port \<longleftrightarrow>
     overriding
       [(''HUGINN_METRICS_ENABLED'', ''true''), (''HUGINN_METRICS_BIND'', ''0.0.0.0''), (''HUGINN_METRICS_PORT'', ''9999'')] id
       (\<lambda>cfg w. mc_enabled (ac_metrics cfg) \<and> mc_bind (ac_metrics cfg) = lit ''0.0.0.0'' \<and>
                mc_port (ac_metrics cfg) = 9999 \<and> w = [])"

lemma env_override_metrics_enabled_bind_and_port_passes: env_override_metrics_enabled_bind_and_port
  by (simp add: env_override_metrics_enabled_bind_and_port_def reading; simp add: replay)

definition env_override_metrics_api_key_file_sets_the_path :: bool where
  "env_override_metrics_api_key_file_sets_the_path \<longleftrightarrow>
     overriding [(''HUGINN_METRICS_API_KEY_FILE'', ''/run/secrets/metrics_api_key'')] id
       (\<lambda>cfg w. mc_api_key_file (ac_metrics cfg) = Some (lit ''/run/secrets/metrics_api_key'') \<and> w = [])"

lemma env_override_metrics_api_key_file_sets_the_path_passes: env_override_metrics_api_key_file_sets_the_path
  by (simp add: env_override_metrics_api_key_file_sets_the_path_def reading; simp add: replay)

definition env_invalid_metrics_values_warn_and_keep_previous :: bool where
  "env_invalid_metrics_values_warn_and_keep_previous \<longleftrightarrow>
     overriding
       [(''HUGINN_METRICS_ENABLED'', ''yes''), (''HUGINN_METRICS_BIND'', ''not-an-ip''), (''HUGINN_METRICS_PORT'', ''-1'')] id
       (\<lambda>cfg w. \<not> mc_enabled (ac_metrics cfg) \<and> mc_bind (ac_metrics cfg) = lit ''127.0.0.1'' \<and>
                mc_port (ac_metrics cfg) = 9464 \<and> length w = 3)"

lemma env_invalid_metrics_values_warn_and_keep_previous_passes: env_invalid_metrics_values_warn_and_keep_previous
  by (simp add: env_invalid_metrics_values_warn_and_keep_previous_def reading; simp add: replay)

definition env_ui_enabled_false_disables :: bool where
  "env_ui_enabled_false_disables \<longleftrightarrow>
     overriding [(''HUGINN_UI_ENABLED'', ''false'')] (\<lambda>cfg. cfg\<lparr>ac_ui := (ac_ui cfg)\<lparr>uc_enabled := True\<rparr>\<rparr>)
       (\<lambda>cfg w. \<not> uc_enabled (ac_ui cfg) \<and> w = [])"

lemma env_ui_enabled_false_disables_passes: env_ui_enabled_false_disables
  by (simp add: env_ui_enabled_false_disables_def reading; simp add: replay)

definition env_invalid_ui_port_warns_and_keeps_previous :: bool where
  "env_invalid_ui_port_warns_and_keeps_previous \<longleftrightarrow>
     overriding [(''HUGINN_UI_PORT'', ''not-a-port'')] id
       (\<lambda>cfg w. uc_port (ac_ui cfg) = 9116 \<and> length w = 1 \<and> str_contains (w ! 0) (lit ''HUGINN_UI_PORT''))"

lemma env_invalid_ui_port_warns_and_keeps_previous_passes: env_invalid_ui_port_warns_and_keeps_previous
  by (simp add: env_invalid_ui_port_warns_and_keeps_previous_def reading; simp add: replay)

definition env_override_ui_bind :: bool where
  "env_override_ui_bind \<longleftrightarrow>
     overriding [(''HUGINN_UI_BIND'', ''0.0.0.0'')] id (\<lambda>cfg w. uc_bind (ac_ui cfg) = lit ''0.0.0.0'' \<and> w = [])"

lemma env_override_ui_bind_passes: env_override_ui_bind
  by (simp add: env_override_ui_bind_def reading; simp add: replay)

definition env_invalid_ui_bind_warns_and_keeps_previous :: bool where
  "env_invalid_ui_bind_warns_and_keeps_previous \<longleftrightarrow>
     overriding [(''HUGINN_UI_BIND'', ''0.0.0.0.0'')] id
       (\<lambda>cfg w. uc_bind (ac_ui cfg) = lit ''127.0.0.1'' \<and> length w = 1 \<and> str_contains (w ! 0) (lit ''HUGINN_UI_BIND''))"

lemma env_invalid_ui_bind_warns_and_keeps_previous_passes: env_invalid_ui_bind_warns_and_keeps_previous
  by (simp add: env_invalid_ui_bind_warns_and_keeps_previous_def reading; simp add: replay)

definition env_invalid_ui_enabled_warns_and_keeps_previous :: bool where
  "env_invalid_ui_enabled_warns_and_keeps_previous \<longleftrightarrow>
     overriding [(''HUGINN_UI_ENABLED'', ''yes'')] (\<lambda>cfg. cfg\<lparr>ac_ui := (ac_ui cfg)\<lparr>uc_enabled := True\<rparr>\<rparr>)
       (\<lambda>cfg w. uc_enabled (ac_ui cfg) \<and> length w = 1 \<and> str_contains (w ! 0) (lit ''HUGINN_UI_ENABLED''))"

lemma env_invalid_ui_enabled_warns_and_keeps_previous_passes: env_invalid_ui_enabled_warns_and_keeps_previous
  by (simp add: env_invalid_ui_enabled_warns_and_keeps_previous_def reading; simp add: replay)

definition env_invalid_log_format_warns_and_keeps_previous :: bool where
  "env_invalid_log_format_warns_and_keeps_previous \<longleftrightarrow>
     overriding [(''HUGINN_LOG_FORMAT'', ''xml'')] (\<lambda>cfg. cfg\<lparr>ac_log := (ac_log cfg)\<lparr>lc_format := Json\<rparr>\<rparr>)
       (\<lambda>cfg w. lc_format (ac_log cfg) = Json \<and> length w = 1 \<and> str_contains (w ! 0) (lit ''HUGINN_LOG_FORMAT''))"

lemma env_invalid_log_format_warns_and_keeps_previous_passes: env_invalid_log_format_warns_and_keeps_previous
  by (simp add: env_invalid_log_format_warns_and_keeps_previous_def reading; simp add: replay)

section \<open>Secret files\<close>

text \<open>A file system that holds one file, and the mode of that file.\<close>

definition tmp_file :: "rstr \<Rightarrow> rstr \<Rightarrow> rstr + rstr" where
  "tmp_file content path =
     (if path = lit ''tmp'' then Inr content else Inl (lit ''No such file or directory (os error 2)''))"

definition tmp_mode :: "u32 \<Rightarrow> rstr \<Rightarrow> u32 option" where
  "tmp_mode mode path = (if path = lit ''tmp'' then Some mode else None)"

lemmas secret_replay [replay] =
  read_token_def read_api_key_def read_secret_def trim_def is_whitespace_def tmp_file_def tmp_mode_def
  default_metrics_def default_influx_def warn_if_readable_by_others_def show_error_def

definition metrics_api_key_is_none_when_no_file_is_configured :: bool where
  "metrics_api_key_is_none_when_no_file_is_configured \<longleftrightarrow>
     parse_valid minimal_yaml (\<lambda>cfg. fst (read_api_key (tmp_file []) (tmp_mode 0) (ac_metrics cfg)) = Inr None)"

lemma metrics_api_key_is_none_when_no_file_is_configured_passes: metrics_api_key_is_none_when_no_file_is_configured
  by (simp add: metrics_api_key_is_none_when_no_file_is_configured_def reading; simp add: replay)

definition metrics_api_key_is_read_and_trimmed_from_the_file :: bool where
  "metrics_api_key_is_read_and_trimmed_from_the_file \<longleftrightarrow>
     fst (read_api_key (tmp_file (lit ''  sekrit-key '' @ [10])) (tmp_mode 0x180)
       (default_metrics\<lparr>mc_api_key_file := Some (lit ''tmp'')\<rparr>)) = Inr (Some (lit ''sekrit-key''))"

lemma metrics_api_key_is_read_and_trimmed_from_the_file_passes: metrics_api_key_is_read_and_trimmed_from_the_file
  by (simp add: metrics_api_key_is_read_and_trimmed_from_the_file_def reading; simp add: replay)

definition metrics_api_key_missing_file_is_an_error_not_open_access :: bool where
  "metrics_api_key_missing_file_is_an_error_not_open_access \<longleftrightarrow>
     is_err (fst (read_api_key (tmp_file []) (tmp_mode 0x180)
       (default_metrics\<lparr>mc_api_key_file := Some (lit ''/nonexistent/huginn-metrics-key'')\<rparr>)))"

lemma metrics_api_key_missing_file_is_an_error_not_open_access_passes: metrics_api_key_missing_file_is_an_error_not_open_access
  by (simp add: metrics_api_key_missing_file_is_an_error_not_open_access_def reading; simp add: replay)

definition metrics_api_key_empty_file_is_an_error_not_open_access :: bool where
  "metrics_api_key_empty_file_is_an_error_not_open_access \<longleftrightarrow>
     is_err (fst (read_api_key (tmp_file (lit ''  '' @ [10])) (tmp_mode 0x180)
       (default_metrics\<lparr>mc_api_key_file := Some (lit ''tmp'')\<rparr>)))"

lemma metrics_api_key_empty_file_is_an_error_not_open_access_passes: metrics_api_key_empty_file_is_an_error_not_open_access
  by (simp add: metrics_api_key_empty_file_is_an_error_not_open_access_def reading; simp add: replay)

definition read_token_fails_for_nonexistent_file :: bool where
  "read_token_fails_for_nonexistent_file \<longleftrightarrow>
     expect (yaml_doc minimal_yaml) (\<lambda>cfg.
       expect_err
         (fst (read_token (tmp_file []) (tmp_mode 0x180)
            ((ac_influx cfg)\<lparr>ic_token_file := lit ''/nonexistent/path/to/huginn-token-xyz.txt''\<rparr>)))
         (\<lambda>e. mentions ''huginn-token-xyz'' e \<or> mentions ''token'' e))"

lemma read_token_fails_for_nonexistent_file_passes: read_token_fails_for_nonexistent_file
  by (simp add: read_token_fails_for_nonexistent_file_def reading; simp add: replay)

definition read_token_trims_whitespace :: bool where
  "read_token_trims_whitespace \<longleftrightarrow>
     expect (yaml_doc minimal_yaml) (\<lambda>cfg.
       fst (read_token (tmp_file (lit ''  mytoken  '' @ [10])) (tmp_mode 0x180)
         ((ac_influx cfg)\<lparr>ic_token_file := lit ''tmp''\<rparr>)) = Inr (lit ''mytoken''))"

lemma read_token_trims_whitespace_passes: read_token_trims_whitespace
  by (simp add: read_token_trims_whitespace_def reading; simp add: replay)

definition read_token_rejects_an_empty_file :: bool where
  "read_token_rejects_an_empty_file \<longleftrightarrow>
     list_all
       (\<lambda>content. expect (yaml_doc minimal_yaml) (\<lambda>cfg.
          expect_err
            (fst (read_token (tmp_file content) (tmp_mode 0x180) ((ac_influx cfg)\<lparr>ic_token_file := lit ''tmp''\<rparr>)))
            (mentions ''empty'')))
       [[], lit ''   '' @ [10, 9] @ lit '' '']"

lemma read_token_rejects_an_empty_file_passes: read_token_rejects_an_empty_file
  by (simp add: read_token_rejects_an_empty_file_def reading; simp add: replay)

definition env_token_file_override_applies :: bool where
  "env_token_file_override_applies \<longleftrightarrow>
     overriding [(''INFLUX_TOKEN_FILE'', ''tmp'')] id (\<lambda>cfg _.
       ic_token_file (ac_influx cfg) = lit ''tmp'' \<and>
       fst (read_token (tmp_file (lit ''envtoken'')) (tmp_mode 0x180) (ac_influx cfg)) = Inr (lit ''envtoken''))"

lemma env_token_file_override_applies_passes: env_token_file_override_applies
  by (simp add: env_token_file_override_applies_def reading; simp add: replay)

definition a_world_readable_token_file_still_loads :: bool where
  "a_world_readable_token_file_still_loads \<longleftrightarrow>
     fst (read_token (tmp_file (lit ''tok'' @ [10])) (tmp_mode 0x1A4) (default_influx\<lparr>ic_token_file := lit ''tmp''\<rparr>))
       = Inr (lit ''tok'')"

lemma a_world_readable_token_file_still_loads_passes: a_world_readable_token_file_still_loads
  by (simp add: a_world_readable_token_file_still_loads_def reading; simp add: replay)

definition a_private_token_file_loads :: bool where
  "a_private_token_file_loads \<longleftrightarrow>
     fst (read_token (tmp_file (lit ''tok'' @ [10])) (tmp_mode 0x180) (default_influx\<lparr>ic_token_file := lit ''tmp''\<rparr>))
       = Inr (lit ''tok'')"

lemma a_private_token_file_loads_passes: a_private_token_file_loads
  by (simp add: a_private_token_file_loads_def reading; simp add: replay)

end
