(* ===== verification/Test_Results.thy ===== *)
theory Test_Results
  imports Test_Support Influx_Writer
begin

text \<open>
  The unit tests of \<open>huginn-core\<close> on results, errors and counters and those of \<open>huginn-influx\<close> on line protocol,
  the write URL, the retry classification and the back-off, replayed on the model.
\<close>

section \<open>Probe results\<close>

text \<open>The clock reading of a test that looks at no time.\<close>

definition some_time :: datetime where
  "some_time = \<lparr>dt_timestamp = 1705312800, dt_timestamp_millis = 1705312800000\<rparr>"

definition backslash :: rstr where "backslash = [92]"

declare backslash_def [replay]

lemmas result_replay [replay] =
  result_success_def result_failure_def escape_control_chars_def escape_control_char_def is_control_def pad_zeros_def
  with_metric_def tls_cert_expiry_days_key_def map_of.simps

definition success_result_is_up :: bool where
  "success_result_is_up \<longleftrightarrow>
     (let r = result_success some_time (lit ''my-probe'') (lit ''tcp'') (lit ''localhost:80'') (Fin False (25 / 2)) None
      in pr_up r \<and> pr_response_ms r = Fin False (25 / 2) \<and> pr_error r = None)"

lemma success_result_is_up_passes: success_result_is_up
  by (simp add: success_result_is_up_def replay)

definition failure_result_is_down :: bool where
  "failure_result_is_down \<longleftrightarrow>
     (let r = result_failure some_time (lit ''my-probe'') (lit ''tcp'') (lit ''localhost:80'') (Fin False 5000) (lit ''timeout'')
      in \<not> pr_up r \<and> pr_error r = Some (lit ''timeout''))"

lemma failure_result_is_down_passes: failure_result_is_down
  by (simp add: failure_result_is_down_def replay)

definition failure_escapes_ansi_escapes_from_a_hostile_banner :: bool where
  "failure_escapes_ansi_escapes_from_a_hostile_banner \<longleftrightarrow>
     (let r = result_failure some_time (lit ''mail'') (lit ''smtp'') (lit ''evil:2525'') (Fin False 1)
                (lit ''unexpected banner: 5xx '' @ [0x1B] @ lit ''[31mFAKE-DOWN'' @ [0x1B] @ lit ''[0m '' @ [0x1B] @
                 lit '']0;PWNED'' @ [0x07] @ lit '' end'')
      in case pr_error r of
           None \<Rightarrow> False
         | Some err \<Rightarrow> \<not> list_ex is_control err \<and> str_contains err (backslash @ lit ''x1b[31mFAKE-DOWN'') \<and>
             str_contains err (backslash @ lit ''x07''))"

lemma failure_escapes_ansi_escapes_from_a_hostile_banner_passes: failure_escapes_ansi_escapes_from_a_hostile_banner
  by (simp add: failure_escapes_ansi_escapes_from_a_hostile_banner_def replay)

definition failure_escapes_newlines_and_carriage_returns :: bool where
  "failure_escapes_newlines_and_carriage_returns \<longleftrightarrow>
     pr_error (result_failure some_time (lit ''p'') (lit ''tcp'') (lit ''h:1'') (Fin False 1)
       (lit ''line one'' @ [13, 10] @ lit ''probe UP  fake'')) =
       Some (lit ''line one'' @ backslash @ lit ''r'' @ backslash @ lit ''nprobe UP  fake'')"

lemma failure_escapes_newlines_and_carriage_returns_passes: failure_escapes_newlines_and_carriage_returns
  by (simp add: failure_escapes_newlines_and_carriage_returns_def replay)

definition failure_leaves_ordinary_errors_untouched :: bool where
  "failure_leaves_ordinary_errors_untouched \<longleftrightarrow>
     pr_error (result_failure some_time (lit ''p'') (lit ''tcp'') (lit ''h:1'') (Fin False 1) (lit ''connection refused'')) =
       Some (lit ''connection refused'')"

lemma failure_leaves_ordinary_errors_untouched_passes: failure_leaves_ordinary_errors_untouched
  by (simp add: failure_leaves_ordinary_errors_untouched_def replay)

definition escape_control_chars_covers_c0_c1_and_del :: bool where
  "escape_control_chars_covers_c0_c1_and_del \<longleftrightarrow>
     escape_control_chars (lit ''a'' @ [0] @ lit ''b'') = lit ''a'' @ backslash @ lit ''x00b'' \<and>
     escape_control_chars (lit ''a'' @ [0x7F] @ lit ''b'') = lit ''a'' @ backslash @ lit ''x7fb'' \<and>
     escape_control_chars (lit ''a'' @ [0x9B] @ lit ''b'') = lit ''a'' @ backslash @ lit ''x9bb'' \<and>
     (let gruess = lit ''gr'' @ [0xFC, 0xDF] @ lit '' '' @ [0x2705] in escape_control_chars gruess = gruess)"

lemma escape_control_chars_covers_c0_c1_and_del_passes: escape_control_chars_covers_c0_c1_and_del
  by (simp add: escape_control_chars_covers_c0_c1_and_del_def replay)

definition with_metric_is_chainable :: bool where
  "with_metric_is_chainable \<longleftrightarrow>
     (let r = with_metric (with_metric (result_success some_time (lit ''p'') (lit ''tls'') (lit ''example.com:443'') (Fin False 5) None)
                tls_cert_expiry_days_key (Fin False 47)) (lit ''another_reading'') (Fin False 4)
      in length (pr_metrics r) = 2 \<and> map_of (pr_metrics r) (lit ''tls_cert_expiry_days'') = Some (Fin False 47))"

lemma with_metric_is_chainable_passes: with_metric_is_chainable
  by (simp add: with_metric_is_chainable_def replay)

definition metric_values_may_be_negative :: bool where
  "metric_values_may_be_negative \<longleftrightarrow>
     (let r = with_metric (result_failure some_time (lit ''p'') (lit ''tls'') (lit ''example.com:443'') (Fin False 5) (lit ''expired''))
                tls_cert_expiry_days_key (Fin True 4)
      in map_of (pr_metrics r) (lit ''tls_cert_expiry_days'') = Some (Fin True 4) \<and> \<not> pr_up r)"

lemma metric_values_may_be_negative_passes: metric_values_may_be_negative
  by (simp add: metric_values_may_be_negative_def replay)

section \<open>Errors\<close>

declare show_error_def [replay]

definition error_display_config :: bool where
  "error_display_config \<longleftrightarrow>
     mentions ''Configuration error'' (Config (lit ''missing field''))"

lemma error_display_config_passes: error_display_config
  by (simp add: error_display_config_def replay)

definition error_display_probe :: bool where
  "error_display_probe \<longleftrightarrow>
     mentions ''web'' (Probe (lit ''web'') (lit ''timeout'')) \<and> mentions ''timeout'' (Probe (lit ''web'') (lit ''timeout''))"

lemma error_display_probe_passes: error_display_probe
  by (simp add: error_display_probe_def replay)

definition error_display_secret :: bool where
  "error_display_secret \<longleftrightarrow>
     mentions ''/run/secrets/token'' (Secret (lit ''/run/secrets/token'') (lit ''not found''))"

lemma error_display_secret_passes: error_display_secret
  by (simp add: error_display_secret_def replay)

section \<open>Counters\<close>

lemmas stats_replay [replay] =
  default_stats_def set_queue_depth_def record_eviction_def record_rejected_def record_written_def stats_readers

definition counters_start_at_zero :: bool where
  "counters_start_at_zero \<longleftrightarrow>
     (let s = default_stats
      in queue_batches s = 0 \<and> queue_bytes s = 0 \<and> dropped_batches s = 0 \<and> dropped_bytes s = 0 \<and> rejected_batches s = 0 \<and>
         written_batches s = 0 \<and> written_bytes s = 0 \<and> last_write_success_unix s = 0)"

lemma counters_start_at_zero_passes: counters_start_at_zero
  by (simp add: counters_start_at_zero_def replay)

definition evictions_accumulate_batches_and_bytes :: bool where
  "evictions_accumulate_batches_and_bytes \<longleftrightarrow>
     (let s = record_eviction 80 (record_eviction 120 default_stats) in dropped_batches s = 2 \<and> dropped_bytes s = 200)"

lemma evictions_accumulate_batches_and_bytes_passes: evictions_accumulate_batches_and_bytes
  by (simp add: evictions_accumulate_batches_and_bytes_def replay)

definition rejections_are_counted_apart_from_evictions :: bool where
  "rejections_are_counted_apart_from_evictions \<longleftrightarrow>
     (let s = record_rejected default_stats in rejected_batches s = 1 \<and> dropped_batches s = 0)"

lemma rejections_are_counted_apart_from_evictions_passes: rejections_are_counted_apart_from_evictions
  by (simp add: rejections_are_counted_apart_from_evictions_def replay)

definition writes_accumulate_and_move_the_timestamp_forward :: bool where
  "writes_accumulate_and_move_the_timestamp_forward \<longleftrightarrow>
     (let s = record_written 70 1700000060 (record_written 50 1700000000 default_stats)
      in written_batches s = 2 \<and> written_bytes s = 120 \<and> last_write_success_unix s = 1700000060)"

lemma writes_accumulate_and_move_the_timestamp_forward_passes: writes_accumulate_and_move_the_timestamp_forward
  by (simp add: writes_accumulate_and_move_the_timestamp_forward_def replay)

definition queue_depth_is_replaced_rather_than_accumulated :: bool where
  "queue_depth_is_replaced_rather_than_accumulated \<longleftrightarrow>
     (let s = set_queue_depth 1 100 (set_queue_depth 3 300 default_stats) in queue_batches s = 1 \<and> queue_bytes s = 100)"

lemma queue_depth_is_replaced_rather_than_accumulated_passes: queue_depth_is_replaced_rather_than_accumulated
  by (simp add: queue_depth_is_replaced_rather_than_accumulated_def replay)

section \<open>Line protocol\<close>

text \<open>The response time of the fixture, \<open>42.123\<close>, is the double nearest to it.\<close>

definition fixed_result :: "bool \<Rightarrow> probe_result" where
  "fixed_result up =
     \<lparr>pr_probe_name = lit ''web'', pr_probe_type = lit ''http'', pr_target = lit ''https://example.com'', pr_up = up,
      pr_response_ms = Fin False (5928285221991481 / 140737488355328),
      pr_status_code = (if up then Some 200 else None), pr_error = (if up then None else Some (lit ''timeout'')),
      pr_timestamp = some_time, pr_metrics = []\<rparr>"

lemma round_half_even_eval [replay]:
  "round_half_even (numeral a / numeral b) =
     (let n = numeral a div numeral b; d = (numeral a / numeral b :: rat) - of_int n
      in if d < 1 / 2 \<or> (d = 1 / 2 \<and> even n) then n else n + 1)"
  by (simp add: round_half_even_def floor_divide_of_int_eq [where 'a = rat, of "numeral a" "numeral b", simplified])

fun str_find :: "rstr \<Rightarrow> rstr \<Rightarrow> nat option" where
  "str_find [] t = (if t = [] then Some 0 else None)"
| "str_find (c # s) t = (if starts_with (c # s) t then Some 0 else map_option Suc (str_find s t))"

definition ends_with :: "rstr \<Rightarrow> rstr \<Rightarrow> bool" where
  "ends_with s t \<longleftrightarrow> starts_with (rev s) (rev t)"

text \<open>Printing a float runs on fuel.\<close>

lemma fuel_steps:
  "decade_up (numeral n) k r = (if pow10 k \<le> r then decade_up (pred_numeral n) (k + 1) r else k)"
  "shortest_from (numeral n) m r k =
     (let x = r * pow10 (m - k); lo = \<lfloor>x\<rfloor>; e = k - m; up = reads_as r (lo + 1) e; down = reads_as r lo e
      in if up \<and> (\<not> down \<or> 1 / 2 \<le> x - of_int lo) then (lo + 1, e)
         else if down then (lo, e)
         else shortest_from (pred_numeral n) (m + 1) r k)"
  "strip_zeros (numeral n) d e = (if d mod 10 = 0 then strip_zeros (pred_numeral n) (d div 10) (e + 1) else (d, e))"
  by (simp_all add: numeral_eq_Suc)

lemma f64_round_eval [replay]:
  "numeral k \<le> (2 ^ 53 :: nat) \<Longrightarrow> f64_round s (numeral k) = Fin s (numeral k)" "f64_round s 1 = Fin s 1"
  using f64_of_nat_exact [of "numeral k"] f64_of_nat_exact [of 1]
  by (auto simp: f64_of_nat_def f64_of_int_def f64_round_def Let_def split: if_splits)

lemma floor_eval [replay]:
  "\<lfloor>numeral a / numeral b :: rat\<rfloor> = numeral a div numeral b" "\<lfloor>1 / numeral b :: rat\<rfloor> = 1 div numeral b"
  using floor_divide_of_int_eq [where 'a = rat, of "numeral a" "numeral b"] floor_divide_of_int_eq [where 'a = rat, of 1 "numeral b"] by simp_all

text \<open>The value of the metrics in these tests prints as an integer.\<close>

lemma show_small_f64 [replay]:
  "show_f64 (Fin False 47) = lit ''47''" "show_f64 (Fin False 2) = lit ''2''" "show_f64 (Fin False 1) = lit ''1''"
  by (simp_all add: show_f64_def decade_def fuel_steps pow10_def reads_as_def sign_text_def
      show_decimal_def show_uint.simps lit_simps f64_round_eval floor_eval Let_def)

declare ends_with_def [replay]

lemmas line_replay [replay] =
  render_batch_def fixed_result_def some_time_def to_line_protocol_def field_section_def metric_field_def escape_tag_def
  escape_field_str_def fmt_fixed_def sign_text_def pad_zeros_def show_int_def show_nat_def show_uint.simps

text \<open>The lines of the fixtures that are joined into a batch.\<close>

definition two_line_error :: probe_result where
  "two_line_error = (fixed_result False)\<lparr>pr_error := Some (lit ''line one'' @ [10] @ lit ''line two'')\<rparr>"

lemma fixture_lines:
  "to_line_protocol (fixed_result True) =
     lit ''probe_result,probe_name=web,probe_type=http,target=https://example.com '' @
     lit ''up=1i,response_ms=42.123,status_code=200i 1705312800000''"
  "to_line_protocol two_line_error =
     lit ''probe_result,probe_name=web,probe_type=http,target=https://example.com '' @
     lit ''up=0i,response_ms=42.123,error='' @ [34] @ lit ''line one'' @ backslash @ lit ''nline two'' @ [34] @
     lit '' 1705312800000''"
  by (simp_all add: two_line_error_def replay)

definition line_protocol_up :: bool where
  "line_protocol_up \<longleftrightarrow>
     (let line = to_line_protocol (fixed_result True)
      in starts_with line (lit ''probe_result,probe_name=web,probe_type=http'') \<and> str_contains line (lit ''up=1i'') \<and>
         str_contains line (lit ''response_ms=42.123'') \<and> str_contains line (lit ''status_code=200i'') \<and>
         \<not> str_contains line (lit ''error=''))"

lemma line_protocol_up_passes: line_protocol_up
  by (simp add: line_protocol_up_def replay)

definition line_protocol_down :: bool where
  "line_protocol_down \<longleftrightarrow>
     (let line = to_line_protocol (fixed_result False)
      in str_contains line (lit ''up=0i'') \<and> str_contains line (lit ''error='' @ [34] @ lit ''timeout'' @ [34]) \<and>
         \<not> str_contains line (lit ''status_code=''))"

lemma line_protocol_down_passes: line_protocol_down
  by (simp add: line_protocol_down_def replay)

definition line_protocol_escapes_special_chars_in_tags :: bool where
  "line_protocol_escapes_special_chars_in_tags \<longleftrightarrow>
     (let line = to_line_protocol ((fixed_result True)\<lparr>pr_probe_name := lit ''my probe,1''\<rparr>)
      in str_contains line (lit ''probe_name=my'' @ backslash @ lit '' probe'' @ backslash @ lit '',1''))"

lemma line_protocol_escapes_special_chars_in_tags_passes: line_protocol_escapes_special_chars_in_tags
  by (simp add: line_protocol_escapes_special_chars_in_tags_def replay)

definition line_protocol_never_emits_a_raw_newline_from_an_error :: bool where
  "line_protocol_never_emits_a_raw_newline_from_an_error \<longleftrightarrow>
     (let line = to_line_protocol ((fixed_result False)
            \<lparr>pr_error := Some (lit ''connect failed:'' @ [10] @ lit ''no route to host'' @ [13, 10] @ lit ''giving up'')\<rparr>)
      in 10 \<notin> set line \<and> 13 \<notin> set line \<and>
         str_contains line
           (lit ''error='' @ [34] @ lit ''connect failed:'' @ backslash @ lit ''nno route to host'' @ backslash @ lit ''r'' @
            backslash @ lit ''ngiving up'' @ [34]))"

lemma line_protocol_never_emits_a_raw_newline_from_an_error_passes: line_protocol_never_emits_a_raw_newline_from_an_error
  by (simp add: line_protocol_never_emits_a_raw_newline_from_an_error_def replay)

lemma fixture_newline_free:
  "10 \<notin> set (to_line_protocol (fixed_result True))" "10 \<notin> set (to_line_protocol two_line_error)"
  by (simp_all add: fixture_lines lit_simps backslash_def)

lemma three_lines:
  "length (split_lines (render_batch [fixed_result True, fixed_result True, fixed_result True])) = 3"
  by (simp add: render_batch_def split_lines_append split_lines_plain fixture_newline_free)

definition batch_with_newline_in_error_still_has_one_line_per_point :: bool where
  "batch_with_newline_in_error_still_has_one_line_per_point \<longleftrightarrow>
     length (split_lines (render_batch [fixed_result True, two_line_error, fixed_result True])) = 3"

lemma batch_with_newline_in_error_still_has_one_line_per_point_passes: batch_with_newline_in_error_still_has_one_line_per_point
  by (simp add: batch_with_newline_in_error_still_has_one_line_per_point_def render_batch_def split_lines_append split_lines_plain fixture_newline_free del: fixed_result_def to_line_protocol_def)

definition line_protocol_escapes_trailing_backslash_in_tag :: bool where
  "line_protocol_escapes_trailing_backslash_in_tag \<longleftrightarrow>
     (let line = to_line_protocol ((fixed_result True)\<lparr>pr_target := lit ''C:'' @ backslash @ lit ''path'' @ backslash\<rparr>)
      in str_contains line
           (lit ''target=C:'' @ backslash @ backslash @ lit ''path'' @ backslash @ backslash @ lit '' '') \<and>
         str_contains line (lit '' up=1i''))"

lemma line_protocol_escapes_trailing_backslash_in_tag_passes: line_protocol_escapes_trailing_backslash_in_tag
  by (simp add: line_protocol_escapes_trailing_backslash_in_tag_def replay)

definition line_protocol_includes_metrics :: bool where
  "line_protocol_includes_metrics \<longleftrightarrow>
     str_contains (to_line_protocol (with_metric (fixed_result True) (lit ''tls_cert_expiry_days'') (Fin False 47)))
       (lit '',tls_cert_expiry_days=47'')"

lemma line_protocol_includes_metrics_passes: line_protocol_includes_metrics
  by (simp add: line_protocol_includes_metrics_def replay)

definition line_protocol_metric_order_is_deterministic :: bool where
  "line_protocol_metric_order_is_deterministic \<longleftrightarrow>
     (let line = to_line_protocol (with_metric (with_metric (fixed_result True) (lit ''zzz_last'') (Fin False 2))
                   (lit ''aaa_first'') (Fin False 1))
      in case (str_find line (lit ''aaa_first''), str_find line (lit ''zzz_last'')) of
           (Some i, Some j) \<Rightarrow> i < j
         | _ \<Rightarrow> False)"

lemma line_protocol_metric_order_is_deterministic_passes: line_protocol_metric_order_is_deterministic
  by (simp add: line_protocol_metric_order_is_deterministic_def replay)

definition line_protocol_unchanged_without_metrics :: bool where
  "line_protocol_unchanged_without_metrics \<longleftrightarrow>
     (let line = to_line_protocol (fixed_result True)
      in \<not> str_contains line (lit '',tls_'') \<and> ends_with line (lit '' 1705312800000''))"

lemma line_protocol_unchanged_without_metrics_passes: line_protocol_unchanged_without_metrics
  by (simp add: line_protocol_unchanged_without_metrics_def replay)

section \<open>The write URL\<close>

lemmas url_replay [replay] =
  urlencode_def urlencode_byte_def unreserved_def is_ascii_alphanumeric_def hex_digit_upper_def utf8_char_def utf8_units_def

definition urlencode_encodes_utf8_bytes_not_code_points :: bool where
  "urlencode_encodes_utf8_bytes_not_code_points \<longleftrightarrow>
     urlencode (lit ''m'' @ [0xE4] @ lit ''t'') = lit ''m%C3%A4t'' \<and> urlencode (lit ''a b&c'') = lit ''a%20b%26c'' \<and>
     urlencode (lit ''plain-org_1.0~x'') = lit ''plain-org_1.0~x''"

lemma urlencode_encodes_utf8_bytes_not_code_points_passes: urlencode_encodes_utf8_bytes_not_code_points
  by (simp add: urlencode_encodes_utf8_bytes_not_code_points_def replay)

section \<open>Retrying\<close>

lemmas retry_replay [replay] =
  is_retryable_def backoff_delay_def checked_mul_def checked_shl_def duration_from_millis_def duration_from_secs_def
  duration_max_def

definition client_errors_are_permanent_server_errors_are_not :: bool where
  "client_errors_are_permanent_server_errors_are_not \<longleftrightarrow>
     list_all (\<lambda>status. \<not> is_retryable (Client status [])) [400, 401, 403, 404, 413, 422] \<and>
     list_all (\<lambda>status. is_retryable (Server status [] None)) [500, 502, 503, 504, 429, 408] \<and>
     is_retryable (Transport (lit ''refused''))"

lemma client_errors_are_permanent_server_errors_are_not_passes: client_errors_are_permanent_server_errors_are_not
  by (simp add: client_errors_are_permanent_server_errors_are_not_def replay)

definition backoff_doubles_and_is_capped :: bool where
  "backoff_doubles_and_is_capped \<longleftrightarrow>
     (let initial = duration_from_millis 500; max_delay = duration_from_secs 30
      in backoff_delay initial max_delay 0 = duration_from_millis 500 \<and>
         backoff_delay initial max_delay 1 = duration_from_secs 1 \<and>
         backoff_delay initial max_delay 2 = duration_from_secs 2 \<and>
         backoff_delay initial max_delay 6 = duration_from_secs 30 \<and>
         backoff_delay initial max_delay 99 = max_delay)"

lemma backoff_doubles_and_is_capped_passes: backoff_doubles_and_is_capped
  by (simp add: backoff_doubles_and_is_capped_def replay)

end
