(* ===== verification/Result_Document.thy ===== *)
theory Result_Document
  imports Config_Document
begin

text \<open>
  The JSON of a probe result: what \<open>#[derive(Serialize, Deserialize)]\<close> and the serde attributes of
  \<open>ProbeResult\<close> in \<open>huginn-core/src/types.rs\<close> write and read. The format is an argument on both sides: how a
  scalar becomes a node and how a node is seen as a scalar. What reads a result ignores keys it does not know,
  so the visitor differs in that from the one of the configuration.
\<close>

section \<open>Writing\<close>

record 'n node_writer =
  nw_object :: "(rstr \<times> 'n) list \<Rightarrow> 'n"
  nw_string :: "rstr \<Rightarrow> 'n"
  nw_bool :: "bool \<Rightarrow> 'n"
  nw_u16 :: "u16 \<Rightarrow> 'n"
  nw_f64 :: "f64 \<Rightarrow> 'n"
  nw_time :: "datetime \<Rightarrow> 'n"
  nw_null :: 'n

definition write_option :: "'n node_writer \<Rightarrow> ('a \<Rightarrow> 'n) \<Rightarrow> 'a option \<Rightarrow> 'n" where
  "write_option w f x = (case x of None \<Rightarrow> nw_null w | Some a \<Rightarrow> f a)"

definition result_entries :: "'n node_writer \<Rightarrow> probe_result \<Rightarrow> (rstr \<times> 'n) list" where
  "result_entries w r =
     [(lit ''probe_name'', nw_string w (pr_probe_name r)),
      (lit ''probe_type'', nw_string w (pr_probe_type r)),
      (lit ''target'', nw_string w (pr_target r)),
      (lit ''up'', nw_bool w (pr_up r)),
      (lit ''response_ms'', nw_f64 w (pr_response_ms r)),
      (lit ''status_code'', write_option w (nw_u16 w) (pr_status_code r)),
      (lit ''error'', write_option w (nw_string w) (pr_error r)),
      (lit ''timestamp'', nw_time w (pr_timestamp r))] @
     (if pr_metrics r = [] then []
      else [(lit ''metrics'', nw_object w (map (\<lambda>(k, v). (k, nw_f64 w v)) (pr_metrics r)))])"

definition result_node :: "'n node_writer \<Rightarrow> probe_result \<Rightarrow> 'n" where
  "result_node w r = nw_object w (result_entries w r)"

section \<open>Reading\<close>

fun visit_known ::
    "('n, 'e, 'r) field list \<Rightarrow> rstr list \<Rightarrow> 'r \<Rightarrow> (rstr \<times> 'n) list \<Rightarrow> 'e de_error + rstr list \<times> 'r" where
  "visit_known fs seen r [] = Inr (seen, r)"
| "visit_known fs seen r ((k, n) # es) =
     (case map_of fs k of
        None \<Rightarrow> visit_known fs seen r es
      | Some (_, rd) \<Rightarrow>
          if k \<in> set seen then Inl (DuplicateField k)
          else and_then (rd n) (\<lambda>f. visit_known fs (k # seen) (f r) es))"

definition derive_lenient ::
    "('n, 'e) yaml \<Rightarrow> ('n, 'e, 'r) field list \<Rightarrow> 'r \<Rightarrow> ('n, 'e, 'r) reader" where
  "derive_lenient y fs blank n =
     and_then (map_err LibraryError (ym_entries y n)) (\<lambda>es.
     and_then (visit_known fs [] blank es) (\<lambda>(seen, r). fill_absent fs seen r))"

text \<open>A \<open>BTreeMap\<close> takes the entries one by one.\<close>

fun read_map :: "('n, 'e, 'a) reader \<Rightarrow> 'a btree_map \<Rightarrow> (rstr \<times> 'n) list \<Rightarrow> 'e de_error + 'a btree_map" where
  "read_map rd m [] = Inr m"
| "read_map rd m ((k, n) # es) = and_then (rd n) (\<lambda>v. read_map rd (btree_insert k v m) es)"

definition metrics_reader :: "('n, 'e) yaml \<Rightarrow> ('n, 'e, f64 btree_map) reader" where
  "metrics_reader y n = and_then (scalar (ym_entries y) n) (read_map (scalar (ym_f64 y)) [])"

definition result_fields :: "('n, 'e) yaml \<Rightarrow> ('n \<Rightarrow> 'e + datetime) \<Rightarrow> ('n, 'e, probe_result) field list" where
  "result_fields y read_time =
     [field ''probe_name'' None (scalar (ym_string y)) pr_probe_name_update,
      field ''probe_type'' None (scalar (ym_string y)) pr_probe_type_update,
      field ''target'' None (scalar (ym_string y)) pr_target_update,
      field ''up'' None (scalar (ym_bool y)) pr_up_update,
      field ''response_ms'' None (scalar (ym_f64 y)) pr_response_ms_update,
      field ''status_code'' (Some None) (optional y (scalar (ym_u16 y))) pr_status_code_update,
      field ''error'' (Some None) (optional y (scalar (ym_string y))) pr_error_update,
      field ''timestamp'' None (scalar read_time) pr_timestamp_update,
      field ''metrics'' (Some []) (metrics_reader y) pr_metrics_update]"

definition blank_result :: probe_result where
  "blank_result =
     \<lparr>pr_probe_name = [], pr_probe_type = [], pr_target = [], pr_up = False, pr_response_ms = f64_zero,
      pr_status_code = None, pr_error = None, pr_timestamp = \<lparr>dt_timestamp = 0, dt_timestamp_millis = 0\<rparr>,
      pr_metrics = []\<rparr>"

definition result_of :: "('n, 'e) yaml \<Rightarrow> ('n \<Rightarrow> 'e + datetime) \<Rightarrow> ('n, 'e, probe_result) reader" where
  "result_of y read_time = derive_lenient y (result_fields y read_time) blank_result"

section \<open>What is written reads back\<close>

text \<open>
  What a format owes: a node written is seen as what it was written from. Floats are listed with the result
  that is written, since JSON has no NaN and no infinity.
\<close>

definition format_laws :: "('n, 'e) yaml \<Rightarrow> ('n \<Rightarrow> 'e + datetime) \<Rightarrow> 'n node_writer \<Rightarrow> bool" where
  "format_laws y read_time w \<longleftrightarrow>
     (\<forall>es. ym_entries y (nw_object w es) = Inr es) \<and>
     (\<forall>s. ym_string y (nw_string w s) = Inr s \<and> \<not> ym_is_null y (nw_string w s)) \<and>
     (\<forall>b. ym_bool y (nw_bool w b) = Inr b) \<and>
     (\<forall>i. ym_u16 y (nw_u16 w i) = Inr i \<and> \<not> ym_is_null y (nw_u16 w i)) \<and>
     (\<forall>t. read_time (nw_time w t) = Inr t) \<and> ym_is_null y (nw_null w)"

definition floats_read_back :: "('n, 'e) yaml \<Rightarrow> 'n node_writer \<Rightarrow> probe_result \<Rightarrow> bool" where
  "floats_read_back y w r \<longleftrightarrow>
     (\<forall>f \<in> insert (pr_response_ms r) (snd ` set (pr_metrics r)). ym_f64 y (nw_f64 w f) = Inr f)"

lemma btree_insert_last: "\<forall>x \<in> set m. fst x < k \<Longrightarrow> btree_insert k v m = m @ [(k, v)]"
  by (induction k v m rule: btree_insert.induct) auto

lemma read_map_ascending:
  "btree_wf (m @ es) \<Longrightarrow> \<forall>(k, v) \<in> set es. rd (wr v) = Inr v \<Longrightarrow>
     read_map rd m (map (\<lambda>(k, v). (k, wr v)) es) = Inr (m @ es)"
proof (induction es arbitrary: m)
  case (Cons e es)
  obtain k v where e: "e = (k, v)" by (cases e)
  have "\<forall>x \<in> set m. fst x < k" using Cons.prems(1) by (auto simp: e btree_wf_def sorted_wrt_append)
  then have "read_map rd m (map (\<lambda>(k, v). (k, wr v)) (e # es)) = read_map rd (m @ [e]) (map (\<lambda>(k, v). (k, wr v)) es)"
    using Cons.prems(2) by (simp add: e btree_insert_last)
  also have "\<dots> = Inr ((m @ [e]) @ es)" using Cons.prems by (intro Cons.IH) simp_all
  finally show ?case by simp
qed simp

lemma result_field_lookup:
  "map_of (result_fields y rt) (lit ''probe_name'') = Some (None, \<lambda>n. map_sum id (\<lambda>v. pr_probe_name_update (\<lambda>_. v)) (scalar (ym_string y) n))"
  "map_of (result_fields y rt) (lit ''probe_type'') = Some (None, \<lambda>n. map_sum id (\<lambda>v. pr_probe_type_update (\<lambda>_. v)) (scalar (ym_string y) n))"
  "map_of (result_fields y rt) (lit ''target'') = Some (None, \<lambda>n. map_sum id (\<lambda>v. pr_target_update (\<lambda>_. v)) (scalar (ym_string y) n))"
  "map_of (result_fields y rt) (lit ''up'') = Some (None, \<lambda>n. map_sum id (\<lambda>v. pr_up_update (\<lambda>_. v)) (scalar (ym_bool y) n))"
  "map_of (result_fields y rt) (lit ''response_ms'') = Some (None, \<lambda>n. map_sum id (\<lambda>v. pr_response_ms_update (\<lambda>_. v)) (scalar (ym_f64 y) n))"
  "map_of (result_fields y rt) (lit ''status_code'') = Some (Some (pr_status_code_update (\<lambda>_. None)),
     \<lambda>n. map_sum id (\<lambda>v. pr_status_code_update (\<lambda>_. v)) (optional y (scalar (ym_u16 y)) n))"
  "map_of (result_fields y rt) (lit ''error'') = Some (Some (pr_error_update (\<lambda>_. None)),
     \<lambda>n. map_sum id (\<lambda>v. pr_error_update (\<lambda>_. v)) (optional y (scalar (ym_string y)) n))"
  "map_of (result_fields y rt) (lit ''timestamp'') = Some (None, \<lambda>n. map_sum id (\<lambda>v. pr_timestamp_update (\<lambda>_. v)) (scalar rt n))"
  "map_of (result_fields y rt) (lit ''metrics'') = Some (Some (pr_metrics_update (\<lambda>_. [])),
     \<lambda>n. map_sum id (\<lambda>v. pr_metrics_update (\<lambda>_. v)) (metrics_reader y n))"
  by (simp_all add: result_fields_def field_def lit_eq_iff)

text \<open>A result reads back as it was written, with or without its optional parts.\<close>

lemma result_document_roundtrip:
  assumes "format_laws y read_time w" "floats_read_back y w r" "btree_wf (pr_metrics r)"
  shows "result_of y read_time (result_node w r) = Inr r"
proof -
  note laws = assms(1) [unfolded format_laws_def]
  have metrics: "metrics_reader y (nw_object w (map (\<lambda>(k, v). (k, nw_f64 w v)) (pr_metrics r))) = Inr (pr_metrics r)"
    using read_map_ascending [of "[]" "pr_metrics r" "scalar (ym_f64 y)" "nw_f64 w"] assms(2,3) laws
    by (force simp: metrics_reader_def scalar_def floats_read_back_def)
  have ms: "ym_f64 y (nw_f64 w (pr_response_ms r)) = Inr (pr_response_ms r)"
    using assms(2) by (simp add: floats_read_back_def)
  have status: "optional y (scalar (ym_u16 y)) (write_option w (nw_u16 w) (pr_status_code r)) = Inr (pr_status_code r)"
    using laws by (simp add: optional_def write_option_def scalar_def split: option.split)
  have error: "optional y (scalar (ym_string y)) (write_option w (nw_string w) (pr_error r)) = Inr (pr_error r)"
    using laws by (simp add: optional_def write_option_def scalar_def split: option.split)
  show ?thesis
    using laws
    by (simp add: result_of_def derive_lenient_def result_node_def result_entries_def result_field_lookup lit_eq_iff
        scalar_def [of _ "nw_string w _"] scalar_def [of _ "nw_bool w _"] scalar_def [of _ "nw_f64 w _"] scalar_def [of _ "nw_time w _"]
        metrics ms status error)
       (simp add: result_fields_def field_def lit_eq_iff blank_result_def)
qed

text \<open>Every result a probe reports has its metrics in order, so it reads back.\<close>

lemma probe_results_read_back:
  "format_laws y read_time w \<Longrightarrow> floats_read_back y w r \<Longrightarrow> result_wf r \<Longrightarrow>
     result_of y read_time (result_node w r) = Inr r"
  by (rule result_document_roundtrip) (simp_all add: result_wf_def)

text \<open>A reader of today accepts what a later version adds: keys that are not its own change nothing.\<close>

lemma visit_known_only: "visit_known fs seen r es = visit_known fs seen r (filter (\<lambda>(k, n). map_of fs k \<noteq> None) es)"
proof (induction fs seen r es rule: visit_known.induct)
  case (2 fs seen r k n es)
  then show ?case by (auto simp: and_then_def split: option.split sum.split)
qed simp

lemma unknown_keys_change_nothing:
  assumes "ym_entries y n = Inr es" "ym_entries y n' = Inr es'"
    and "filter (\<lambda>(k, n). map_of (result_fields y rt) k \<noteq> None) es = filter (\<lambda>(k, n). map_of (result_fields y rt) k \<noteq> None) es'"
  shows "result_of y rt n = result_of y rt n'"
  using assms(3) visit_known_only [of "result_fields y rt" _ _ es] visit_known_only [of "result_fields y rt" _ _ es']
  by (simp add: result_of_def derive_lenient_def assms(1,2))

end
