(* ===== verification/Test_Documents.thy ===== *)
theory Test_Documents
  imports Test_Results Result_Document
begin

text \<open>
  The unit tests of \<open>huginn-core\<close> on the JSON of a result, replayed on the model. The document is a tree of
  nodes; that a text contains a word becomes that a key or a text of the tree does.
\<close>

text \<open>A time is written as its two readings, and the time in the text of a test is read as what it stands for.\<close>

definition read_time :: "node \<Rightarrow> string + datetime" where
  "read_time n =
     (case n of
        ListNode [NumNode s, NumNode ms] \<Rightarrow> Inr \<lparr>dt_timestamp = s, dt_timestamp_millis = ms\<rparr>
      | TextNode t \<Rightarrow> if t = lit ''2024-01-15T10:00:00Z'' then Inr some_time else Inl ''not a time''
      | _ \<Rightarrow> Inl ''not a time'')"

definition plain_writer :: "node node_writer" where
  "plain_writer =
     \<lparr>nw_object = MapNode, nw_string = TextNode, nw_bool = BoolNode, nw_u16 = \<lambda>i. NumNode (uint i), nw_f64 = FloatNode,
      nw_time = \<lambda>t. ListNode [NumNode (dt_timestamp t), NumNode (dt_timestamp_millis t)], nw_null = NullNode\<rparr>"

definition to_node :: "probe_result \<Rightarrow> node" where "to_node = result_node plain_writer"

definition decoded :: "node \<Rightarrow> string de_error + probe_result" where
  "decoded = result_of plain_yaml read_time"

fun node_contains :: "node \<Rightarrow> rstr \<Rightarrow> bool" where
  "node_contains (TextNode s) t \<longleftrightarrow> str_contains s t"
| "node_contains (ListNode ns) t \<longleftrightarrow> list_ex (\<lambda>n. node_contains n t) ns"
| "node_contains (MapNode es) t \<longleftrightarrow> list_ex (\<lambda>(k, n). str_contains k t \<or> node_contains n t) es"
| "node_contains n t \<longleftrightarrow> False"

lemma plain_format: "format_laws plain_yaml read_time plain_writer"
proof -
  have "0 \<le> uint i \<and> uint i < 65536" for i :: u16 using uint_bounded [of i] by simp
  then show ?thesis by (simp add: format_laws_def plain_yaml_def plain_writer_def read_time_def)
qed

lemma plain_roundtrip: "btree_wf (pr_metrics r) \<Longrightarrow> decoded (to_node r) = Inr r"
  unfolding decoded_def to_node_def
  by (rule result_document_roundtrip [OF plain_format]) (simp_all add: floats_read_back_def plain_yaml_def plain_writer_def)

lemmas document_replay [replay] =
  to_node_def result_node_def result_entries_def plain_writer_def write_option_def

definition serialize_roundtrip :: bool where
  "serialize_roundtrip \<longleftrightarrow>
     (let r = result_success some_time (lit ''p1'') (lit ''http'') (lit ''https://example.com'') (Fin False 42) (Some 200)
      in expect (decoded (to_node r)) (\<lambda>decoded. r = decoded))"

lemma serialize_roundtrip_passes: serialize_roundtrip
  by (simp add: serialize_roundtrip_def plain_roundtrip expect_def result_success_def)

definition empty_metrics_are_absent_from_json :: bool where
  "empty_metrics_are_absent_from_json \<longleftrightarrow>
     (let r = result_success some_time (lit ''p1'') (lit ''tcp'') (lit ''host:80'') (Fin False 1) None
      in \<not> node_contains (to_node r) (lit ''metrics''))"

lemma empty_metrics_are_absent_from_json_passes: empty_metrics_are_absent_from_json
  by (simp add: empty_metrics_are_absent_from_json_def replay)

definition metrics_roundtrip_when_present :: bool where
  "metrics_roundtrip_when_present \<longleftrightarrow>
     (let r = with_metric (result_success some_time (lit ''p1'') (lit ''tls'') (lit ''example.com:443'') (Fin False 12) None)
                tls_cert_expiry_days_key (Fin False 47)
      in node_contains (to_node r) (lit ''tls_cert_expiry_days'') \<and>
         expect (decoded (to_node r)) (\<lambda>decoded. r = decoded \<and> map_of (pr_metrics decoded) (lit ''tls_cert_expiry_days'') = Some (Fin False 47)))"

lemma metrics_roundtrip_when_present_passes: metrics_roundtrip_when_present
  by (simp add: metrics_roundtrip_when_present_def plain_roundtrip btree_wf_def expect_def with_metric_def result_success_def) (simp add: replay)

definition json_without_metrics_field_deserialises :: bool where
  "json_without_metrics_field_deserialises \<longleftrightarrow>
     expect (decoded (MapNode
       [kv ''probe_name'' (quot ''p''), kv ''probe_type'' (quot ''tcp''), kv ''target'' (quot ''h:80''), kv ''up'' (BoolNode True),
        kv ''response_ms'' (FloatNode (Fin False 1)), kv ''status_code'' NullNode, kv ''error'' NullNode,
        kv ''timestamp'' (quot ''2024-01-15T10:00:00Z'')])) (\<lambda>decoded. pr_metrics decoded = [])"

lemma json_without_metrics_field_deserialises_passes: json_without_metrics_field_deserialises
  by (simp add: json_without_metrics_field_deserialises_def decoded_def result_of_def derive_lenient_def kv_def quot_def plain_yaml_def read_time_def
        result_field_lookup scalar_def optional_def)
     (simp add: result_fields_def field_def blank_result_def expect_def)

end
