(* ===== verification/Test_Queue.thy ===== *)
theory Test_Queue
  imports Test_Results Queue_Wait Batcher
begin

text \<open>
  The unit tests of the retry queue and those of the batcher and writer tasks in \<open>huginn-influx\<close>, replayed on
  the model. A batch is a new allocation, numbered in the order of the test; a task's run is the sequence
  of events the test's own scheduling brings about, and a mock server is the answer it gives.
\<close>

section \<open>The queue\<close>

definition a_batch :: "nat \<Rightarrow> string \<Rightarrow> batch" where
  "a_batch address s = \<lparr>bt_ptr = address, bt_text = lit s\<rparr>"

definition a_queue :: "nat \<Rightarrow> retry_queue" where
  "a_queue capacity = new_queue capacity default_stats"

definition front :: "retry_queue \<Rightarrow> rstr option" where
  "front q = map_option bt_text (peek q)"

definition published :: "retry_queue \<Rightarrow> u64 \<times> u64" where
  "published q = (queue_batches (rq_stats q), queue_bytes (rq_stats q))"

lemmas queue_replay [replay] =
  a_batch_def a_queue_def front_def published_def new_queue_def push_def peek_def pop_if_front_def ptr_eq_def batch_len_def
  publish_depth_def queue_len_def queue_held_bytes_def queue_is_empty_def queue_dropped_batches_def queue_dropped_bytes_def
  close_def poll_for_batch_def

definition fifo_order :: bool where
  "fifo_order \<longleftrightarrow>
     (let q = push (push (a_queue 1024) (a_batch 0 ''first'')) (a_batch 1 ''second'')
      in front q = Some (lit ''first'') \<and>
         (case pop_if_front q (the (peek q)) of
            (q1, popped) \<Rightarrow>
              popped \<and> front q1 = Some (lit ''second'') \<and>
              (case pop_if_front q1 (the (peek q1)) of (q2, popped') \<Rightarrow> popped' \<and> peek q2 = None)))"

lemma fifo_order_passes: fifo_order
  by (simp add: fifo_order_def replay)

definition pop_if_front_ignores_a_batch_that_is_no_longer_front :: bool where
  "pop_if_front_ignores_a_batch_that_is_no_longer_front \<longleftrightarrow>
     (let q1 = push (a_queue 12) (a_batch 0 ''aaaaa''); held = the (peek q1);
          q = push (push q1 (a_batch 1 ''bbbbb'')) (a_batch 2 ''ccccc'')
      in case pop_if_front q held of
           (q', popped) \<Rightarrow> \<not> popped \<and> front q' = Some (lit ''bbbbb'') \<and> queue_len q' = 2)"

lemma pop_if_front_ignores_a_batch_that_is_no_longer_front_passes: pop_if_front_ignores_a_batch_that_is_no_longer_front
  by (simp add: pop_if_front_ignores_a_batch_that_is_no_longer_front_def replay)

definition peek_does_not_remove :: bool where
  "peek_does_not_remove \<longleftrightarrow>
     (let q = push (a_queue 1024) (a_batch 0 ''only'')
      in front q = Some (lit ''only'') \<and> queue_len q = 1)"

lemma peek_does_not_remove_passes: peek_does_not_remove
  by (simp add: peek_does_not_remove_def replay)

definition eviction_drops_oldest_not_newest :: bool where
  "eviction_drops_oldest_not_newest \<longleftrightarrow>
     (let q = push (push (push (a_queue 12) (a_batch 0 ''aaaaa'')) (a_batch 1 ''bbbbb'')) (a_batch 2 ''ccccc'')
      in queue_len q = 2 \<and> front q = Some (lit ''bbbbb'') \<and>
         (case pop_if_front q (the (peek q)) of
            (q', popped) \<Rightarrow> popped \<and> front q' = Some (lit ''ccccc'') \<and> queue_dropped_batches q' = 1 \<and> queue_dropped_bytes q' = 5))"

lemma eviction_drops_oldest_not_newest_passes: eviction_drops_oldest_not_newest
  by (simp add: eviction_drops_oldest_not_newest_def replay)

definition published_depth_follows_the_queue_through_push_pop_and_eviction :: bool where
  "published_depth_follows_the_queue_through_push_pop_and_eviction \<longleftrightarrow>
     (let q1 = push (a_queue 12) (a_batch 0 ''aaaaa''); q2 = push q1 (a_batch 1 ''bbbbb''); q3 = push q2 (a_batch 2 ''ccccc'')
      in published q1 = (1, 5) \<and> published q2 = (2, 10) \<and> published q3 = (2, 10) \<and>
         dropped_batches (rq_stats q3) = 1 \<and> dropped_bytes (rq_stats q3) = 5 \<and>
         (case pop_if_front q3 (the (peek q3)) of (q4, popped) \<Rightarrow> popped \<and> published q4 = (1, 5)))"

lemma published_depth_follows_the_queue_through_push_pop_and_eviction_passes: published_depth_follows_the_queue_through_push_pop_and_eviction
  by (simp add: published_depth_follows_the_queue_through_push_pop_and_eviction_def replay)

definition a_refused_pop_leaves_the_published_depth_alone :: bool where
  "a_refused_pop_leaves_the_published_depth_alone \<longleftrightarrow>
     (let q1 = push (a_queue 12) (a_batch 0 ''aaaaa''); held = the (peek q1);
          q = push (push q1 (a_batch 1 ''bbbbb'')) (a_batch 2 ''ccccc'')
      in case pop_if_front q held of (q', popped) \<Rightarrow> \<not> popped \<and> published q' = published q)"

lemma a_refused_pop_leaves_the_published_depth_alone_passes: a_refused_pop_leaves_the_published_depth_alone
  by (simp add: a_refused_pop_leaves_the_published_depth_alone_def replay)

definition bytes_tracks_contents :: bool where
  "bytes_tracks_contents \<longleftrightarrow>
     (let q0 = a_queue 1024; q1 = push q0 (a_batch 0 ''12345''); q2 = push q1 (a_batch 1 ''123'')
      in queue_held_bytes q0 = 0 \<and> queue_held_bytes q1 = 5 \<and> queue_held_bytes q2 = 8 \<and>
         (case pop_if_front q2 (the (peek q2)) of (q3, popped) \<Rightarrow> popped \<and> queue_held_bytes q3 = 3))"

lemma bytes_tracks_contents_passes: bytes_tracks_contents
  by (simp add: bytes_tracks_contents_def replay)

definition oversized_single_batch_is_still_queued :: bool where
  "oversized_single_batch_is_still_queued \<longleftrightarrow>
     (let q = push (a_queue 4) (a_batch 0 ''way too long for this queue'') in queue_len q = 1 \<and> peek q \<noteq> None)"

lemma oversized_single_batch_is_still_queued_passes: oversized_single_batch_is_still_queued
  by (simp add: oversized_single_batch_is_still_queued_def replay)

definition wait_for_batch_returns_none_once_closed_and_empty :: bool where
  "wait_for_batch_returns_none_once_closed_and_empty \<longleftrightarrow>
     poll_for_batch (close (a_queue 1024)) = Ready None"

lemma wait_for_batch_returns_none_once_closed_and_empty_passes: wait_for_batch_returns_none_once_closed_and_empty
  by (simp add: wait_for_batch_returns_none_once_closed_and_empty_def replay)

definition wait_for_batch_drains_before_reporting_closed :: bool where
  "wait_for_batch_drains_before_reporting_closed \<longleftrightarrow>
     (let q = close (push (a_queue 1024) (a_batch 0 ''pending''))
      in case poll_for_batch q of
           Ready (Some b) \<Rightarrow>
             bt_text b = lit ''pending'' \<and>
             (case pop_if_front q b of (q', popped) \<Rightarrow> popped \<and> poll_for_batch q' = Ready None)
         | _ \<Rightarrow> False)"

lemma wait_for_batch_drains_before_reporting_closed_passes: wait_for_batch_drains_before_reporting_closed
  by (simp add: wait_for_batch_drains_before_reporting_closed_def replay)

section \<open>The batcher\<close>

text \<open>The hub of these tests closes; what the subscriber saw before is what the test published.\<close>

definition a_batcher :: "batcher" where
  "a_batcher = batcher_start 0 (duration_from_millis 60000) (a_queue (1024 * 1024))"

definition run_to_close :: "timed_event list \<Rightarrow> batcher" where
  "run_to_close evs = run_batcher 10 (duration_from_millis 60000) a_batcher evs"

lemmas batcher_replay [replay] =
  a_batcher_def run_to_close_def batcher_start_def batcher_step_def flush_def enqueue_def

definition batcher_exits_cleanly_when_hub_closed :: bool where
  "batcher_exits_cleanly_when_hub_closed \<longleftrightarrow>
     (let s = run_to_close [(0, 0, ChannelClosed)] in \<not> bb_running s \<and> queue_is_empty (bb_queue s))"

lemma batcher_exits_cleanly_when_hub_closed_passes: batcher_exits_cleanly_when_hub_closed
  by (simp add: batcher_exits_cleanly_when_hub_closed_def replay)

definition batcher_survives_lagged_events :: bool where
  "batcher_survives_lagged_events \<longleftrightarrow>
     (let s = run_to_close
            [(0, 0, ChannelLagged 4), (0, 0, Received (ProbeCompleted (fixed_result True))), (0, 1, ChannelClosed)]
      in \<not> bb_running s)"

lemma batcher_survives_lagged_events_passes: batcher_survives_lagged_events
  by (simp add: batcher_survives_lagged_events_def replay)

definition batcher_queues_partial_batch_on_close :: bool where
  "batcher_queues_partial_batch_on_close \<longleftrightarrow>
     (let event = Received (ProbeCompleted (fixed_result True));
          s = run_to_close [(0, 0, event), (0, 1, event), (0, 2, event), (50000000, 3, ChannelClosed)]
      in \<not> bb_running s \<and> queue_len (bb_queue s) = 1 \<and>
         (case peek (bb_queue s) of Some b \<Rightarrow> length (split_lines (bt_text b)) = 3 | None \<Rightarrow> False))"

lemma batcher_queues_partial_batch_on_close_passes: batcher_queues_partial_batch_on_close
  by (simp add: batcher_queues_partial_batch_on_close_def three_lines replay del: fixed_result_def to_line_protocol_def render_batch_def)

section \<open>The writer\<close>

text \<open>
  \<open>run_writer\<close> on a queue that holds one batch, with a first delay of 1 ms and a ceiling of 10 ms, against a
  server that answers every attempt, until the loop has ended or the steps are used up.
\<close>

definition start_writer :: "bool \<Rightarrow> writer_state" where
  "start_writer done_pushing =
     \<lparr>wr_queue = (let q = push (a_queue (1024 * 1024)) (a_batch 0 ''probe_result,probe_name=x up=1i 1'')
                  in if done_pushing then close q else q),
      wr_pc = AtQueue, wr_shutdown = False\<rparr>"

definition answer :: "u16 \<Rightarrow> string \<Rightarrow> write_error + unit" where
  "answer status body = classify_response \<lparr>hr_status = status, hr_retry_after = None, hr_body = Some (lit body)\<rparr>"

definition run_against :: "(u32 \<Rightarrow> write_error + unit) \<Rightarrow> nat \<Rightarrow> writer_state \<Rightarrow> writer_state" where
  "run_against srv steps st =
     drain_run (duration_from_millis 1) (duration_from_millis 10) (\<lambda>_. srv) (Some 1705312800) steps st"

lemma drain_run_numeral [replay]:
  "drain_run i m srv now (numeral n) st =
     drain_run i m srv now (pred_numeral n) (writer_step i m (next_event srv now st) st)"
  by (simp add: numeral_eq_Suc)

lemmas writer_replay [replay] =
  start_writer_def answer_def run_against_def classify_response_def is_success_def next_event_def writer_step_def write_done_def
  finish_write_def now_unix_def saturating_succ_def retry_delay_def retry_after_secs_def

definition permanent_error_discards_the_batch_and_unblocks_the_queue :: bool where
  "permanent_error_discards_the_batch_and_unblocks_the_queue \<longleftrightarrow>
     (let st = run_against (\<lambda>_. answer 401 ''unauthorized'') 4 (start_writer True); stats = rq_stats (wr_queue st)
      in wr_pc st = Exited \<and> queue_is_empty (wr_queue st) \<and> rejected_batches stats = 1 \<and> dropped_batches stats = 0 \<and>
         written_batches stats = 0 \<and> last_write_success_unix stats = 0)"

lemma permanent_error_discards_the_batch_and_unblocks_the_queue_passes: permanent_error_discards_the_batch_and_unblocks_the_queue
  by (simp add: permanent_error_discards_the_batch_and_unblocks_the_queue_def replay)

definition a_successful_write_is_counted_and_timestamped :: bool where
  "a_successful_write_is_counted_and_timestamped \<longleftrightarrow>
     (let st = run_against (\<lambda>_. answer 204 '''') 4 (start_writer True); stats = rq_stats (wr_queue st)
      in wr_pc st = Exited \<and> written_batches stats = 1 \<and>
         written_bytes stats = of_nat (length ''probe_result,probe_name=x up=1i 1'') \<and> rejected_batches stats = 0 \<and>
         1705312800 \<le> last_write_success_unix stats \<and> queue_batches stats = 0)"

lemma a_successful_write_is_counted_and_timestamped_passes: a_successful_write_is_counted_and_timestamped
  by (simp add: a_successful_write_is_counted_and_timestamped_def replay)

definition transient_error_is_retried_until_it_succeeds :: bool where
  "transient_error_is_retried_until_it_succeeds \<longleftrightarrow>
     (let srv = (\<lambda>n. if n < 2 then answer 503 ''unavailable'' else answer 204 '''');
          third = run_against srv 5 (start_writer True); st = run_against srv 7 (start_writer True)
      in (case wr_pc third of Sending _ n \<Rightarrow> n = 2 | _ \<Rightarrow> False) \<and> wr_pc st = Exited \<and> queue_is_empty (wr_queue st))"

lemma transient_error_is_retried_until_it_succeeds_passes: transient_error_is_retried_until_it_succeeds
  by (simp add: transient_error_is_retried_until_it_succeeds_def replay)

definition shutdown_during_backoff_stops_the_writer :: bool where
  "shutdown_during_backoff_stops_the_writer \<longleftrightarrow>
     (let step = writer_step (duration_from_millis 10000) (duration_from_millis 60000);
          sleeping = step (WriteDone (answer 503 '''') None) (step PollQueue (start_writer False))
      in (case wr_pc sleeping of BackingOff _ _ _ \<Rightarrow> True | _ \<Rightarrow> False) \<and>
         wr_pc (step SawShutdown (step ShutdownSent sleeping)) = Exited)"

lemma shutdown_during_backoff_stops_the_writer_passes: shutdown_during_backoff_stops_the_writer
  by (simp add: shutdown_during_backoff_stops_the_writer_def replay)

section \<open>Writing to the server\<close>

text \<open>The token file of these tests, and the configuration that names it.\<close>

definition token_config :: "string \<Rightarrow> string \<Rightarrow> influx_config" where
  "token_config org bucket =
     default_influx\<lparr>ic_url := lit ''http://127.0.0.1:8086'', ic_org := lit org, ic_bucket := lit bucket,
       ic_token_file := lit ''tmp'', ic_batch_size := 10, ic_batch_timeout_ms := 1000\<rparr>"

definition write_with_token :: "string \<Rightarrow> (http_request \<Rightarrow> rstr + http_response) \<Rightarrow> influx_config \<Rightarrow> write_error + unit" where
  "write_with_token token server cfg =
     (case new_writer (\<lambda>_. Inr (lit token)) (\<lambda>_. None) (Inr ()) cfg of
        Inr w \<Rightarrow> write_lines server w (to_line_protocol (fixed_result True))
      | Inl _ \<Rightarrow> Inl (Transport []))"

lemmas write_replay [replay] =
  token_config_def write_with_token_def new_writer_def read_token_def read_secret_def trim_def is_whitespace_def
  warn_if_readable_by_others_def default_influx_def write_url_def trim_end_matches_def write_lines_def write_request_def

definition writer_posts_to_influx :: bool where
  "writer_posts_to_influx \<longleftrightarrow>
     is_ok (write_with_token ''mytoken''
       (\<lambda>req. if starts_with (hq_url req) (lit ''http://127.0.0.1:8086/api/v2/write?'') \<and>
                 map_of (hq_headers req) (lit ''Authorization'') \<noteq> None
              then Inr \<lparr>hr_status = 204, hr_retry_after = None, hr_body = Some []\<rparr>
              else Inr \<lparr>hr_status = 404, hr_retry_after = None, hr_body = Some []\<rparr>)
       (token_config ''testorg'' ''testbucket''))"

lemma writer_posts_to_influx_passes: writer_posts_to_influx
  by (simp add: writer_posts_to_influx_def replay)

definition writer_returns_error_on_non_2xx :: bool where
  "writer_returns_error_on_non_2xx \<longleftrightarrow>
     is_err (write_with_token ''bad-token''
       (\<lambda>_. Inr \<lparr>hr_status = 401, hr_retry_after = None, hr_body = Some (lit ''unauthorized'')\<rparr>)
       (token_config ''o'' ''b''))"

lemma writer_returns_error_on_non_2xx_passes: writer_returns_error_on_non_2xx
  by (simp add: writer_returns_error_on_non_2xx_def replay)

end
