(* ===== verification/Test_Web.thy ===== *)
theory Test_Web
  imports Test_Results Http_Listeners
begin

text \<open>
  The unit tests of \<open>huginn-web\<close>, replayed on the model: security headers, the stored results, the metrics
  exposition and its key, the handlers. A hash map is its entries in one order of iteration; the two tests
  with several probes fix that order.
\<close>

section \<open>Long texts\<close>

text \<open>
  The exposition runs to thousands of characters. What is searched in it is found in two steps: the text is
  worked out first, and the search then walks over it without looking at the rest at every step.
\<close>

fun text_before :: "rstr \<Rightarrow> rstr \<Rightarrow> rstr" where
  "text_before [] t = []"
| "text_before (c # s) t = (if starts_with (c # s) t then [] else c # text_before s t)"

fun occurrences :: "rstr \<Rightarrow> rstr \<Rightarrow> nat" where
  "occurrences [] t = 0"
| "occurrences (c # s) t = (if starts_with (c # s) t then Suc (occurrences s t) else occurrences s t)"

lemma contains_steps:
  "str_contains [] [] = True" "str_contains [] (d # t) = False"
  "str_contains (c # s) t = (if starts_with (c # s) t then True else str_contains s t)"
  "starts_with s [] = True" "starts_with [] (d # t) = False"
  "starts_with (c # s) (d # t) = (if c = d then starts_with s t else False)"
  by (simp_all add: starts_with_eval)

lemma search_congs:
  "str_contains s t = str_contains s t" "starts_with s t = starts_with s t" "text_before s t = text_before s t"
  "occurrences s t = occurrences s t" "str_find s t = str_find s t"
  by (rule refl)+

declare str_contains.simps [simp del] text_before.simps [simp del] occurrences.simps [simp del] str_find.simps [simp del]

lemmas before_congs = search_congs(2,3)
lemmas search_before = contains_steps(4,5,6) text_before.simps
lemmas search = contains_steps text_before.simps occurrences.simps str_find.simps

section \<open>Security headers\<close>

definition applied :: header_map where "applied = apply_security_headers []"

definition the_value :: "header_map \<Rightarrow> string \<Rightarrow> rstr" where
  "the_value hs name = (case header_values hs (lit name) of v # _ \<Rightarrow> v | [] \<Rightarrow> [])"

lemmas header_replay [replay] =
  applied_def the_value_def header_values_def apply_security_headers_def header_insert_def security_headers_table_def
  csp_def

definition csp_denies_everything_but_same_origin_script_and_style :: bool where
  "csp_denies_everything_but_same_origin_script_and_style \<longleftrightarrow>
     (let csp = the_value applied ''content-security-policy''
      in str_contains csp (lit ''default-src '' @ quoted (lit ''none'')) \<and>
         str_contains csp (lit ''script-src '' @ quoted (lit ''self'')) \<and>
         str_contains csp (lit ''style-src '' @ quoted (lit ''self'')) \<and>
         str_contains csp (lit ''connect-src '' @ quoted (lit ''self'')) \<and>
         str_contains csp (lit ''frame-ancestors '' @ quoted (lit ''none'')))"

lemma csp_denies_everything_but_same_origin_script_and_style_passes: csp_denies_everything_but_same_origin_script_and_style
  by (simp add: csp_denies_everything_but_same_origin_script_and_style_def replay) (simp add: search)

definition csp_never_allows_inline_script :: bool where
  "csp_never_allows_inline_script \<longleftrightarrow>
     (let csp = the_value applied ''content-security-policy''
      in \<not> str_contains csp (lit ''unsafe-inline'') \<and> \<not> str_contains csp (lit ''unsafe-eval''))"

lemma csp_never_allows_inline_script_passes: csp_never_allows_inline_script
  by (simp add: csp_never_allows_inline_script_def replay) (simp add: search cong: search_congs)

definition hardening_headers_are_set :: bool where
  "hardening_headers_are_set \<longleftrightarrow>
     (let headers = applied
      in the_value headers ''x-content-type-options'' = lit ''nosniff'' \<and>
         the_value headers ''x-frame-options'' = lit ''DENY'' \<and>
         the_value headers ''referrer-policy'' = lit ''no-referrer'' \<and>
         the_value headers ''cache-control'' = lit ''no-store'')"

lemma hardening_headers_are_set_passes: hardening_headers_are_set
  by (simp add: hardening_headers_are_set_def replay)

definition existing_values_are_replaced_not_appended :: bool where
  "existing_values_are_replaced_not_appended \<longleftrightarrow>
     (let headers = apply_security_headers (header_insert [] (lit ''cache-control'', lit ''public,max-age=60''))
      in length (header_values headers (lit ''cache-control'')) = 1 \<and>
         the_value headers ''cache-control'' = lit ''no-store'')"

lemma existing_values_are_replaced_not_appended_passes: existing_values_are_replaced_not_appended
  by (simp add: existing_values_are_replaced_not_appended_def replay)

section \<open>The stored results\<close>

text \<open>The event loop takes the events as they were published; the two states of a test are the one it ends in.\<close>

definition stored :: "string \<Rightarrow> f64 \<Rightarrow> probe_result" where
  "stored name ms = result_success some_time (lit name) (lit ''http'') (lit ''https://example.com'') ms (Some 200)"

definition after_events :: "(probe_result \<Rightarrow> rstr option) \<Rightarrow> probe_event list \<Rightarrow> web_state" where
  "after_events to_json es = event_loop to_json (new_web_state default_stats) (map RecvOk es)"

lemmas state_replay [replay] = stored_def after_events_def new_web_state_def

definition event_loop_inserts_result_on_probe_completed :: bool where
  "event_loop_inserts_result_on_probe_completed \<longleftrightarrow>
     (let results = wb_results (after_events (\<lambda>_. None) [ProbeCompleted (stored ''web'' (Fin False 5))])
      in case map_of results (lit ''web'') of
           None \<Rightarrow> False
         | Some r \<Rightarrow> pr_probe_name r = lit ''web'')"

lemma event_loop_inserts_result_on_probe_completed_passes: event_loop_inserts_result_on_probe_completed
  by (simp add: event_loop_inserts_result_on_probe_completed_def replay)

definition event_loop_updates_existing_probe_keeps_latest :: bool where
  "event_loop_updates_existing_probe_keeps_latest \<longleftrightarrow>
     (let r1 = (stored ''db'' (Fin False 5))\<lparr>pr_response_ms := Fin False 10\<rparr>;
          r2 = (stored ''db'' (Fin False 5))\<lparr>pr_response_ms := Fin False 99\<rparr>;
          results = wb_results (after_events (\<lambda>_. None) [ProbeCompleted r1, ProbeCompleted r2])
      in length results = 1 \<and>
         (case map_of results (lit ''db'') of None \<Rightarrow> False | Some r \<Rightarrow> pr_response_ms r = Fin False 99))"

lemma event_loop_updates_existing_probe_keeps_latest_passes: event_loop_updates_existing_probe_keeps_latest
  by (simp add: event_loop_updates_existing_probe_keeps_latest_def replay)

section \<open>The exposition\<close>

text \<open>The map of a test that iterates over it once.\<close>

definition rendered :: "probe_result list \<Rightarrow> rstr" where
  "rendered results = render results default_stats"

definition render_probes :: "probe_result list \<Rightarrow> rstr" where
  "render_probes results =
     (let full = rendered results; mark = lit ''# HELP huginn_influx_'' in text_before full mark)"

definition in_quotes :: "string \<Rightarrow> rstr" where
  "in_quotes s = [34] @ lit s @ [34]"

definition labels :: "string \<Rightarrow> string \<Rightarrow> string \<Rightarrow> rstr" where
  "labels probe kind target =
     lit ''{probe='' @ in_quotes probe @ lit '',type='' @ in_quotes kind @ lit '',target='' @ in_quotes target @ lit ''}''"

lemmas exposition_replay [replay] =
  render_probes_def rendered_def render_def render_family_def family_header_def sample_line_def gauge_def counter_def extra_families_def extra_samples_def entry_push_def
  escape_label_def escape_label_char_def sanitize_metric_name_def labels_def in_quotes_def is_ascii_alphanumeric_def success_value_def
  List.map_filter_simps

lemmas write_path_replay = render_write_path_def render_scalar_def default_stats_def

text \<open>What these tests cut off begins with the write path's first header.\<close>

lemma before_write_path [replay]:
  "text_before (render_write_path s)
    [35, 32, 72, 69, 76, 80, 32, 104, 117, 103, 105, 110, 110, 95, 105, 110, 102, 108, 117,
     120, 95] = []"
  by (simp add: render_write_path_def render_scalar_def family_header_def lit_simps text_before.simps starts_with_eval)


lemma binadeI: "pow2 e \<le> r \<Longrightarrow> r < pow2 (e + 1) \<Longrightarrow> binade r = e"
proof (rule antisym)
  assume r: "pow2 e \<le> r" "r < pow2 (e + 1)"
  then have "0 < r" using pow2_pos [of e] by linarith
  note b = binade_bounds [OF this]
  show "binade r \<le> e"
  proof (rule ccontr)
    assume "\<not> ?thesis"
    then have "pow2 (e + 1) \<le> pow2 (binade r)" by (intro pow2_mono) simp
    with r(2) b(1) show False by linarith
  qed
  show "e \<le> binade r"
  proof (rule ccontr)
    assume "\<not> ?thesis"
    then have "pow2 (binade r + 1) \<le> pow2 e" by (intro pow2_mono) simp
    with r(1) b(2) show False by linarith
  qed
qed

text \<open>A double that is not an integer, by its binary exponent.\<close>

lemma f64_round_at:
  assumes "pow2 e \<le> r" "r < pow2 (e + 1)" "- 1022 \<le> e"
    and "round_half_even (r / pow2 (e - 52)) = n" "of_int n * pow2 (e - 52) = m" "m < 2 ^ 1024"
  shows "f64_round s r = Fin s m"
proof -
  have "ulp_exponent r = e - 52" using assms(3) by (simp add: ulp_exponent_def binadeI [OF assms(1,2)])
  moreover have "r \<noteq> 0" using assms(1) pow2_pos [of e] by linarith
  ultimately show ?thesis using assms(4-6) by (simp add: f64_round_def Let_def)
qed

text \<open>The decimals that occur, and those next to them that the printing rules out.\<close>

lemma rounded:
  "f64_round s (1 / 25) = Fin s (5764607523034235 / 144115188075855872)"
  "f64_round s (1 / 20) = Fin s (3602879701896397 / 72057594037927936)"
  "f64_round s (21 / 500) = Fin s (6052837899185947 / 144115188075855872)"
  "f64_round s (43 / 1000) = Fin s (3098476543630901 / 72057594037927936)"
  "f64_round s (17 / 400) = Fin s (6124895493223875 / 144115188075855872)"
  "f64_round s (213 / 5000) = Fin s (1534826753007865 / 36028797018963968)"
  "f64_round s (1 / 1000) = Fin s (1152921504606847 / 1152921504606846976)"
  "f64_round s (1 / 500) = Fin s (1152921504606847 / 576460752303423488)"
  "f64_round s (3 / 1000) = Fin s (3458764513820541 / 1152921504606846976)"
  "f64_round s (1 / 100) = Fin s (5764607523034235 / 576460752303423488)"
  "f64_round s (1 / 50) = Fin s (5764607523034235 / 288230376151711744)"
  "f64_round s (9 / 2) = Fin s (9 / 2)"
  "f64_round s (23 / 5) = Fin s (2589569785738035 / 562949953421312)"
proof -
  note binary = pow2_def round_half_even_def floor_eval Let_def
  show "f64_round s (1 / 25) = Fin s (5764607523034235 / 144115188075855872)"
    by (rule f64_round_at [where e = "-5" and n = 5764607523034235]) (simp_all add: binary)
  show "f64_round s (1 / 20) = Fin s (3602879701896397 / 72057594037927936)"
    by (rule f64_round_at [where e = "-5" and n = 7205759403792794]) (simp_all add: binary)
  show "f64_round s (21 / 500) = Fin s (6052837899185947 / 144115188075855872)"
    by (rule f64_round_at [where e = "-5" and n = 6052837899185947]) (simp_all add: binary)
  show "f64_round s (43 / 1000) = Fin s (3098476543630901 / 72057594037927936)"
    by (rule f64_round_at [where e = "-5" and n = 6196953087261802]) (simp_all add: binary)
  show "f64_round s (17 / 400) = Fin s (6124895493223875 / 144115188075855872)"
    by (rule f64_round_at [where e = "-5" and n = 6124895493223875]) (simp_all add: binary)
  show "f64_round s (213 / 5000) = Fin s (1534826753007865 / 36028797018963968)"
    by (rule f64_round_at [where e = "-5" and n = 6139307012031460]) (simp_all add: binary)
  show "f64_round s (1 / 1000) = Fin s (1152921504606847 / 1152921504606846976)"
    by (rule f64_round_at [where e = "-10" and n = 4611686018427388]) (simp_all add: binary)
  show "f64_round s (1 / 500) = Fin s (1152921504606847 / 576460752303423488)"
    by (rule f64_round_at [where e = "-9" and n = 4611686018427388]) (simp_all add: binary)
  show "f64_round s (3 / 1000) = Fin s (3458764513820541 / 1152921504606846976)"
    by (rule f64_round_at [where e = "-9" and n = 6917529027641082]) (simp_all add: binary)
  show "f64_round s (1 / 100) = Fin s (5764607523034235 / 576460752303423488)"
    by (rule f64_round_at [where e = "-7" and n = 5764607523034235]) (simp_all add: binary)
  show "f64_round s (1 / 50) = Fin s (5764607523034235 / 288230376151711744)"
    by (rule f64_round_at [where e = "-6" and n = 5764607523034235]) (simp_all add: binary)
  show "f64_round s (9 / 2) = Fin s (9 / 2)"
    by (rule f64_round_at [where e = "2" and n = 5066549580791808]) (simp_all add: binary)
  show "f64_round s (23 / 5) = Fin s (2589569785738035 / 562949953421312)"
    by (rule f64_round_at [where e = "2" and n = 5179139571476070]) (simp_all add: binary)
qed

lemma pow10_le: "j \<le> k \<Longrightarrow> pow10 j \<le> pow10 k"
proof (cases "0 \<le> j \<or> k < 0")
  case False
  have "(1 :: rat) \<le> 10 ^ nat k * 10 ^ nat (- j)" unfolding power_add [symmetric] by (rule one_le_power) simp
  then show ?thesis using False by (simp add: pow10_def divide_simps)
qed (auto simp: pow10_def divide_simps nat_mono)

lemma decade_up_reaches:
  assumes "pow10 (j - 1) \<le> r" "r < pow10 j"
  shows "k \<le> j \<Longrightarrow> nat (j - k) < fuel \<Longrightarrow> decade_up fuel k r = j"
proof (induction fuel arbitrary: k)
  case (Suc fuel)
  show ?case
  proof (cases "k = j")
    case True
    then show ?thesis using assms(2) by simp
  next
    case False
    then have "pow10 k \<le> r" using Suc.prems(1) pow10_le [of k "j - 1"] assms(1) by linarith
    moreover have "decade_up fuel (k + 1) r = j" using Suc.prems False by (intro Suc.IH) linarith+
    ultimately show ?thesis by simp
  qed
qed simp

lemma decade_at:
  assumes "pow10 (j - 1) \<le> r" "r < pow10 j" "- 324 \<le> j" "j \<le> 0"
  shows "decade r = j"
proof -
  have "r < 1" using assms(2) pow10_le [OF assms(4)] by (simp add: pow10_def)
  then show ?thesis unfolding decade_def using assms(3,4) by (simp add: decade_up_reaches [OF assms(1,2)])
qed

lemma show_f64_by:
  "r \<noteq> 0 \<Longrightarrow> decade r = k \<Longrightarrow> shortest_from 17 1 r k = (d, e) \<Longrightarrow> strip_zeros 20 d e = (n, f) \<Longrightarrow>
     show_f64 (Fin s r) = sign_text s @ show_decimal n f"
  by (simp add: show_f64_def)


lemma decades:
  "decade (6124895493223875 / 144115188075855872) = - 1" "decade (1152921504606847 / 1152921504606846976) = - 2"
  "decade (1152921504606847 / 576460752303423488) = - 2" "decade (5764607523034235 / 576460752303423488) = - 1"
  by (rule decade_at; simp add: pow10_def)+

lemmas float_steps = fuel_steps pow10_def reads_as_def rounded f64_round_eval floor_eval Let_def
lemmas float_text = sign_text_def show_decimal_def show_uint.simps lit_simps pad_zeros_def replicate_numeral_eval

lemma shortest:
  "shortest_from 17 1 (6124895493223875 / 144115188075855872) (- 1) = (425, - 4)"
  "shortest_from 17 1 (1152921504606847 / 1152921504606846976) (- 2) = (1, - 3)"
  "shortest_from 17 1 (1152921504606847 / 576460752303423488) (- 2) = (2, - 3)"
  "shortest_from 17 1 (5764607523034235 / 576460752303423488) (- 1) = (1, - 2)"
  by (simp_all add: float_steps)

lemma show_fractions:
  "show_f64 (Fin False (6124895493223875 / 144115188075855872)) = lit ''0.0425''"
  "show_f64 (Fin False (1152921504606847 / 1152921504606846976)) = lit ''0.001''"
  "show_f64 (Fin False (1152921504606847 / 576460752303423488)) = lit ''0.002''"
  "show_f64 (Fin False (5764607523034235 / 576460752303423488)) = lit ''0.01''"
  by (simp_all add: show_f64_def decades shortest fuel_steps(3) float_text)

lemma show_integers:
  "show_f64 f64_zero = lit ''0''" "show_f64 (Fin False 0) = lit ''0''" "show_f64 (Fin False 200) = lit ''200''" "show_f64 (Fin False 5) = lit ''5''"
  "show_f64 (Fin False 1705312800) = lit ''1705312800''" "show_f64 (Fin True (9 / 2)) = lit ''-4.5''"
  by (simp_all add: show_f64_def f64_zero_def decade_def float_steps float_text)

lemmas float_replay [replay] = rounded show_fractions show_integers f64_of_nat_exact

definition without_probes_only_the_write_path_block_is_rendered :: bool where
  "without_probes_only_the_write_path_block_is_rendered \<longleftrightarrow>
     render_probes [] = [] \<and>
     (let full = rendered []
      in \<not> str_contains full (lit ''huginn_probe_'') \<and>
         str_contains full (lit ''# TYPE huginn_influx_queue_batches gauge'' @ [10] @ lit ''huginn_influx_queue_batches 0'' @ [10]))"

lemma without_probes_only_the_write_path_block_is_rendered_passes: without_probes_only_the_write_path_block_is_rendered
  by (simp add: without_probes_only_the_write_path_block_is_rendered_def replay search_before cong: before_congs)
   (simp add: replay write_path_replay, simp add: search cong: search_congs)

definition success_renders_one_for_probe_success :: bool where
  "success_renders_one_for_probe_success \<longleftrightarrow>
     (let out = render_probes [result_success some_time (lit ''web'') (lit ''http'') (lit ''https://example.com'') (Fin False (85 / 2)) (Some 200)]
      in str_contains out (lit ''huginn_probe_success'' @ labels ''web'' ''http'' ''https://example.com'' @ lit '' 1'' @ [10]) \<and>
         str_contains out (lit ''huginn_probe_duration_seconds'' @ labels ''web'' ''http'' ''https://example.com'' @ lit '' 0.0425'' @ [10]) \<and>
         str_contains out (lit ''huginn_probe_http_status_code'' @ labels ''web'' ''http'' ''https://example.com'' @ lit '' 200'' @ [10]))"

lemma success_renders_one_for_probe_success_passes: success_renders_one_for_probe_success
  by (simp add: success_renders_one_for_probe_success_def replay search_before cong: before_congs)
   (simp add: search cong: search_congs)

definition failure_renders_zero_and_omits_status_code :: bool where
  "failure_renders_zero_and_omits_status_code \<longleftrightarrow>
     (let out = render_probes [result_failure some_time (lit ''db'') (lit ''tcp'') (lit ''host:5432'') (Fin False 5000) (lit ''connection refused'')]
      in str_contains out (lit ''huginn_probe_success'' @ labels ''db'' ''tcp'' ''host:5432'' @ lit '' 0'' @ [10]) \<and>
         \<not> str_contains out (lit ''huginn_probe_http_status_code''))"

lemma failure_renders_zero_and_omits_status_code_passes: failure_renders_zero_and_omits_status_code
  by (simp add: failure_renders_zero_and_omits_status_code_def replay search_before cong: before_congs)
   (simp add: search cong: search_congs)

definition each_family_header_appears_exactly_once_for_multiple_probes :: bool where
  "each_family_header_appears_exactly_once_for_multiple_probes \<longleftrightarrow>
     (let out = render_probes
                  [result_success some_time (lit ''a'') (lit ''tcp'') (lit ''a:1'') (Fin False 1) None,
                   result_success some_time (lit ''b'') (lit ''tcp'') (lit ''b:2'') (Fin False 2) None]
      in occurrences out (lit ''# TYPE huginn_probe_success gauge'') = 1 \<and>
         (let type_line = str_find out (lit ''# TYPE huginn_probe_success gauge'');
              a_line = str_find out (lit ''huginn_probe_success{probe='' @ in_quotes ''a'');
              b_line = str_find out (lit ''huginn_probe_success{probe='' @ in_quotes ''b'')
          in type_line \<noteq> None \<and> a_line \<noteq> None \<and> b_line \<noteq> None \<and> the type_line < the a_line \<and> the a_line < the b_line))"

lemma each_family_header_appears_exactly_once_for_multiple_probes_passes: each_family_header_appears_exactly_once_for_multiple_probes
  by (simp add: each_family_header_appears_exactly_once_for_multiple_probes_def replay search_before cong: before_congs)
   (simp add: search cong: search_congs)

definition probe_metrics_map_is_passed_through :: bool where
  "probe_metrics_map_is_passed_through \<longleftrightarrow>
     (let out = render_probes
                  [with_metric (result_success some_time (lit ''cert'') (lit ''tls'') (lit ''example.com:443'') (Fin False 10) None)
                     tls_cert_expiry_days_key (Fin True (9 / 2))]
      in str_contains out
           (lit ''huginn_probe_tls_cert_expiry_days'' @ labels ''cert'' ''tls'' ''example.com:443'' @ lit '' -4.5'' @ [10]))"

lemma probe_metrics_map_is_passed_through_passes: probe_metrics_map_is_passed_through
  by (simp add: probe_metrics_map_is_passed_through_def replay search_before cong: before_congs)
   (simp add: search cong: search_congs)

definition label_values_are_escaped :: bool where
  "label_values_are_escaped \<longleftrightarrow>
     escape_label (lit ''a'' @ [92] @ lit ''b'' @ [34] @ lit ''c'') = lit ''a'' @ [92, 92] @ lit ''b'' @ [92, 34] @ lit ''c'' \<and>
     escape_label (lit ''line1'' @ [10] @ lit ''line2'') = lit ''line1'' @ [92] @ lit ''nline2'' \<and>
     (let out = render_probes [result_success some_time (lit ''quo'' @ [34] @ lit ''te'') (lit ''tcp'') (lit ''t:1'') (Fin False 1) None]
      in str_contains out (lit ''probe='' @ [34] @ lit ''quo'' @ [92, 34] @ lit ''te'' @ [34]))"

lemma label_values_are_escaped_passes: label_values_are_escaped
  by (simp add: label_values_are_escaped_def replay search_before cong: before_congs)
   (simp add: search cong: search_congs)

definition dynamic_metric_keys_are_sanitized :: bool where
  "dynamic_metric_keys_are_sanitized \<longleftrightarrow>
     sanitize_metric_name (lit ''ok_key:x1'') = lit ''ok_key:x1'' \<and>
     sanitize_metric_name (lit ''bad key-'' @ [0xE4]) = lit ''bad_key__''"

lemma dynamic_metric_keys_are_sanitized_passes: dynamic_metric_keys_are_sanitized
  by (simp add: dynamic_metric_keys_are_sanitized_def replay)

section \<open>The metrics handler\<close>

text \<open>A request with the given headers, and the one result every handler test stores.\<close>

definition request_headers :: "(string \<times> string) list \<Rightarrow> rstr \<Rightarrow> u8 list option" where
  "request_headers hs name = map_of (map (\<lambda>(k, v). (lit k, map of_char v)) hs) name"

definition web_result :: probe_result where
  "web_result = result_success some_time (lit ''web'') (lit ''http'') (lit ''t'') (Fin False 1) None"

definition metrics_state_of :: "string option \<Rightarrow> metrics_state" where
  "metrics_state_of api_key =
     \<lparr>ms_web = \<lparr>wb_results = [(lit ''web'', web_result)], wb_sse_sent = [], wb_write_stats = default_stats\<rparr>,
      ms_api_key = map_option lit api_key\<rparr>"

definition metrics_answer :: "string option \<Rightarrow> (string \<times> string) list \<Rightarrow> http_reply" where
  "metrics_answer api_key hs =
     (let st = metrics_state_of api_key
      in handle_prometheus header_to_str st (request_headers hs) (map snd (wb_results (ms_web st))))"

lemmas handler_replay [replay] =
  request_headers_def web_result_def metrics_state_of_def metrics_answer_def handle_prometheus_def request_is_authorized_def
  header_to_str_def visible_ascii_def strip_prefix_def constant_time_eq_def content_type_text_def utf8_def utf8_char_def

definition handler_sets_prometheus_content_type :: bool where
  "handler_sets_prometheus_content_type \<longleftrightarrow>
     (let resp = metrics_answer None []
      in hp_status resp = 200 \<and> the_value (hp_headers resp) ''content-type'' = content_type_text \<and>
         str_contains (hp_body resp) (lit ''huginn_probe_success''))"

lemma handler_sets_prometheus_content_type_passes: handler_sets_prometheus_content_type
  by (simp add: handler_sets_prometheus_content_type_def replay write_path_replay) (simp add: search cong: search_congs)

definition handler_without_configured_key_needs_no_auth :: bool where
  "handler_without_configured_key_needs_no_auth \<longleftrightarrow>
     hp_status (metrics_answer None []) = 200"

lemma handler_without_configured_key_needs_no_auth_passes: handler_without_configured_key_needs_no_auth
  by (simp add: handler_without_configured_key_needs_no_auth_def replay)

definition handler_rejects_missing_bearer_when_key_is_configured :: bool where
  "handler_rejects_missing_bearer_when_key_is_configured \<longleftrightarrow>
     (let resp = metrics_answer (Some ''sekrit'') []
      in hp_status resp = 401 \<and> the_value (hp_headers resp) ''www-authenticate'' = lit ''Bearer'' \<and>
         \<not> str_contains (hp_body resp) (lit ''huginn_probe''))"

lemma handler_rejects_missing_bearer_when_key_is_configured_passes: handler_rejects_missing_bearer_when_key_is_configured
  by (simp add: handler_rejects_missing_bearer_when_key_is_configured_def replay) (simp add: search cong: search_congs)

definition handler_rejects_wrong_key :: bool where
  "handler_rejects_wrong_key \<longleftrightarrow>
     hp_status (metrics_answer (Some ''sekrit'') [(''authorization'', ''Bearer wrong'')]) = 401"

lemma handler_rejects_wrong_key_passes: handler_rejects_wrong_key
  by (simp add: handler_rejects_wrong_key_def replay)

definition handler_accepts_the_correct_bearer_key :: bool where
  "handler_accepts_the_correct_bearer_key \<longleftrightarrow>
     (let resp = metrics_answer (Some ''sekrit'') [(''authorization'', ''Bearer sekrit'')]
      in hp_status resp = 200 \<and> str_contains (hp_body resp) (lit ''huginn_probe_success''))"

lemma handler_accepts_the_correct_bearer_key_passes: handler_accepts_the_correct_bearer_key
  by (simp add: handler_accepts_the_correct_bearer_key_def replay) (simp add: search cong: search_congs)

definition bearer_scheme_is_required_not_just_the_raw_key :: bool where
  "bearer_scheme_is_required_not_just_the_raw_key \<longleftrightarrow>
     \<not> request_is_authorized header_to_str (request_headers [(''authorization'', ''sekrit'')]) (lit ''sekrit'')"

lemma bearer_scheme_is_required_not_just_the_raw_key_passes: bearer_scheme_is_required_not_just_the_raw_key
  by (simp add: bearer_scheme_is_required_not_just_the_raw_key_def replay)

definition constant_time_eq_agrees_with_plain_equality :: bool where
  "constant_time_eq_agrees_with_plain_equality \<longleftrightarrow>
     constant_time_eq (map of_char ''abc'') (map of_char ''abc'') \<and>
     \<not> constant_time_eq (map of_char ''abc'') (map of_char ''abd'') \<and>
     \<not> constant_time_eq (map of_char ''abc'') (map of_char ''ab'') \<and>
     constant_time_eq [] []"

lemma constant_time_eq_agrees_with_plain_equality_passes: constant_time_eq_agrees_with_plain_equality
  by (simp add: constant_time_eq_agrees_with_plain_equality_def replay)

section \<open>The health listener\<close>

text \<open>The three peers of the tests: one that serves, a closed port, and one that accepts and stays silent.\<close>

definition serving_peer :: health_peer where
  "serving_peer =
     \<lparr>hl_connect = \<lambda>_. ready_at 0 (Inr ()), hl_write = \<lambda>_. ready_at 0 (Inr ()),
      hl_read = ready_at 0 (Inr (map of_char ''HTTP/1.0 200 OK''))\<rparr>"

definition closed_port :: health_peer where
  "closed_port = serving_peer\<lparr>hl_connect := \<lambda>_. ready_at 0 (Inl (lit ''Connection refused (os error 111)''))\<rparr>"

definition silent_peer :: health_peer where
  "silent_peer = serving_peer\<lparr>hl_read := never\<rparr>"

lemmas health_replay [replay] =
  serving_peer_def closed_port_def silent_peer_def check_health_def ask_health_def in_time_def future_then_def ready_at_def
  never_def delayed_def health_answer_def bind_health_def bind_listener_def handle_health_def ok_reply_def

definition health_handler_returns_ok :: bool where
  "health_handler_returns_ok \<longleftrightarrow>
     hp_body (answer_head handle_health) = lit ''OK''"

lemma health_handler_returns_ok_passes: health_handler_returns_ok
  by (simp add: health_handler_returns_ok_def replay)

definition bind_rejects_a_non_ip_address :: bool where
  "bind_rejects_a_non_ip_address \<longleftrightarrow>
     is_err (bind_health (\<lambda>_ _. Inr ()) (lit ''localhost'') 0)"

lemma bind_rejects_a_non_ip_address_passes: bind_rejects_a_non_ip_address
  by (simp add: bind_rejects_a_non_ip_address_def replay)

definition check_health_succeeds_against_a_running_listener :: bool where
  "check_health_succeeds_against_a_running_listener \<longleftrightarrow>
     is_ok (check_health serving_peer 12702 2000000000)"

lemma check_health_succeeds_against_a_running_listener_passes: check_health_succeeds_against_a_running_listener
  by (simp add: check_health_succeeds_against_a_running_listener_def replay ask_health_prefix)

definition check_health_fails_when_nothing_is_listening :: bool where
  "check_health_fails_when_nothing_is_listening \<longleftrightarrow>
     is_err (check_health closed_port 12702 2000000000)"

lemma check_health_fails_when_nothing_is_listening_passes: check_health_fails_when_nothing_is_listening
  by (simp add: check_health_fails_when_nothing_is_listening_def replay)

definition check_health_times_out_on_a_silent_peer :: bool where
  "check_health_times_out_on_a_silent_peer \<longleftrightarrow>
     is_err (check_health silent_peer 12702 300000000)"

lemma check_health_times_out_on_a_silent_peer_passes: check_health_times_out_on_a_silent_peer
  by (simp add: check_health_times_out_on_a_silent_peer_def replay)

end
