(* ===== verification/Test_Probes.thy ===== *)
theory Test_Probes
  imports Test_Web Probes
begin

text \<open>
  The unit tests of \<open>huginn-probes\<close>, replayed on the model. A test's fake server is what the probe's
  environment observes of it: the outcome of the connect, the pieces that arrive and when, the answer of the
  client library. Ports the system hands out are fixed numbers here, and a closed port refuses at once.
\<close>

section \<open>Environments\<close>

definition wire :: "string \<Rightarrow> u8 list" where "wire s = map of_char s"
definition crlf :: "u8 list" where "crlf = [13, 10]"

definition refused :: rstr where "refused = lit ''Connection refused (os error 111)''"

definition closed_env :: probe_env where
  "closed_env = (silent_env 0)
     \<lparr>pe_connect := \<lambda>_. ready_at 0 (Inl refused), pe_http_get := \<lambda>_ _. ready_at 0 (Inl refused),
      pe_lookup_host := \<lambda>_. ready_at 0 (Inr [(V4 127 0 0 1, 1)])\<rparr>"

text \<open>A listener that accepts; what it then sends.\<close>

definition listening_env :: "reads \<Rightarrow> probe_env" where
  "listening_env rs = (silent_env 0)\<lparr>pe_connect := \<lambda>_. ready_at 0 (Inr ()), pe_reads := \<lambda>_. rs\<rparr>"

definition http_answer :: "http_client \<Rightarrow> u16 \<Rightarrow> u16 future" where
  "http_answer client status =
     (if status = 301 \<and> hcl_redirect client \<noteq> No_Redirects then ready_at 0 (Inl (lit ''too many redirects''))
      else ready_at 0 (Inr status))"

definition web_server :: "u16 \<Rightarrow> probe_env" where
  "web_server status = (silent_env 0)\<lparr>pe_http_get := \<lambda>client _. http_answer client status\<rparr>"

definition udp_server :: "nat future \<Rightarrow> ip_addr \<Rightarrow> probe_env" where
  "udp_server reply ip = (silent_env 0)
     \<lparr>pe_lookup_host := \<lambda>_. ready_at 0 (Inr [(ip, 5353)]), pe_udp_recv := reply\<rparr>"

definition dns_server :: "ip_addr list future \<Rightarrow> probe_env" where
  "dns_server reply = (silent_env 0)\<lparr>pe_lookup_ip := \<lambda>_ _. reply\<rparr>"

definition probe_cfg :: "string \<Rightarrow> probe_type \<Rightarrow> string \<Rightarrow> u64 \<Rightarrow> u64 \<Rightarrow> probe_config" where
  "probe_cfg name kind target interval timeout = default_probe
     \<lparr>pc_name := lit name, pc_probe_type := kind, pc_target := lit target, pc_interval_secs := interval,
      pc_timeout_secs := timeout\<rparr>"

text \<open>\<open>result.error.as_deref().unwrap_or("").contains(..)\<close>\<close>

definition error_contains :: "probe_result \<Rightarrow> string \<Rightarrow> bool" where
  "error_contains r s \<longleftrightarrow> str_contains (unwrap_or (pr_error r) []) (lit s)"

lemma decode_lossy_ascii: "list_all (\<lambda>c. c < 0x80) bs \<Longrightarrow> decode_lossy bs = bs"
  by (induction bs) (simp_all add: decode_lossy.simps decode_step_ascii)

lemma str_contains_eval [replay]:
  "str_contains [] t \<longleftrightarrow> t = []" "str_contains (c # s) t \<longleftrightarrow> starts_with (c # s) t \<or> str_contains s t"
  by (simp_all add: str_contains.simps)

lemma f64_round_zero [replay]: "f64_round s 0 = Fin s 0" by (simp add: f64_round_def)

lemmas float_order [replay] = f64_val_def f64_zero_def less_eq_f64_def f64_lt.simps trim_def is_whitespace_def

lemmas environment_replay [replay] =
  wire_def crlf_def refused_def closed_env_def listening_env_def http_answer_def web_server_def udp_server_def
  dns_server_def silent_env_def probe_cfg_def default_probe_def error_contains_def unwrap_or_def with_probe_timeout_def
  probe_timeout_def duration_from_secs_def timeout_text_def future_then_def ready_at_def never_def delayed_def
  read_greeting_line_def read_greeting_from.simps finish_greeting_def max_greeting_bytes_def utf8_lossy_def
  decode_lossy_ascii succeed_def fail_with_def fail_at_once_def

lemmas probe_replay [replay] =
  tcp_probe_def smtp_probe_def imap_probe_def connect_and_greet_def udp_probe_def udp_exchange_def udp_bind_addr_def
  dns_probe_def dns_verdict_def build_resolver_def http_get_probe_def build_client_def plain_libs_def
  show_probe_type_def split_host_port_def strip_prefix_char_def strip_suffix_char_def

section \<open>Greeting lines\<close>

definition reads_a_greeting_that_arrives_in_one_piece :: bool where
  "reads_a_greeting_that_arrives_in_one_piece \<longleftrightarrow>
     ft_result (read_greeting_line [(0, Inr (wire ''220 mail.example.com ESMTP'' @ crlf)), (0, Inr [])]) =
       Inr (lit ''220 mail.example.com ESMTP'' @ [13, 10])"

lemma reads_a_greeting_that_arrives_in_one_piece_passes: reads_a_greeting_that_arrives_in_one_piece
  by (simp add: reads_a_greeting_that_arrives_in_one_piece_def replay)

definition reassembles_a_greeting_split_across_reads :: bool where
  "reassembles_a_greeting_split_across_reads \<longleftrightarrow>
     (let dribble = map (\<lambda>b. (0, Inr [b])) (wire ''220 split.example.com ESMTP'' @ crlf)
      in expect (ft_result (read_greeting_line dribble)) (\<lambda>line. starts_with line (lit ''220'')))"

lemma reassembles_a_greeting_split_across_reads_passes: reassembles_a_greeting_split_across_reads
  by (simp add: reassembles_a_greeting_split_across_reads_def replay)

definition returns_what_was_sent_when_the_peer_closes_early :: bool where
  "returns_what_was_sent_when_the_peer_closes_early \<longleftrightarrow>
     ft_result (read_greeting_line [(0, Inr (wire ''220 partial'')), (0, Inr [])]) = Inr (lit ''220 partial'')"

lemma returns_what_was_sent_when_the_peer_closes_early_passes: returns_what_was_sent_when_the_peer_closes_early
  by (simp add: returns_what_was_sent_when_the_peer_closes_early_def replay)

text \<open>2048 times the letter x, as the reader's buffer of 128 bytes takes them.\<close>

definition flood :: reads where "flood = replicate 16 (0, Inr (replicate 128 120))"

lemma flood_result: "ft_result (read_greeting_line flood) = Inr (replicate 512 120)"
proof -
  let ?x = "(0 :: nat, Inr (replicate 128 120) :: rstr + u8 list)"
  have more: "read_greeting_from 0 (replicate n 120) (?x # rs) = read_greeting_from 0 (replicate (n + 128) 120) rs"
    if "n + 128 < 512" for n rs
    using that by (simp add: max_greeting_bytes_def replicate_add Let_def)
  have full: "read_greeting_from 0 (replicate n 120) (?x # rs) = ready_at 0 (Inr (finish_greeting (replicate (n + 128) 120)))"
    if "512 \<le> n + 128" for n rs
    using that by (simp add: max_greeting_bytes_def replicate_add Let_def)
  have four: "read_greeting_from 0 (replicate 0 120) (?x # ?x # ?x # ?x # rs) = ready_at 0 (Inr (finish_greeting (replicate 512 120)))" for rs
    by (simp add: more full del: read_greeting_from.simps replicate_0)
  have flood: "flood = ?x # ?x # ?x # ?x # replicate 12 ?x" by (simp add: flood_def numeral_eq_Suc)
  have "read_greeting_line flood = ready_at 0 (Inr (finish_greeting (replicate 512 120)))"
    unfolding read_greeting_line_def flood by (rule four [unfolded replicate_0])
  moreover have "finish_greeting (replicate 512 120) = replicate 512 120"
    by (simp add: finish_greeting_def max_greeting_bytes_def utf8_lossy_def decode_lossy_ascii list_all_length)
  ultimately show ?thesis by (simp add: ready_at_def)
qed

definition bounds_a_greeting_with_no_line_ending :: bool where
  "bounds_a_greeting_with_no_line_ending \<longleftrightarrow>
     expect (ft_result (read_greeting_line flood)) (\<lambda>line. length line = max_greeting_bytes)"

lemma bounds_a_greeting_with_no_line_ending_passes: bounds_a_greeting_with_no_line_ending
  by (simp add: bounds_a_greeting_with_no_line_ending_def flood_result max_greeting_bytes_def expect_def)

section \<open>TCP, SMTP and IMAP\<close>

definition tcp_cfg :: "string \<Rightarrow> probe_config" where "tcp_cfg target = probe_cfg ''test-tcp'' Tcp target 10 2"
definition smtp_cfg :: "string \<Rightarrow> probe_config" where "smtp_cfg target = probe_cfg ''test-smtp'' Smtp target 10 2"
definition imap_cfg :: "string \<Rightarrow> probe_config" where "imap_cfg target = probe_cfg ''test-imap'' Imap target 10 2"

definition fake_smtp_server :: "string \<Rightarrow> probe_env" where
  "fake_smtp_server banner = listening_env [(0, Inr (wire banner @ crlf)), (0, Inr [])]"

definition fake_imap_server :: "string \<Rightarrow> probe_env" where
  "fake_imap_server greeting = listening_env [(0, Inr (wire greeting @ crlf)), (0, Inr [])]"

declare tcp_cfg_def [replay] smtp_cfg_def [replay] imap_cfg_def [replay] fake_smtp_server_def [replay]
  fake_imap_server_def [replay]

definition tcp_succeeds_when_port_open :: bool where
  "tcp_succeeds_when_port_open \<longleftrightarrow>
     (let result = fst (tcp_probe (listening_env []) (tcp_cfg ''127.0.0.1:4711''))
      in pr_up result \<and> 0 \<le> pr_response_ms result)"

lemma tcp_succeeds_when_port_open_passes: tcp_succeeds_when_port_open
  by (simp add: tcp_succeeds_when_port_open_def elapsed_ms_def replay)

definition tcp_fails_when_port_closed :: bool where
  "tcp_fails_when_port_closed \<longleftrightarrow>
     (let result = fst (tcp_probe closed_env (tcp_cfg ''127.0.0.1:1''))
      in \<not> pr_up result \<and> pr_error result \<noteq> None)"

lemma tcp_fails_when_port_closed_passes: tcp_fails_when_port_closed
  by (simp add: tcp_fails_when_port_closed_def replay)

definition tcp_times_out_on_unreachable_host :: bool where
  "tcp_times_out_on_unreachable_host \<longleftrightarrow>
     (let result = fst (tcp_probe (silent_env 0) ((tcp_cfg ''192.0.2.1:9999'')\<lparr>pc_timeout_secs := 1\<rparr>))
      in \<not> pr_up result \<and> error_contains result ''timeout'')"

lemma tcp_times_out_on_unreachable_host_passes: tcp_times_out_on_unreachable_host
  by (simp add: tcp_times_out_on_unreachable_host_def replay)

definition smtp_succeeds_on_220_banner :: bool where
  "smtp_succeeds_on_220_banner \<longleftrightarrow>
     pr_up (fst (smtp_probe (fake_smtp_server ''220 mail.example.com ESMTP'') (smtp_cfg ''127.0.0.1:4711'')))"

lemma smtp_succeeds_on_220_banner_passes: smtp_succeeds_on_220_banner
  by (simp add: smtp_succeeds_on_220_banner_def replay)

definition smtp_fails_on_non_220_banner :: bool where
  "smtp_fails_on_non_220_banner \<longleftrightarrow>
     (let result = fst (smtp_probe (fake_smtp_server ''554 Service unavailable'') (smtp_cfg ''127.0.0.1:4711''))
      in \<not> pr_up result \<and> error_contains result ''554'')"

lemma smtp_fails_on_non_220_banner_passes: smtp_fails_on_non_220_banner
  by (simp add: smtp_fails_on_non_220_banner_def replay)

definition smtp_fails_when_port_closed :: bool where
  "smtp_fails_when_port_closed \<longleftrightarrow>
     \<not> pr_up (fst (smtp_probe closed_env (smtp_cfg ''127.0.0.1:1'')))"

lemma smtp_fails_when_port_closed_passes: smtp_fails_when_port_closed
  by (simp add: smtp_fails_when_port_closed_def replay)

definition smtp_succeeds_on_a_banner_split_across_segments :: bool where
  "smtp_succeeds_on_a_banner_split_across_segments \<longleftrightarrow>
     (let server = listening_env [(0, Inr (wire ''22'')), (50000000, Inr (wire ''0 mail.example.com ESMTP'' @ crlf)), (0, Inr [])]
      in pr_up (fst (smtp_probe server (smtp_cfg ''127.0.0.1:4711''))))"

lemma smtp_succeeds_on_a_banner_split_across_segments_passes: smtp_succeeds_on_a_banner_split_across_segments
  by (simp add: smtp_succeeds_on_a_banner_split_across_segments_def replay)

definition smtp_one_deadline_covers_connect_and_banner :: bool where
  "smtp_one_deadline_covers_connect_and_banner \<longleftrightarrow>
     (let (result, elapsed) = smtp_probe (listening_env []) ((smtp_cfg ''127.0.0.1:4711'')\<lparr>pc_timeout_secs := 1\<rparr>)
      in \<not> pr_up result \<and> elapsed < 1800000000)"

lemma smtp_one_deadline_covers_connect_and_banner_passes: smtp_one_deadline_covers_connect_and_banner
  by (simp add: smtp_one_deadline_covers_connect_and_banner_def replay)

definition smtp_fails_on_empty_banner :: bool where
  "smtp_fails_on_empty_banner \<longleftrightarrow>
     (let result = fst (smtp_probe (listening_env [(0, Inr [])]) (smtp_cfg ''127.0.0.1:4711''))
      in \<not> pr_up result \<and> error_contains result ''empty banner'')"

lemma smtp_fails_on_empty_banner_passes: smtp_fails_on_empty_banner
  by (simp add: smtp_fails_on_empty_banner_def replay)

definition imap_succeeds_on_ok_greeting :: bool where
  "imap_succeeds_on_ok_greeting \<longleftrightarrow>
     pr_up (fst (imap_probe (fake_imap_server ''* OK Dovecot ready.'') (imap_cfg ''127.0.0.1:4711'')))"

lemma imap_succeeds_on_ok_greeting_passes: imap_succeeds_on_ok_greeting
  by (simp add: imap_succeeds_on_ok_greeting_def replay)

definition imap_fails_on_bad_greeting :: bool where
  "imap_fails_on_bad_greeting \<longleftrightarrow>
     (let result = fst (imap_probe (fake_imap_server ''* BYE Server shutting down'') (imap_cfg ''127.0.0.1:4711''))
      in \<not> pr_up result \<and> error_contains result ''BYE'')"

lemma imap_fails_on_bad_greeting_passes: imap_fails_on_bad_greeting
  by (simp add: imap_fails_on_bad_greeting_def replay)

definition imap_fails_when_port_closed :: bool where
  "imap_fails_when_port_closed \<longleftrightarrow>
     \<not> pr_up (fst (imap_probe closed_env (imap_cfg ''127.0.0.1:1'')))"

lemma imap_fails_when_port_closed_passes: imap_fails_when_port_closed
  by (simp add: imap_fails_when_port_closed_def replay)

definition imap_fails_on_empty_greeting :: bool where
  "imap_fails_on_empty_greeting \<longleftrightarrow>
     (let result = fst (imap_probe (listening_env [(0, Inr [])]) (imap_cfg ''127.0.0.1:4711''))
      in \<not> pr_up result \<and> error_contains result ''empty greeting'')"

lemma imap_fails_on_empty_greeting_passes: imap_fails_on_empty_greeting
  by (simp add: imap_fails_on_empty_greeting_def replay)

section \<open>UDP\<close>

definition udp_cfg :: "string \<Rightarrow> probe_config" where "udp_cfg target = probe_cfg ''test-udp'' Udp target 10 2"
declare udp_cfg_def [replay]

definition udp_succeeds_when_server_responds :: bool where
  "udp_succeeds_when_server_responds \<longleftrightarrow>
     (let server = udp_server (ready_at 0 (Inr (length udp_query))) (V4 127 0 0 1)
      in pr_up (fst (udp_probe server (udp_cfg ''127.0.0.1:5353''))))"

lemma udp_succeeds_when_server_responds_passes: udp_succeeds_when_server_responds
  by (simp add: udp_succeeds_when_server_responds_def udp_query_def replay)

definition udp_times_out_when_no_response :: bool where
  "udp_times_out_when_no_response \<longleftrightarrow>
     (let result = fst (udp_probe (udp_server never (V4 127 0 0 1)) ((udp_cfg ''127.0.0.1:5353'')\<lparr>pc_timeout_secs := 1\<rparr>))
      in \<not> pr_up result \<and> error_contains result ''timeout'')"

lemma udp_times_out_when_no_response_passes: udp_times_out_when_no_response
  by (simp add: udp_times_out_when_no_response_def replay)

definition udp_fails_on_empty_response :: bool where
  "udp_fails_on_empty_response \<longleftrightarrow>
     (let result = fst (udp_probe (udp_server (ready_at 0 (Inr 0)) (V4 127 0 0 1)) (udp_cfg ''127.0.0.1:5353''))
      in \<not> pr_up result \<and> unwrap_or (pr_error result) [] = lit ''empty response'')"

lemma udp_fails_on_empty_response_passes: udp_fails_on_empty_response
  by (simp add: udp_fails_on_empty_response_def replay)

definition udp_succeeds_on_ipv6_target :: bool where
  "udp_succeeds_on_ipv6_target \<longleftrightarrow>
     (let server = udp_server (ready_at 0 (Inr (length udp_query))) (V6 [0, 0, 0, 0, 0, 0, 0, 1])
      in pr_up (fst (udp_probe server (udp_cfg ''[::1]:5353''))))"

lemma udp_succeeds_on_ipv6_target_passes: udp_succeeds_on_ipv6_target
  by (simp add: udp_succeeds_on_ipv6_target_def udp_query_def replay)

section \<open>DNS\<close>

definition dns_cfg :: "string \<Rightarrow> string \<Rightarrow> probe_config" where
  "dns_cfg name addr = (probe_cfg name Dns addr 1 2)\<lparr>pc_dns_query := Some (lit ''example.com'')\<rparr>"
declare dns_cfg_def [replay]

definition dns_probe_resolves_known_host :: bool where
  "dns_probe_resolves_known_host \<longleftrightarrow>
     (let result = fst (dns_probe (dns_server (ready_at 0 (Inr [V4 1 2 3 4]))) (dns_cfg ''test-dns'' ''127.0.0.1:5353''))
      in pr_up result \<and> pr_probe_type result = lit ''dns'')"

lemma dns_probe_resolves_known_host_passes: dns_probe_resolves_known_host
  by (simp add: dns_probe_resolves_known_host_def replay)

definition dns_probe_fails_on_nxdomain :: bool where
  "dns_probe_fails_on_nxdomain \<longleftrightarrow>
     (let server = dns_server (ready_at 0 (Inl (lit ''no records found'')));
          cfg = (dns_cfg ''dns-nxdomain'' ''127.0.0.1:5353'')\<lparr>pc_dns_query := Some (lit ''nonexistent.example'')\<rparr>
      in \<not> pr_up (fst (dns_probe server cfg)))"

lemma dns_probe_fails_on_nxdomain_passes: dns_probe_fails_on_nxdomain
  by (simp add: dns_probe_fails_on_nxdomain_def replay)

definition dns_probe_times_out :: bool where
  "dns_probe_times_out \<longleftrightarrow>
     \<not> pr_up (fst (dns_probe (dns_server never) ((dns_cfg ''dns-timeout'' ''127.0.0.1:5353'')\<lparr>pc_timeout_secs := 1\<rparr>)))"

lemma dns_probe_times_out_passes: dns_probe_times_out
  by (simp add: dns_probe_times_out_def replay)

definition dns_probe_fails_on_invalid_target :: bool where
  "dns_probe_fails_on_invalid_target \<longleftrightarrow>
     (let result = fst (dns_probe (dns_server never) (dns_cfg ''dns-invalid'' ''not_a_valid_address_xyz''))
      in \<not> pr_up result \<and> error_contains result ''invalid target'')"

lemma dns_probe_fails_on_invalid_target_passes: dns_probe_fails_on_invalid_target
  by (simp add: dns_probe_fails_on_invalid_target_def replay)

definition dns_probe_validates_expected_ip_match :: bool where
  "dns_probe_validates_expected_ip_match \<longleftrightarrow>
     (let cfg = (dns_cfg ''dns-ip-match'' ''127.0.0.1:5353'')\<lparr>pc_dns_expected_ip := Some (lit ''1.2.3.4'')\<rparr>
      in pr_up (fst (dns_probe (dns_server (ready_at 0 (Inr [V4 1 2 3 4]))) cfg)))"

lemma dns_probe_validates_expected_ip_match_passes: dns_probe_validates_expected_ip_match
  by (simp add: dns_probe_validates_expected_ip_match_def replay)

definition dns_probe_fails_on_ip_mismatch :: bool where
  "dns_probe_fails_on_ip_mismatch \<longleftrightarrow>
     (let cfg = (dns_cfg ''dns-ip-mismatch'' ''127.0.0.1:5353'')\<lparr>pc_dns_expected_ip := Some (lit ''9.9.9.9'')\<rparr>;
          result = fst (dns_probe (dns_server (ready_at 0 (Inr [V4 1 2 3 4]))) cfg)
      in \<not> pr_up result \<and> error_contains result ''9.9.9.9'')"

lemma dns_probe_fails_on_ip_mismatch_passes: dns_probe_fails_on_ip_mismatch
  by (simp add: dns_probe_fails_on_ip_mismatch_def show_ip_def show_ipv4_def debug_ip_list_def replay)

section \<open>HTTP\<close>

definition http_cfg :: "string \<Rightarrow> u16 option \<Rightarrow> probe_config" where
  "http_cfg url expected = (probe_cfg ''test-http'' Http url 10 5)\<lparr>pc_expected_status := expected\<rparr>"

definition http_result :: "probe_env \<Rightarrow> probe_config \<Rightarrow> (probe_result \<Rightarrow> bool) \<Rightarrow> bool" where
  "http_result e cfg P \<longleftrightarrow> expect (build_client plain_libs) (\<lambda>client. P (fst (http_get_probe e cfg client)))"

declare http_cfg_def [replay] http_result_def [replay]

definition http_succeeds_on_200 :: bool where
  "http_succeeds_on_200 \<longleftrightarrow>
     http_result (web_server 200) (http_cfg ''http://127.0.0.1:4711'' (Some 200))
       (\<lambda>result. pr_up result \<and> pr_status_code result = Some 200)"

lemma http_succeeds_on_200_passes: http_succeeds_on_200
  by (simp add: http_succeeds_on_200_def replay)

definition http_fails_on_unexpected_status :: bool where
  "http_fails_on_unexpected_status \<longleftrightarrow>
     http_result (web_server 503) (http_cfg ''http://127.0.0.1:4711'' (Some 200))
       (\<lambda>result. \<not> pr_up result \<and> error_contains result ''503'')"

lemma http_fails_on_unexpected_status_passes: http_fails_on_unexpected_status
  by (simp add: http_fails_on_unexpected_status_def replay)

definition http_fails_on_404_status :: bool where
  "http_fails_on_404_status \<longleftrightarrow>
     http_result (web_server 404) (http_cfg ''http://127.0.0.1:4711'' (Some 200))
       (\<lambda>result. \<not> pr_up result \<and> error_contains result ''404'')"

lemma http_fails_on_404_status_passes: http_fails_on_404_status
  by (simp add: http_fails_on_404_status_def replay)

definition http_fails_on_500_status :: bool where
  "http_fails_on_500_status \<longleftrightarrow>
     http_result (web_server 500) (http_cfg ''http://127.0.0.1:4711'' (Some 200))
       (\<lambda>result. \<not> pr_up result \<and> error_contains result ''500'')"

lemma http_fails_on_500_status_passes: http_fails_on_500_status
  by (simp add: http_fails_on_500_status_def replay)

definition http_does_not_follow_redirects :: bool where
  "http_does_not_follow_redirects \<longleftrightarrow>
     http_result (web_server 301) (http_cfg ''http://127.0.0.1:4711'' (Some 200))
       (\<lambda>result. \<not> pr_up result \<and> error_contains result ''301'')"

lemma http_does_not_follow_redirects_passes: http_does_not_follow_redirects
  by (simp add: http_does_not_follow_redirects_def replay)

definition http_defaults_expected_status_200 :: bool where
  "http_defaults_expected_status_200 \<longleftrightarrow>
     http_result (web_server 200) (http_cfg ''http://127.0.0.1:4711'' None) pr_up"

lemma http_defaults_expected_status_200_passes: http_defaults_expected_status_200
  by (simp add: http_defaults_expected_status_200_def replay)

definition http_fails_on_unreachable_host :: bool where
  "http_fails_on_unreachable_host \<longleftrightarrow>
     http_result closed_env ((http_cfg ''http://127.0.0.1:19999'' (Some 200))\<lparr>pc_timeout_secs := 1\<rparr>) (\<lambda>result. \<not> pr_up result)"

lemma http_fails_on_unreachable_host_passes: http_fails_on_unreachable_host
  by (simp add: http_fails_on_unreachable_host_def replay)

definition https_probe_type_is_reflected_in_result :: bool where
  "https_probe_type_is_reflected_in_result \<longleftrightarrow>
     http_result (web_server 200) ((http_cfg ''http://127.0.0.1:4711'' (Some 200))\<lparr>pc_probe_type := Https\<rparr>)
       (\<lambda>result. pr_up result \<and> pr_probe_type result = lit ''https'')"

lemma https_probe_type_is_reflected_in_result_passes: https_probe_type_is_reflected_in_result
  by (simp add: https_probe_type_is_reflected_in_result_def replay)

section \<open>TLS\<close>

text \<open>The two certificates of the test data by what a parser reads in them, and midnight of a day.\<close>

definition expiry_test_cert :: certificate where "expiry_test_cert = [0x30]"
definition raw_tls_cert :: certificate where "raw_tls_cert = [0x31]"

definition not_after_of :: "u8 list \<Rightarrow> rstr + int" where
  "not_after_of der =
     (if der = expiry_test_cert then Inr 4939268719 else if der = raw_tls_cert then Inr 4939869392
      else Inl (lit ''parsing error''))"

definition midnight :: "int \<Rightarrow> datetime" where
  "midnight t = \<lparr>dt_timestamp = t, dt_timestamp_millis = t * 1000\<rparr>"

definition second_of_august_2026 :: datetime where "second_of_august_2026 = midnight 1785628800"
definition new_year_2200 :: datetime where "new_year_2200 = midnight 7258118400"

definition tls_cfg :: "string \<Rightarrow> probe_config" where "tls_cfg target = probe_cfg ''test-tls'' Tls target 10 2"

definition silent_tls_server :: probe_env where
  "silent_tls_server = (listening_env [])
     \<lparr>pe_handshake := \<lambda>_ _ _. ready_at 0 (Inr (Some [raw_tls_cert])), pe_not_after := not_after_of,
      pe_cert_now := second_of_august_2026\<rparr>"

definition tls_result :: "probe_env \<Rightarrow> probe_config \<Rightarrow> (probe_result \<times> nat \<Rightarrow> bool) \<Rightarrow> bool" where
  "tls_result e cfg P \<longleftrightarrow> expect (build_tls_config plain_libs) (\<lambda>config. P (tls_handshake_probe e cfg config))"

lemma days_left:
  "f64_round s (3153639919 / 86400) = Fin s (5016585302024107 / 137438953472)"
  "f64_round s (2318849681 / 86400) = Fin s (3688660571938901 / 137438953472)"
  "f64_round s (197140037 / 5400) = Fin s (5017540809761363 / 137438953472)"
proof -
  note binary = pow2_def round_half_even_def floor_eval Let_def
  show "f64_round s (3153639919 / 86400) = Fin s (5016585302024107 / 137438953472)"
    by (rule f64_round_at [where e = 15 and n = 5016585302024107]) (simp_all add: binary)
  show "f64_round s (2318849681 / 86400) = Fin s (3688660571938901 / 137438953472)"
    by (rule f64_round_at [where e = 14 and n = 7377321143877802]) (simp_all add: binary)
  show "f64_round s (197140037 / 5400) = Fin s (5017540809761363 / 137438953472)"
    by (rule f64_round_at [where e = 15 and n = 5017540809761363]) (simp_all add: binary)
qed

lemma show_30: "show_f64 (Fin False 30) = lit ''30''" "show_f64 (Fin False 50000) = lit ''50000''"
  by (simp_all add: show_f64_def decade_def float_steps float_text)

lemmas tls_replay [replay] =
  days_left show_30 expiry_test_cert_def raw_tls_cert_def not_after_of_def midnight_def second_of_august_2026_def
  new_year_2200_def tls_cfg_def silent_tls_server_def tls_result_def cert_expiry_days_def expiry_verdict_def
  tls_handshake_probe_def fetch_peer_certificate_def leaf_certificate_def tls_verdict_def build_tls_config_def
  round_half_even_def fmt_fixed_def sign_text_def

definition expiry_days_is_positive_long_before_notafter :: bool where
  "expiry_days_is_positive_long_before_notafter \<longleftrightarrow>
     expect (cert_expiry_days not_after_of expiry_test_cert second_of_august_2026)
       (\<lambda>days. Fin False 36000 \<le> days \<and> days < Fin False 37000)"

lemma expiry_days_is_positive_long_before_notafter_passes: expiry_days_is_positive_long_before_notafter
  by (simp add: expiry_days_is_positive_long_before_notafter_def replay)

definition expiry_days_is_negative_once_past_notafter :: bool where
  "expiry_days_is_negative_once_past_notafter \<longleftrightarrow>
     expect (cert_expiry_days not_after_of expiry_test_cert new_year_2200) (\<lambda>days. days < 0)"

lemma expiry_days_is_negative_once_past_notafter_passes: expiry_days_is_negative_once_past_notafter
  by (simp add: expiry_days_is_negative_once_past_notafter_def replay)

definition verdict_is_up_with_days_to_spare :: bool where
  "verdict_is_up_with_days_to_spare \<longleftrightarrow>
     expiry_verdict (Fin False 90) (Fin False 30) = None"

lemma verdict_is_up_with_days_to_spare_passes: verdict_is_up_with_days_to_spare
  by (simp add: verdict_is_up_with_days_to_spare_def replay)

definition verdict_is_up_exactly_at_the_threshold :: bool where
  "verdict_is_up_exactly_at_the_threshold \<longleftrightarrow>
     expiry_verdict (Fin False 30) (Fin False 30) = None"

lemma verdict_is_up_exactly_at_the_threshold_passes: verdict_is_up_exactly_at_the_threshold
  by (simp add: verdict_is_up_exactly_at_the_threshold_def replay)

definition verdict_is_down_below_the_threshold :: bool where
  "verdict_is_down_below_the_threshold \<longleftrightarrow>
     (case expiry_verdict (Fin False (3462142213541069 / 281474976710656)) (Fin False 30) of
        None \<Rightarrow> False
      | Some why \<Rightarrow> str_contains why (lit ''12.3'') \<and> str_contains why (lit ''30''))"

lemma verdict_is_down_below_the_threshold_passes: verdict_is_down_below_the_threshold
  by (simp add: verdict_is_down_below_the_threshold_def replay)

definition verdict_is_down_once_expired_even_with_default_threshold :: bool where
  "verdict_is_down_once_expired_even_with_default_threshold \<longleftrightarrow>
     (case expiry_verdict (Fin True (5 / 2)) (Fin False 0) of
        None \<Rightarrow> False
      | Some why \<Rightarrow> str_contains why (lit ''expired'') \<and> str_contains why (lit ''2.5''))"

lemma verdict_is_down_once_expired_even_with_default_threshold_passes: verdict_is_down_once_expired_even_with_default_threshold
  by (simp add: verdict_is_down_once_expired_even_with_default_threshold_def replay)

definition garbage_is_not_a_certificate :: bool where
  "garbage_is_not_a_certificate \<longleftrightarrow>
     is_err (cert_expiry_days not_after_of (wire ''not a certificate at all'') some_time)"

lemma garbage_is_not_a_certificate_passes: garbage_is_not_a_certificate
  by (simp add: garbage_is_not_a_certificate_def replay)

definition tls_down_when_port_closed :: bool where
  "tls_down_when_port_closed \<longleftrightarrow>
     tls_result closed_env (tls_cfg ''127.0.0.1:1'') (\<lambda>(result, _). \<not> pr_up result \<and> pr_error result \<noteq> None)"

lemma tls_down_when_port_closed_passes: tls_down_when_port_closed
  by (simp add: tls_down_when_port_closed_def replay)

definition tls_down_when_the_peer_does_not_speak_tls :: bool where
  "tls_down_when_the_peer_does_not_speak_tls \<longleftrightarrow>
     tls_result (listening_env []) ((tls_cfg ''127.0.0.1:4711'')\<lparr>pc_timeout_secs := 1\<rparr>)
       (\<lambda>(result, elapsed). \<not> pr_up result \<and> elapsed < 2500000000)"

lemma tls_down_when_the_peer_does_not_speak_tls_passes: tls_down_when_the_peer_does_not_speak_tls
  by (simp add: tls_down_when_the_peer_does_not_speak_tls_def replay)

definition splits_an_ordinary_host_and_port :: bool where
  "splits_an_ordinary_host_and_port \<longleftrightarrow>
     split_host_port (lit ''example.com:443'') = Some (lit ''example.com'', 443) \<and>
     split_host_port (lit ''imap.example.com:993'') = Some (lit ''imap.example.com'', 993)"

lemma splits_an_ordinary_host_and_port_passes: splits_an_ordinary_host_and_port
  by (simp add: splits_an_ordinary_host_and_port_def replay)

definition splits_a_bracketed_ipv6_literal :: bool where
  "splits_a_bracketed_ipv6_literal \<longleftrightarrow>
     split_host_port (lit ''[2001:db8::1]:993'') = Some (lit ''2001:db8::1'', 993)"

lemma splits_a_bracketed_ipv6_literal_passes: splits_a_bracketed_ipv6_literal
  by (simp add: splits_a_bracketed_ipv6_literal_def replay)

definition rejects_a_target_without_a_usable_port :: bool where
  "rejects_a_target_without_a_usable_port \<longleftrightarrow>
     split_host_port (lit ''example.com'') = None \<and> split_host_port (lit ''example.com:https'') = None \<and>
     split_host_port (lit '':443'') = None"

lemma rejects_a_target_without_a_usable_port_passes: rejects_a_target_without_a_usable_port
  by (simp add: rejects_a_target_without_a_usable_port_def replay)

definition the_tls_configuration_builds :: bool where
  "the_tls_configuration_builds \<longleftrightarrow>
     is_ok (build_tls_config plain_libs)"

lemma the_tls_configuration_builds_passes: the_tls_configuration_builds
  by (simp add: the_tls_configuration_builds_def replay)

definition reads_a_certificate_from_a_port_that_does_not_speak_http :: bool where
  "reads_a_certificate_from_a_port_that_does_not_speak_http \<longleftrightarrow>
     tls_result silent_tls_server (tls_cfg ''127.0.0.1:4711'')
       (\<lambda>(result, _). pr_up result \<and>
          (case map_of (pr_metrics result) tls_cert_expiry_days_key of None \<Rightarrow> False | Some days \<Rightarrow> Fin False 30000 < days))"

lemma reads_a_certificate_from_a_port_that_does_not_speak_http_passes: reads_a_certificate_from_a_port_that_does_not_speak_http
  by (simp add: reads_a_certificate_from_a_port_that_does_not_speak_http_def replay)

definition the_expiry_threshold_still_applies_over_raw_tls :: bool where
  "the_expiry_threshold_still_applies_over_raw_tls \<longleftrightarrow>
     tls_result silent_tls_server ((tls_cfg ''127.0.0.1:4711'')\<lparr>pc_tls_expiry_fail_days := Some (Fin False 50000)\<rparr>)
       (\<lambda>(result, _). \<not> pr_up result \<and> map_of (pr_metrics result) tls_cert_expiry_days_key \<noteq> None)"

lemma the_expiry_threshold_still_applies_over_raw_tls_passes: the_expiry_threshold_still_applies_over_raw_tls
  by (simp add: the_expiry_threshold_still_applies_over_raw_tls_def replay)

section \<open>The registry\<close>

definition type_cases :: "(probe_type \<times> string \<times> string) list" where
  "type_cases =
     [(Tcp, ''127.0.0.1:1'', ''tcp''), (Http, ''http://127.0.0.1:1'', ''http''), (Https, ''https://127.0.0.1:1'', ''https''),
      (Smtp, ''127.0.0.1:1'', ''smtp''), (Imap, ''127.0.0.1:1'', ''imap''), (Udp, ''127.0.0.1:1'', ''udp''),
      (Dns, ''127.0.0.1:1'', ''dns''), (Tls, ''127.0.0.1:1'', ''tls'')]"

lemmas registry_replay = type_cases_def registry_new_def registry_get_def http_probe_new_def tls_probe_new_def
  http_probe_def tls_probe_def

definition every_probe_type_resolves_and_reports_its_own_type :: bool where
  "every_probe_type_resolves_and_reports_its_own_type \<longleftrightarrow>
     list_all (\<lambda>(probe_type, target, expected).
       let cfg = (probe_cfg (''t-'' @ expected) probe_type target 60 1);
           result = fst (registry_get (registry_new plain_libs) (pc_probe_type cfg) closed_env cfg)
       in pr_probe_type result = lit expected \<and> pr_probe_name result = pc_name cfg) type_cases"

lemma every_probe_type_resolves_and_reports_its_own_type_passes: every_probe_type_resolves_and_reports_its_own_type
  by (simp add: every_probe_type_resolves_and_reports_its_own_type_def registry_replay replay)

definition http_and_https_dispatch_to_the_same_probe :: bool where
  "http_and_https_dispatch_to_the_same_probe \<longleftrightarrow>
     (let registry = registry_new plain_libs in registry_get registry Http = registry_get registry Https)"

lemma http_and_https_dispatch_to_the_same_probe_passes: http_and_https_dispatch_to_the_same_probe
  by (simp add: http_and_https_dispatch_to_the_same_probe_def registry_replay)

end
