(* ===== verification/Test_Daemon.thy ===== *)
theory Test_Daemon
  imports Test_Web Daemon
begin

text \<open>
  The unit tests of the binary on the output format, on start-up failures and on the health check, replayed on
  the model. The machine of a test is its files and the ports that are taken.
\<close>

section \<open>The output format\<close>

lemmas format_replay [replay] = resolve_output_format_def eq_ignore_ascii_case_def to_ascii_lowercase_char_def

definition cli_pretty_overrides_config_json :: bool where
  "cli_pretty_overrides_config_json \<longleftrightarrow>
     resolve_output_format (Some (lit ''pretty'')) Json [] = (False, [])"

lemma cli_pretty_overrides_config_json_passes: cli_pretty_overrides_config_json
  by (simp add: cli_pretty_overrides_config_json_def replay)

definition cli_json_overrides_config_pretty :: bool where
  "cli_json_overrides_config_pretty \<longleftrightarrow>
     fst (resolve_output_format (Some (lit ''json'')) Pretty [])"

lemma cli_json_overrides_config_pretty_passes: cli_json_overrides_config_pretty
  by (simp add: cli_json_overrides_config_pretty_def replay)

definition config_decides_when_cli_absent :: bool where
  "config_decides_when_cli_absent \<longleftrightarrow>
     (let (json, w) = resolve_output_format None Json [];
          (json', w') = resolve_output_format None Pretty w
      in json \<and> \<not> json' \<and> w' = [])"

lemma config_decides_when_cli_absent_passes: config_decides_when_cli_absent
  by (simp add: config_decides_when_cli_absent_def replay)

definition cli_format_is_case_insensitive :: bool where
  "cli_format_is_case_insensitive \<longleftrightarrow>
     fst (resolve_output_format (Some (lit ''JSON'')) Pretty []) \<and> \<not> fst (resolve_output_format (Some (lit ''Pretty'')) Json [])"

lemma cli_format_is_case_insensitive_passes: cli_format_is_case_insensitive
  by (simp add: cli_format_is_case_insensitive_def replay)

definition unknown_cli_format_warns_and_falls_back_to_config :: bool where
  "unknown_cli_format_warns_and_falls_back_to_config \<longleftrightarrow>
     (case resolve_output_format (Some (lit ''xml'')) Json [] of
        (json, w) \<Rightarrow> json \<and> length w = 1 \<and> str_contains (w ! 0) (lit ''xml''))"

lemma unknown_cli_format_warns_and_falls_back_to_config_passes: unknown_cli_format_warns_and_falls_back_to_config
  by (simp add: unknown_cli_format_warns_and_falls_back_to_config_def replay) (simp add: search)

section \<open>Start-up\<close>

definition token_path :: rstr where "token_path = lit ''/tmp/token''"

definition minimal_config :: "rstr \<Rightarrow> app_config" where
  "minimal_config token_file =
     \<lparr>ac_influx = default_influx
        \<lparr>ic_url := lit ''http://127.0.0.1:19999'', ic_org := lit ''o'', ic_bucket := lit ''b'', ic_token_file := token_file,
         ic_batch_size := 10, ic_batch_timeout_ms := 1000, ic_shutdown_drain_timeout_ms := 200\<rparr>,
      ac_probes = [default_probe
        \<lparr>pc_name := lit ''test-probe'', pc_probe_type := Tcp, pc_target := lit ''127.0.0.1:1'', pc_interval_secs := 1,
         pc_timeout_secs := 1\<rparr>],
      ac_ui = \<lparr>uc_enabled = False, uc_bind = lit ''127.0.0.1'', uc_port = 9900\<rparr>, ac_metrics = default_metrics,
      ac_health = default_health\<lparr>hc_enabled := False\<rparr>, ac_log = default_log, ac_event_hub_capacity = 256\<rparr>"

definition test_machine :: "rstr \<Rightarrow> u16 list \<Rightarrow> unit machine" where
  "test_machine token taken =
     \<lparr>mh_bind = \<lambda>_ _ port. if port \<in> set taken then Inl (lit ''Address already in use (os error 98)'') else Inr (),
      mh_read = \<lambda>path. if path = token_path then Inr token else Inl (lit ''No such file or directory (os error 2)''),
      mh_metadata = \<lambda>_. Some 0x180, mh_http_client = Inr ()\<rparr>"

definition mytoken :: rstr where "mytoken = lit ''mytoken''"

lemmas machine_replay [replay] =
  token_path_def mytoken_def minimal_config_def test_machine_def default_influx_def default_probe_def default_metrics_def
  default_health_def default_log_def run_daemon_def start_health_def start_writer_def start_ui_def start_metrics_def
  when_enabled_def started_with_def held_by_def new_event_hub_def new_writer_def read_token_def read_secret_def
  read_api_key_def bind_ui_def bind_metrics_def health_bind_def trim_def is_whitespace_def unwrap_or_def

text \<open>The configuration the other tests vary does start.\<close>

lemma minimal_config_starts: "is_ok (run_daemon (test_machine mytoken []) 0 (minimal_config token_path))"
  by (simp add: replay)

definition run_fails_when_an_enabled_listener_port_is_taken :: bool where
  "run_fails_when_an_enabled_listener_port_is_taken \<longleftrightarrow>
     list_all
       (\<lambda>which.
          let port = 40123; cfg = minimal_config token_path;
              cfg = (if which = ''ui'' then cfg\<lparr>ac_ui := (ac_ui cfg)\<lparr>uc_enabled := True, uc_port := port\<rparr>\<rparr>
                     else cfg\<lparr>ac_metrics := (ac_metrics cfg)\<lparr>mc_enabled := True, mc_port := port\<rparr>\<rparr>)
          in is_err (run_daemon (test_machine mytoken [port]) 0 cfg))
       [''ui'', ''metrics'']"

lemma run_fails_when_an_enabled_listener_port_is_taken_passes: run_fails_when_an_enabled_listener_port_is_taken
  by (simp add: run_fails_when_an_enabled_listener_port_is_taken_def replay)

definition run_fails_when_the_health_port_is_taken :: bool where
  "run_fails_when_the_health_port_is_taken \<longleftrightarrow>
     (let port = 40123; cfg = (minimal_config token_path)\<lparr>ac_health := \<lparr>hc_enabled = True, hc_port = port\<rparr>\<rparr>
      in is_err (run_daemon (test_machine mytoken [port]) 0 cfg))"

lemma run_fails_when_the_health_port_is_taken_passes: run_fails_when_the_health_port_is_taken
  by (simp add: run_fails_when_the_health_port_is_taken_def replay)

definition healthcheck_explains_itself_when_health_is_disabled :: bool where
  "healthcheck_explains_itself_when_health_is_disabled \<longleftrightarrow>
     expect_err (run_healthcheck silent_peer (minimal_config token_path))
       (\<lambda>err. str_contains (hd err) (lit ''health.enabled''))"

lemma healthcheck_explains_itself_when_health_is_disabled_passes: healthcheck_explains_itself_when_health_is_disabled
  by (simp add: healthcheck_explains_itself_when_health_is_disabled_def run_healthcheck_def replay) (simp add: search)

definition run_returns_error_on_missing_token_file :: bool where
  "run_returns_error_on_missing_token_file \<longleftrightarrow>
     (let cfg = minimal_config token_path; influx = (ac_influx cfg)\<lparr>ic_token_file := lit ''/nonexistent/path/to/token.file''\<rparr>
      in is_err (run_daemon (test_machine (lit ''x'') []) 0 (cfg\<lparr>ac_influx := influx\<rparr>)))"

lemma run_returns_error_on_missing_token_file_passes: run_returns_error_on_missing_token_file
  by (simp add: run_returns_error_on_missing_token_file_def replay)

end
