(* ===== verification/Spec2Isabelle.thy ===== *)
theory Spec2Isabelle
  imports Queue_Wait Shutdown Test_Environment Test_Documents Test_Queue Test_Probes Test_Daemon
begin

text \<open>
  \<^bold>\<open>A verification development for huginn\<close>

  Huginn is an uptime and response time monitor in Rust. One task per configured probe runs the probe on a
  timer and publishes its result on an event hub, a broadcast channel. From there a batcher renders results
  as InfluxDB line protocol and queues them for a writer that posts them with retries, the web state keeps
  the latest result of every probe for a debug UI and a Prometheus endpoint, and a console task prints one
  line per result. A signal starts the shutdown: probe loops first, then a bounded drain of the writer. The
  theories follow this, one per component, in the order in which the parts depend on each other.

  \<^bold>\<open>Foundations\<close>

    \<^item> Huginn_Prelude: machine integers, the result type of fallible code (a sum, errors to the left) with
      \<open>?\<close>, \<open>map_err\<close> and early returns, and the collections of facts the proofs draw on.
    \<^item> Rust_Text, Rust_Float, Rust_Net: what the sources use of Rust's standard library. Texts are lists of
      Unicode scalar values with UTF-8 encoding and lossy decoding; an \<open>f64\<close> is a NaN, an infinity or a
      signed rational, rounded to the nearest double, and printed as \<open>{}\<close> and \<open>{:.k}\<close> print it; addresses are
      parsed by the recursive descent of \<open>std::net\<close>.
    \<^item> Transition_Systems, Queue_Interface, Escape_Interface: the interfaces as locales. An
      \<open>invariant_system\<close> is a state machine with an invariant, a \<open>consuming_system\<close> one whose steps use
      something up; an \<open>evicting_queue\<close> and a \<open>counting_queue\<close> are what the two sides of the write path may
      rely on; an \<open>escape_reader\<close> and a \<open>line_escape\<close> are what an escaping routine and the reader of its
      format owe each other. Every one is interpreted on the program's own definitions: the waiting writer,
      the writer task, the write path, the probe loops (three times), the accept loop and its header
      timeouts; the retry queue; the two escapes of line protocol and the label escape of the metrics.

  \<^bold>\<open>huginn-core\<close>

    \<^item> Probe_Result (types.rs, error.rs, event.rs): \<open>ProbeResult\<close> with its constructors, the escaping of
      control characters, the error texts. Result_Document (types.rs): what serde writes of a result as a tree
      of nodes and reads back, with the round trip and the tolerance of unknown keys. Write_Stats (stats.rs): the
      counters, at 64 bits.
    \<^item> App_Config (config.rs): a record per configuration block with its defaults, and \<open>validate\<close> with
      every check in source order. \<open>config_ok\<close> is its specification, and the equivalence is a property.
    \<^item> Config_Load (config.rs): environment overrides, the rewriting of names, \<open>load_with_warnings\<close>, and the
      two secret files. Config_Document (config.rs): what the serde attributes of the blocks say of a parsed
      YAML document, as the visitor the derive generates, with its specification.

  \<^bold>\<open>huginn-influx\<close>

    \<^item> Retry_Queue (queue.rs): push with drop-oldest eviction, removal by identity, the byte count, the
      counters. A batch is its text and the allocation it lives in, which is what \<open>Arc::ptr_eq\<close> compares.
    \<^item> Queue_Wait (queue.rs): \<open>wait_for_batch\<close> statement by statement, interleaved with the producer.
    \<^item> Line_Protocol (writer.rs): rendering of a point and a batch, and the write URL; against it a reader
      of the format that is not part of the program.
    \<^item> Influx_Writer (writer.rs): the request, the classification of the answer, the retry delay, the writer
      task. Batcher (writer.rs): the batcher task. Pipeline: both around the one queue, in any interleaving.

  \<^bold>\<open>huginn-probes\<close>

    \<^item> Probe_Io (lib.rs): futures, the deadline around them, the bounded reading of a greeting line.
    \<^item> Probe_Clients (dns.rs, http.rs, tls.rs): the resolver, the HTTP client and the TLS configuration with
      the verifier that accepts everything, as the program configures them.
    \<^item> Probes (tcp.rs, http.rs, smtp.rs, imap.rs, udp.rs, dns.rs, tls.rs, registry.rs): each probe with every
      outcome, and the registry.

  \<^bold>\<open>huginn-web\<close>

    \<^item> Web_State (state.rs, sse.rs, headers.rs): the latest results, the event stream, the security headers.
    \<^item> Prometheus (prometheus.rs): the exposition, its escapes, the bearer check, the handler.
    \<^item> Http_Listeners (server.rs, health.rs, serve.rs): binding, routes, the accept loop with its permits, and
      the client side of the health check.

  \<^bold>\<open>huginn\<close>

    \<^item> Scheduler (scheduler.rs, event.rs): the probe loops as interleaving tasks.
    \<^item> Daemon (main.rs): command line, output format, health check, the start-up sequence of \<open>run\<close>.
    \<^item> Shutdown (main.rs): the shutdown channel, the grace period, the drain, and the console.

  \<^bold>\<open>The whole\<close>

    \<^item> This theory composes the parts: from the publications of the probe loops through the hub to the web
      state (C30), and through the batcher to the text InfluxDB receives (C29).
    \<^item> Test_Support and Test_Config, Test_Environment, Test_Results, Test_Documents, Test_Queue, Test_Web,
      Test_Probes, Test_Daemon: the unit tests of the repository as truth values over the same inputs and with
      the same assertions, each shown by evaluation. They tie the model to what the authors expect of the code;
      no property rests on them.

  \<^bold>\<open>What is shown\<close>

    \<^item> No result is lost silently: through every interleaving of batcher and writer each result received is in
      the buffer, in the queue, or in a batch that was written, rejected or evicted and counted (C1, C4, C9,
      C15, C28); a sleeping writer is always woken (C5); the queue is drained if the server answers (C3); a
      result waits no longer than the batch timeout (C16); errors are final exactly when the server decided
      (C17), and delays are bounded (C18).
    \<^item> What reaches InfluxDB, a scraper or a terminal cannot be forged by a probe name, a target or a peer: the
      round trips C10, C36 and C38, the points InfluxDB reads (C29), and the printable texts C11 and C27.
    \<^item> Configuration and start-up: a file loads exactly as it is written (C26), \<open>validate\<close> accepts exactly the
      specification (C2), an accepted configuration starts (C7) or nothing starts (C12), its probes are usable
      (C31), secrets fail closed (C25), and the output format has one order of precedence (C37).
    \<^item> Probes: UP means what the protocol says (C13), results are data (C22), deadlines hold (C23), the
      certificate verdict is sound (C24) and about the peer's own certificate (C34), greetings are judged by
      their bytes (C35).
    \<^item> Listeners: the key check (C8), well-formed families (C14), the latest results (C30), the connection cap
      and the header timeout (C32), the health check (C33).
    \<^item> Scheduling and shutdown: only measured results are published and not too often (C19), shutdown stops the
      loops at once (C6), reaches every task (C20) and is bounded (C21).
    \<^item> Some properties state behaviour that falls short of what the sources intend: a UDP probe can take two
      timeouts (C23), every batch evicted in flight whose write succeeds is counted twice (C39), and every
      shutdown in a back-off is reported as a clean drain, whatever is discarded (C40).

  \<^bold>\<open>Bounds and fuel\<close>

  \<open>drain_run\<close> takes a number of writer steps, and C3 proves that some number is enough. \<open>shortest_from\<close> tries
  17 significant digits, which always identify a double; \<open>decade_up\<close> searches the 640 decades of the format.
  The readers of line protocol and of samples take the length of their input as fuel, an upper bound on the
  number of pairs in it. Everything else recurs structurally or has a termination proof. A \<open>usize\<close> has 64
  bits. Times are nanoseconds as natural numbers.

  \<^bold>\<open>What is an argument\<close>

  Code outside the repository is an argument of the definitions that use it: sockets, files and their
  modes, the environment, the YAML parser and its reading of scalars, the splitting of the command line, the
  JSON text of a result, the HTTP framework and client, the
  DNS resolver, rustls and the X.509 parser, the timer, terminal colours. Where a property needs more, what
  is documented is a named hypothesis: \<open>notify_laws\<close> (tokio's \<open>Notify\<close>), \<open>interval_law\<close> (its
  \<open>Interval\<close>), \<open>bind_law\<close> (a socket can be bound if nobody holds it), \<open>to_str_documented\<close> (header
  values), \<open>header_timeout_law\<close> (hyper's timer), \<open>format_laws\<close> (a document format), \<open>resolver_defaults_law\<close>,
  \<open>handshake_law\<close> and \<open>redirect_law\<close> (the clients of the probes). Each is shown to hold of a concrete
  function in the witness of the property that uses it, or is used in a lemma only.

  Tasks interleave statement by statement where they share state that more than one of them writes (the
  queue with its wake-ups, the write path, the probe loops, the shutdown channel). Time passes in a model of
  tasks only while every task waits; that a task computes in no time is the idealisation behind the time
  bounds. A lock is held for one step. A future is the instant it is ready at and its result.

  \<^bold>\<open>What is not modelled\<close>

    \<^item> How clap splits the command line into words and prints its help, and the set-up of the log subscriber
      beyond the choice of filter and format.
    \<^item> The wording of YAML errors, blocks written as sequences by position, and the text of a JSON document.
    \<^item> What hyper and the framework do by themselves: parsing of requests, answers to requests without a route.
    \<^item> The dashboard's HTML, CSS and JavaScript, which the program embeds as opaque texts; the integration
      tests, which start the binary; unit tests that open sockets or only exercise the runtime.
\<close>

section \<open>From a probe to the dashboard\<close>

text \<open>
  A subscriber of the hub receives what was published, less what it was too slow for: a subsequence. A
  publication is its loop, its instant and its event.
\<close>

primrec event_result :: "probe_event \<Rightarrow> probe_result" where
  "event_result (ProbeCompleted r) = r"

definition published_result :: "nat \<times> nat \<times> probe_event \<Rightarrow> probe_result" where
  "published_result x = event_result (snd (snd x))"

lemma reachable_published:
  assumes "validate cfg = Inr ()" "interval_law nt" "sched_reachable nt cfg s" "subseq taken (sc_hub s)"
    and "x \<in> set taken"
  shows "fst x < length (ac_probes cfg) \<and>
         (\<exists>e. published_result x = fst (run_probe e (ac_probes cfg ! fst x)))"
proof -
  have "sched_inv cfg s" using probing.inv_reachable [OF assms(3)] assms(2) validated_intervals [OF assms(1)] by blast
  moreover have "x \<in> set (sc_hub s)" using assms(4,5) by (induction rule: list_emb.induct) auto
  ultimately have "published_ok cfg x" by (simp add: sched_inv_def)
  then show ?thesis by (cases x) (auto simp: published_ok_iff published_result_def)
qed

text \<open>Names tell the loops apart.\<close>

lemma published_name_iff:
  assumes "validate cfg = Inr ()" "interval_law nt" "sched_reachable nt cfg s" "subseq taken (sc_hub s)"
    and "x \<in> set taken" "i < length (ac_probes cfg)"
  shows "pr_probe_name (published_result x) = pc_name (ac_probes cfg ! i) \<longleftrightarrow> fst x = i"
proof -
  obtain e where x: "fst x < length (ac_probes cfg)"
    "published_result x = fst (run_probe e (ac_probes cfg ! fst x))"
    using reachable_published [OF assms(1-5)] by blast
  have "pr_probe_name (published_result x) = pc_name (ac_probes cfg ! fst x)"
    using run_probe_reports [of "ac_probes cfg ! fst x" e] by (simp add: reports_def x(2))
  then show ?thesis
    using nth_eq_iff_index_eq [OF validate_distinct_names [OF assms(1)], of "fst x" i] x(1) assms(6) by simp
qed

text \<open>C30: under a validated configuration each probe has its own entry in the web state, and no other entry is
  there. Whatever the probe loops did and whichever of their publications the event loop received, the
  entry under a probe's name is the newest result received from that very probe (none shadows another),
  and the event stream carries the received results in order.\<close>

theorem each_probe_has_its_own_entry:
  assumes "validate cfg = Inr ()" and "interval_law next_tick" and "sched_reachable next_tick cfg s"
    and "subseq taken (sc_hub s)" and "handled rs = map published_result taken"
    and "w = event_loop to_json (new_web_state stats) rs" and "i < length (ac_probes cfg)"
  shows "map_of (wb_results w) (pc_name (ac_probes cfg ! i)) =
           (case filter (\<lambda>x. fst x = i) taken of [] \<Rightarrow> None | hits \<Rightarrow> Some (published_result (last hits))) \<and>
         dom (map_of (wb_results w)) \<subseteq> pc_name ` set (ac_probes cfg) \<and>
         wb_sse_sent w = List.map_filter to_json (map published_result taken)"
proof (intro conjI)
  have entry: "map_of (wb_results w) name =
      (case filter (\<lambda>r. pr_probe_name r = name) (map published_result taken) of
         [] \<Rightarrow> None | hits \<Rightarrow> Some (last hits))" for name
    using web_state_holds_the_latest_results [of to_json stats rs name] assms(5,6) by simp
  have same: "filter (\<lambda>x. pr_probe_name (published_result x) = pc_name (ac_probes cfg ! i)) taken =
      filter (\<lambda>x. fst x = i) taken"
    using published_name_iff [OF assms(1-4) _ assms(7)] by (intro filter_cong) auto
  show "map_of (wb_results w) (pc_name (ac_probes cfg ! i)) =
      (case filter (\<lambda>x. fst x = i) taken of [] \<Rightarrow> None | hits \<Rightarrow> Some (published_result (last hits)))"
    unfolding entry filter_map comp_def same
    by (cases "filter (\<lambda>x. fst x = i) taken") (simp_all add: last_map)
  show "dom (map_of (wb_results w)) \<subseteq> pc_name ` set (ac_probes cfg)"
  proof
    fix name
    assume "name \<in> dom (map_of (wb_results w))"
    then have "filter (\<lambda>r. pr_probe_name r = name) (map published_result taken) \<noteq> []"
      by (auto simp: entry split: list.splits)
    then obtain x where x: "x \<in> set taken" "pr_probe_name (published_result x) = name"
      by (auto simp: filter_empty_conv)
    then have "fst x < length (ac_probes cfg)" using reachable_published [OF assms(1-4)] by blast
    with published_name_iff [OF assms(1-4) x(1) this] x(2) show "name \<in> pc_name ` set (ac_probes cfg)" by auto
  qed
  show "wb_sse_sent w = List.map_filter to_json (map published_result taken)"
    using web_state_holds_the_latest_results [of to_json stats rs] assms(5,6) by simp
qed

theorem each_probe_has_its_own_entry_witness:
  "map_of (wb_results (event_loop (\<lambda>_. None) (new_web_state default_stats)
      [RecvOk (ProbeCompleted (fst (run_probe open_env sample_probe)))])) (lit ''web'') =
   Some (fst (run_probe open_env sample_probe))"
proof -
  let ?r = "fst (run_probe open_env sample_probe)"
  have "handled [RecvOk (ProbeCompleted ?r)] = map published_result (sc_hub sample_run)"
    by (simp add: sample_run_def published_result_def)
  from each_probe_has_its_own_entry [OF sample_config_ok skip_tick_law sample_run_reachable subseq_order.refl
      this refl, of 0 "\<lambda>_. None" default_stats]
  show ?thesis by (simp add: sample_config_def sample_run_def published_result_def) (simp add: sample_probe_def)
qed

section \<open>From a probe to InfluxDB\<close>

lemma newline_free_control_free: "control_free s \<Longrightarrow> 10 \<notin> set s"
  by (auto simp: control_free_def list_all_iff is_control_def)

lemma loaded_point_safe:
  assumes "load_with_warnings rd yaml env path = Inr (cfg, ws)" "p \<in> set (ac_probes cfg)"
  shows "point_safe (fst (run_probe e p))"
proof -
  have r: "pr_probe_name (fst (run_probe e p)) = pc_name p" "pr_target (fst (run_probe e p)) = pc_target p"
    "pr_probe_type (fst (run_probe e p)) = show_probe_type (pc_probe_type p)"
    using run_probe_reports [of p e] by (simp_all add: reports_def)
  have "10 \<notin> set (show_probe_type k)" for k by (cases k) (simp_all add: show_probe_type_def lit_simps)
  moreover have "10 \<notin> set tls_cert_expiry_days_key" by (simp add: tls_cert_expiry_days_key_def lit_simps)
  ultimately show ?thesis
    using loaded_probes_printable [OF assms] run_probe_metrics [of e p]
    by (auto simp: point_safe_def r newline_free_control_free)
qed

lemma batches_read_back:
  assumes "map bt_text bs = map render_batch chunks" "\<forall>c \<in> set chunks. c \<noteq> []"
    and "\<forall>r \<in> set (concat chunks). point_safe r"
  shows "concat (map (\<lambda>b. map read_line (split_lines (bt_text b))) bs) = map (\<lambda>r. Some (point_of r)) (concat chunks)"
  using assms
proof (induction chunks arbitrary: bs)
  case (Cons c chunks)
  then obtain b bs' where bs: "bs = b # bs'" "bt_text b = render_batch c" "map bt_text bs' = map render_batch chunks"
    by (cases bs) auto
  have "split_lines (bt_text b) = map to_line_protocol c"
    using Cons.prems bs by (simp add: batch_has_one_line_per_result)
  then have "map read_line (split_lines (bt_text b)) = map (\<lambda>r. Some (point_of r)) c"
    by (simp add: read_line_point)
  with Cons.IH [OF bs(3)] Cons.prems bs(1) show ?case by simp
qed simp

text \<open>C29: from the probe to the wire. Under a configuration that loaded, whatever the probe loops, the batcher and
  the writer did in whatever order, and whichever publications the batcher received: reading the queued batches
  line by line gives exactly the points of consecutive received results, one line each, in order and none
  twice; behind them come the results still in the buffer; and each of them is what a run of one configured
  probe returned.\<close>

theorem influx_gets_only_measured_results:
  assumes "load_with_warnings rd yaml env path = Inr (cfg, ws)" and "interval_law next_tick"
    and "sched_reachable next_tick cfg s" and "subseq taken (sc_hub s)"
    and "pipeline_reachable (ac_influx cfg) p (map published_result taken)"
  shows "\<exists>gone queued buffered.
     taken = gone @ queued @ buffered \<and>
     concat (map (\<lambda>b. map read_line (split_lines (bt_text b))) (rq_batches (wr_queue (pp_writer p)))) =
       map (\<lambda>x. Some (point_of (published_result x))) queued \<and>
     bb_buffer (pp_batcher p) = map published_result buffered \<and>
     (\<forall>(i, t, event) \<in> set taken. i < length (ac_probes cfg) \<and>
        (\<exists>e. event = ProbeCompleted (fst (run_probe e (ac_probes cfg ! i)))))"
proof -
  have valid: "validate cfg = Inr ()" using assms(1) by (auto simp: load_Inr_iff)
  note published = reachable_published [OF valid assms(2-4)]
  have safe: "point_safe (published_result x)" if x: "x \<in> set taken" for x
  proof -
    obtain e where "fst x < length (ac_probes cfg)" "published_result x = fst (run_probe e (ac_probes cfg ! fst x))"
      using published [OF x] by blast
    then show ?thesis using loaded_point_safe [OF assms(1) nth_mem, of "fst x" e] by simp
  qed
  let ?bs = "rq_batches (wr_queue (pp_writer p))" and ?buffer = "bb_buffer (pp_batcher p)"
  have "0 < ic_batch_size (ac_influx cfg)" using valid by (simp add: validate_iff config_ok_def influx_ok_def)
  then have "balanced (ic_batch_size (ac_influx cfg)) (pp_writer p) ?buffer (map published_result taken)"
    using write_path.inv_reachable [OF assms(5)] by (simp add: pipeline_inv_def)
  then obtain gone chunks popped evicted finished where
    "ledger (ic_batch_size (ac_influx cfg)) (pp_writer p) ?buffer (map published_result taken)
       gone chunks popped evicted finished"
    unfolding balanced_def by blast
  then have led: "map bt_text (gone @ ?bs) = map render_batch chunks" "\<forall>c \<in> set chunks. c \<noteq> []"
    "concat chunks @ ?buffer = map published_result taken"
    by (auto simp: ledger_def batches_of_def)
  define old new where "old = take (length gone) chunks" and "new = drop (length gone) chunks"
  then have chunks: "chunks = old @ new" by simp
  have bs: "map bt_text ?bs = map render_batch new"
    using arg_cong [OF led(1), of "drop (length gone)"] by (simp add: new_def drop_map)
  have "map published_result taken = concat old @ concat new @ ?buffer" using led(3) by (simp add: chunks)
  then obtain a q b where parts: "taken = a @ q @ b" "concat old = map published_result a"
    "concat new = map published_result q" "?buffer = map published_result b"
    by (rule map_eq_append3E)
  have "concat (map (\<lambda>b. map read_line (split_lines (bt_text b))) ?bs) = map (\<lambda>r. Some (point_of r)) (concat new)"
    using led(2) safe parts(1,3) by (intro batches_read_back [OF bs]) (auto simp: chunks)
  moreover have "\<forall>(i, t, event) \<in> set taken. i < length (ac_probes cfg) \<and>
      (\<exists>e. event = ProbeCompleted (fst (run_probe e (ac_probes cfg ! i))))"
  proof clarify
    fix i t event
    assume "(i, t, event) \<in> set taken"
    from published [OF this] show "i < length (ac_probes cfg) \<and>
        (\<exists>e. event = ProbeCompleted (fst (run_probe e (ac_probes cfg ! i))))"
      by (cases event) (auto simp: published_result_def)
  qed
  ultimately show ?thesis using parts by (intro exI [of _ a] exI [of _ q] exI [of _ b]) (simp add: comp_def)
qed

theorem influx_gets_only_measured_results_witness:
  "\<exists>gone queued buffered. sc_hub sample_run = gone @ queued @ buffered \<and>
     bb_buffer (pp_batcher (pipeline_step (ic_batch_size (ac_influx sample_config))
       (duration_from_millis (ic_batch_timeout_ms (ac_influx sample_config)))
       (duration_from_millis (ic_retry_initial_backoff_ms (ac_influx sample_config)))
       (duration_from_millis (ic_retry_max_backoff_ms (ac_influx sample_config)))
       (pipeline_start 0 (ac_influx sample_config))
       (BatcherEvent (5, 0, Received (snd (snd (hd (sc_hub sample_run)))))))) = map published_result buffered"
proof -
  let ?cfg = "ac_influx sample_config" and ?ev = "Received (snd (snd (hd (sc_hub sample_run))))"
  let ?start = "pipeline_start 0 ?cfg"
  have "bb_running (pp_batcher ?start)" "fresh_address 0 (pp_writer ?start)"
    by (simp_all add: pipeline_start_def Let_def batcher_start_def fresh_address_def new_queue_def)
  from pipeline_batcher [OF this, of ?cfg "[]" 5 ?ev]
  have "pipeline_move ?cfg (?start, [])
      (pipeline_step (ic_batch_size ?cfg) (duration_from_millis (ic_batch_timeout_ms ?cfg))
         (duration_from_millis (ic_retry_initial_backoff_ms ?cfg)) (duration_from_millis (ic_retry_max_backoff_ms ?cfg))
         ?start (BatcherEvent (5, 0, ?ev)), map published_result (sc_hub sample_run))"
    by (simp add: sample_run_def published_result_def)
  then have "pipeline_reachable ?cfg
      (pipeline_step (ic_batch_size ?cfg) (duration_from_millis (ic_batch_timeout_ms ?cfg))
         (duration_from_millis (ic_retry_initial_backoff_ms ?cfg)) (duration_from_millis (ic_retry_max_backoff_ms ?cfg))
         ?start (BatcherEvent (5, 0, ?ev))) (map published_result (sc_hub sample_run))"
    by (rule reach_step [OF reach_init, rotated]) (auto simp: pipeline_initial_def)
  from influx_gets_only_measured_results [OF sample_config_loads skip_tick_law sample_run_reachable subseq_order.refl this]
  show ?thesis by blast
qed

end
